(* ===== verification/Prelude.thy ===== *)
theory Prelude
  imports Complex_Main "HOL-Library.Sublist"
begin

text \<open>
  What every other theory of the development shares: the exceptions of the Python code as
  a datatype, results as sums, the sequencing of fallible calls, Python's loops and
  comprehensions over calls that may raise, dictionary reads and float division that raise,
  and the generic facts on lists the components use. Floats are exact reals throughout: no
  statement of the development depends on rounding.
\<close>

section \<open>Exceptions and results\<close>

datatype py_error =
    ValueError | AssertionError | KeyError | IndexError | ZeroDivisionError
  | AttributeError | TypeError | UnicodeDecodeError | UnicodeEncodeError | OverflowError
  | NotFoundError | EnvironmentError | OutOfRangeError | InvalidArgumentError

type_synonym 'a res = "py_error + 'a"

definition bindE :: "'a res \<Rightarrow> ('a \<Rightarrow> 'b res) \<Rightarrow> 'b res" where
  "bindE m f = (case m of Inl e \<Rightarrow> Inl e | Inr x \<Rightarrow> f x)"

lemma bindE_simps [simp]:
  "bindE (Inl e) f = Inl e"
  "bindE (Inr x) f = f x"
  by (simp_all add: bindE_def)

lemma bindE_Inr_right [simp]: "bindE m Inr = m"
  by (cases m) auto

lemma bindE_Inr_iff: "bindE m f = Inr y \<longleftrightarrow> (\<exists>x. m = Inr x \<and> f x = Inr y)"
  by (cases m) auto

lemma bindE_Inl_iff:
  "bindE m f = Inl e \<longleftrightarrow> m = Inl e \<or> (\<exists>x. m = Inr x \<and> f x = Inl e)"
  by (cases m) auto

lemma bindE_cong [fundef_cong]:
  "m = m' \<Longrightarrow> (\<And>x. m' = Inr x \<Longrightarrow> f x = g x) \<Longrightarrow> bindE m f = bindE m' g"
  by (cases m') auto

definition isOK :: "'a res \<Rightarrow> bool" where
  "isOK m = (case m of Inl _ \<Rightarrow> False | Inr _ \<Rightarrow> True)"

lemma isOK_simps [simp]: "isOK (Inr x)" "\<not> isOK (Inl e)"
  by (simp_all add: isOK_def)

lemma isOK_iff: "isOK m \<longleftrightarrow> (\<exists>x. m = Inr x)"
  by (cases m) auto

text \<open>An \<open>assert\<close> and a \<open>raise\<close> guarded by a condition.\<close>

definition assertE :: "bool \<Rightarrow> unit res" where
  "assertE b = (if b then Inr () else Inl AssertionError)"

definition raise_if :: "bool \<Rightarrow> py_error \<Rightarrow> unit res" where
  "raise_if b e = (if b then Inl e else Inr ())"

lemma assertE_simps [simp]: "assertE True = Inr ()" "assertE False = Inl AssertionError"
  by (simp_all add: assertE_def)

lemma raise_if_simps [simp]: "raise_if True e = Inl e" "raise_if False e = Inr ()"
  by (simp_all add: raise_if_def)

lemma assertE_Inr [simp]: "assertE b = Inr x \<longleftrightarrow> b"
  by (simp add: assertE_def)

lemma raise_if_Inr [simp]: "raise_if b e = Inr x \<longleftrightarrow> \<not> b"
  by (simp add: raise_if_def)

section \<open>Loops whose body may raise\<close>

fun mapE :: "('a \<Rightarrow> 'b res) \<Rightarrow> 'a list \<Rightarrow> 'b list res" where
  "mapE f [] = Inr []"
| "mapE f (x # xs) = bindE (f x) (\<lambda>y. bindE (mapE f xs) (\<lambda>ys. Inr (y # ys)))"

fun foldE :: "('s \<Rightarrow> 'a \<Rightarrow> 's res) \<Rightarrow> 's \<Rightarrow> 'a list \<Rightarrow> 's res" where
  "foldE f s [] = Inr s"
| "foldE f s (x # xs) = bindE (f s x) (\<lambda>s'. foldE f s' xs)"

lemma mapE_cong [fundef_cong]:
  "xs = ys \<Longrightarrow> (\<And>x. x \<in> set ys \<Longrightarrow> f x = g x) \<Longrightarrow> mapE f xs = mapE g ys"
  by (induction ys arbitrary: xs) auto

lemma foldE_cong [fundef_cong]:
  "xs = ys \<Longrightarrow> s = t \<Longrightarrow> (\<And>s x. x \<in> set ys \<Longrightarrow> f s x = g s x) \<Longrightarrow> foldE f s xs = foldE g t ys"
proof (induction ys arbitrary: xs s t)
  case (Cons y ys)
  then show ?case by (cases "g t y") auto
qed simp

lemma foldE_append: "foldE f s (xs @ ys) = bindE (foldE f s xs) (\<lambda>s'. foldE f s' ys)"
proof (induction xs arbitrary: s)
  case (Cons x xs)
  then show ?case by (cases "f s x") auto
qed simp

lemma foldE_Inr: "foldE (\<lambda>s x. Inr (f s x)) s xs = Inr (foldl f s xs)"
  by (induction xs arbitrary: s) auto

lemma mapE_Inr: "(\<And>x. x \<in> set xs \<Longrightarrow> f x = Inr (g x)) \<Longrightarrow> mapE f xs = Inr (map g xs)"
  by (induction xs) auto

lemma mapE_length: "mapE f xs = Inr ys \<Longrightarrow> length ys = length xs"
  by (induction xs arbitrary: ys) (auto simp: bindE_Inr_iff)

lemma mapE_set: "mapE f xs = Inr ys \<Longrightarrow> y \<in> set ys \<Longrightarrow> \<exists>x \<in> set xs. f x = Inr y"
  by (induction xs arbitrary: ys) (auto simp: bindE_Inr_iff)

lemma mapE_Inr_iff: "(\<exists>ys. mapE f xs = Inr ys) \<longleftrightarrow> (\<forall>x \<in> set xs. \<exists>y. f x = Inr y)"
  by (induction xs) (auto simp: bindE_Inr_iff)

lemma mapE_nth: "mapE f xs = Inr ys \<Longrightarrow> i < length xs \<Longrightarrow> f (xs ! i) = Inr (ys ! i)"
  by (induction xs arbitrary: ys i) (auto simp: bindE_Inr_iff nth_Cons' split: nat.splits)

text \<open>
  An invariant of a loop body that is kept by every step that does not raise holds after
  the loop; and a body that does not raise under the invariant gives a loop that does not.
\<close>

lemma foldE_invariant:
  assumes "foldE f s xs = Inr t" and "P s"
    and "\<And>s x s'. x \<in> set xs \<Longrightarrow> P s \<Longrightarrow> f s x = Inr s' \<Longrightarrow> P s'"
  shows "P t"
  using assms by (induction xs arbitrary: s) (auto simp: bindE_Inr_iff)

lemma foldE_total:
  assumes "P s" and "\<And>s x. x \<in> set xs \<Longrightarrow> P s \<Longrightarrow> \<exists>s'. f s x = Inr s' \<and> P s'"
  shows "\<exists>t. foldE f s xs = Inr t \<and> P t"
  using assms
proof (induction xs arbitrary: s)
  case (Cons x xs)
  then obtain s' where "f s x = Inr s'" "P s'" by force
  with Cons show ?case by force
qed simp

section \<open>Partial correctness of fallible programs\<close>

text \<open>
  \<open>okE m Q\<close>: if \<open>m\<close> does not raise, its result satisfies \<open>Q\<close>. The rules decompose a program
  from its first call on; they are used only to prove what a successful run has kept, never
  in place of a proof that the run succeeds.
\<close>

named_theorems okE_rules "introduction rules that take a successful run apart"

definition okE :: "'a res \<Rightarrow> ('a \<Rightarrow> bool) \<Rightarrow> bool" where
  "okE m Q \<longleftrightarrow> (\<forall>x. m = Inr x \<longrightarrow> Q x)"

lemma okE_D: "okE m Q \<Longrightarrow> m = Inr x \<Longrightarrow> Q x"
  by (simp add: okE_def)

lemma okE_I: "(\<And>x. m = Inr x \<Longrightarrow> Q x) \<Longrightarrow> okE m Q"
  by (simp add: okE_def)

lemma okE_result [okE_rules]: "Q x \<Longrightarrow> okE (Inr x) Q" "okE (Inl e) Q"
  by (simp_all add: okE_def)

lemma okE_bind: "okE m (\<lambda>x. okE (f x) Q) \<Longrightarrow> okE (bindE m f) Q"
  by (auto simp: okE_def bindE_Inr_iff)

lemma okE_bind_any [okE_rules]: "(\<And>x. m = Inr x \<Longrightarrow> okE (f x) Q) \<Longrightarrow> okE (bindE m f) Q"
  by (auto simp: okE_def bindE_Inr_iff)

lemma okE_if [okE_rules]: "(c \<Longrightarrow> okE a Q) \<Longrightarrow> (\<not> c \<Longrightarrow> okE b Q) \<Longrightarrow> okE (if c then a else b) Q"
  by simp

lemma okE_prod [okE_rules]: "(\<And>a b. p = (a, b) \<Longrightarrow> okE (f a b) Q) \<Longrightarrow> okE (case p of (a, b) \<Rightarrow> f a b) Q"
  by (cases p) simp

lemma okE_prod_fun [okE_rules]:
  "(\<And>a b. p = (a, b) \<Longrightarrow> okE (f a b c) Q) \<Longrightarrow> okE ((case p of (a, b) \<Rightarrow> f a b) c) Q"
  by (cases p) simp

lemma okE_option:
  "(x = None \<Longrightarrow> okE a Q) \<Longrightarrow> (\<And>y. x = Some y \<Longrightarrow> okE (f y) Q)
   \<Longrightarrow> okE (case x of None \<Rightarrow> a | Some y \<Rightarrow> f y) Q"
  by (cases x) simp_all

lemma okE_foldE:
  assumes "P s" and "\<And>s x. x \<in> set xs \<Longrightarrow> P s \<Longrightarrow> okE (f s x) P"
  shows "okE (foldE f s xs) P"
proof (rule okE_I)
  fix t assume "foldE f s xs = Inr t"
  then show "P t" by (rule foldE_invariant) (use assms in \<open>auto dest: okE_D\<close>)
qed

section \<open>Reads and arithmetic that raise\<close>

definition dict_get :: "('k \<rightharpoonup> 'v) \<Rightarrow> 'k \<Rightarrow> 'v res" where
  "dict_get m k = (case m k of None \<Rightarrow> Inl KeyError | Some v \<Rightarrow> Inr v)"

lemma dict_get_Inr [simp]: "dict_get m k = Inr v \<longleftrightarrow> m k = Some v"
  by (simp add: dict_get_def split: option.splits)

lemma dict_get_Some: "m k = Some v \<Longrightarrow> dict_get m k = Inr v"
  by simp

text \<open>Python's \<open>xs[i]\<close>: a negative index counts from the end, out of range raises.\<close>

definition list_get :: "'a list \<Rightarrow> int \<Rightarrow> 'a res" where
  "list_get xs i =
     (let j = (if i < 0 then int (length xs) + i else i)
      in if 0 \<le> j \<and> j < int (length xs) then Inr (xs ! nat j) else Inl IndexError)"

definition py_div :: "real \<Rightarrow> real \<Rightarrow> real res" where
  "py_div a b = (if b = 0 then Inl ZeroDivisionError else Inr (a / b))"

lemma py_div_simps [simp]:
  "b \<noteq> 0 \<Longrightarrow> py_div a b = Inr (a / b)"
  "py_div a 0 = Inl ZeroDivisionError"
  by (simp_all add: py_div_def)

lemma py_div_Inr: "py_div a b = Inr c \<longleftrightarrow> b \<noteq> 0 \<and> c = a / b"
  by (auto simp: py_div_def)

text \<open>\<open>int(a / b)\<close> for integers: true division, then truncation towards zero.\<close>

definition int_of_div :: "int \<Rightarrow> int \<Rightarrow> int" where
  "int_of_div a b = sgn a * sgn b * (\<bar>a\<bar> div \<bar>b\<bar>)"

lemma int_of_div_nonneg [simp]: "0 \<le> a \<Longrightarrow> 0 < b \<Longrightarrow> int_of_div a b = a div b"
  by (cases "a = 0") (auto simp: int_of_div_def)

lemma unit_interval_div: "0 \<le> a \<Longrightarrow> a \<le> b \<Longrightarrow> 0 \<le> a / b \<and> a / b \<le> (1::real)"
  by (cases "b = 0") (auto simp: divide_le_eq_1)

section \<open>Programs that may not end\<close>

text \<open>
  A loop the code does not bound is a partial function into \<open>option\<close>: \<open>None\<close> is a run that
  never returns, \<open>Some (Inl e)\<close> one that raises and \<open>Some (Inr x)\<close> one that returns \<open>x\<close>.
\<close>

type_synonym 'a prog = "'a res option"

definition bindP :: "'a prog \<Rightarrow> ('a \<Rightarrow> 'b prog) \<Rightarrow> 'b prog" where
  "bindP m f = (case m of None \<Rightarrow> None | Some (Inl e) \<Rightarrow> Some (Inl e) | Some (Inr x) \<Rightarrow> f x)"

lemma bindP_simps [simp]:
  "bindP None f = None"
  "bindP (Some (Inl e)) f = Some (Inl e)"
  "bindP (Some (Inr x)) f = f x"
  by (simp_all add: bindP_def)

lemma bindP_assoc: "bindP (bindP m f) g = bindP m (\<lambda>x. bindP (f x) g)"
  by (simp add: bindP_def split: option.splits sum.splits)

lemma bindP_Inr_iff: "bindP m f = Some (Inr y) \<longleftrightarrow> (\<exists>x. m = Some (Inr x) \<and> f x = Some (Inr y))"
  by (auto simp: bindP_def split: option.splits sum.splits)

lemma bindP_mono [partial_function_mono]:
  assumes "mono_option B" and "\<And>y. mono_option (\<lambda>f. C y f)"
  shows "mono_option (\<lambda>f. bindP (B f) (\<lambda>y. C y f))"
proof (rule monotoneI)
  fix f g :: "'a \<Rightarrow> 'b option"
  assume fg: "fun_ord option_ord f g"
  have B: "option_ord (B f) (B g)" and C: "\<And>y. option_ord (C y f) (C y g)"
    using assms fg by (auto dest: monotoneD)
  show "option_ord (bindP (B f) (\<lambda>y. C y f)) (bindP (B g) (\<lambda>y. C y g))"
  proof (cases "B f")
    case None
    then show ?thesis by (simp add: flat_ord_def)
  next
    case (Some r)
    with B have "B g = Some r" by (simp add: flat_ord_def)
    with Some C show ?thesis by (cases r) (auto simp: flat_ord_def)
  qed
qed

fun foldP :: "('s \<Rightarrow> 'a \<Rightarrow> 's prog) \<Rightarrow> 's \<Rightarrow> 'a list \<Rightarrow> 's prog" where
  "foldP f s [] = Some (Inr s)"
| "foldP f s (x # xs) = bindP (f s x) (\<lambda>s'. foldP f s' xs)"

lemma foldP_invariant:
  assumes "foldP f s xs = Some (Inr t)" and "P s"
    and "\<And>s x s'. x \<in> set xs \<Longrightarrow> P s \<Longrightarrow> f s x = Some (Inr s') \<Longrightarrow> P s'"
  shows "P t"
  using assms by (induction xs arbitrary: s) (auto simp: bindP_Inr_iff)

text \<open>\<open>xs[i:j]\<close>: negative bounds count from the end, and the bounds are clamped.\<close>

definition slice_bound :: "'a list \<Rightarrow> int \<Rightarrow> nat" where
  "slice_bound xs k = min (length xs) (nat (if k < 0 then k + int (length xs) else k))"

definition py_slice :: "'a list \<Rightarrow> int \<Rightarrow> int \<Rightarrow> 'a list" where
  "py_slice xs i j = take (slice_bound xs j - slice_bound xs i) (drop (slice_bound xs i) xs)"

end
