(* ===== verification/PyText.thy ===== *)
theory PyText
  imports Prelude "HOL-Library.Char_ord"
begin

text \<open>
  The part of Python's \<open>str\<close>, \<open>bytes\<close> and \<open>os.path\<close> that the programs use. A \<open>str\<close> is
  the list of its code points (\<open>pystr\<close>), a \<open>bytes\<close> value is a list of 8-bit \<open>char\<close>s; \<open>u\<close>
  turns an ASCII literal into a \<open>pystr\<close>. Splitting, stripping, joining, line splitting
  and the strict UTF-8 codec are written out, with the facts the components rely on. The
  codec contract is a locale, interpreted on \<open>utf8_encode\<close> and \<open>utf8_decode\<close>.
\<close>

type_synonym pystr = "nat list"
type_synonym bytes = "char list"

definition u :: "string \<Rightarrow> pystr" where
  "u s = map of_char s"

lemma u_inject [simp]: "u a = u b \<longleftrightarrow> a = b"
  by (auto simp: u_def inj_map_eq_map inj_on_def)

lemma u_append: "u (a @ b) = u a @ u b"
  by (simp add: u_def)

lemma u_Nil_iff [simp]: "u a = [] \<longleftrightarrow> a = []" "[] = u a \<longleftrightarrow> a = []"
  by (auto simp: u_def)

section \<open>Splitting and joining\<close>

fun split_by :: "('a \<Rightarrow> bool) \<Rightarrow> 'a list \<Rightarrow> 'a list list" where
  "split_by p [] = [[]]"
| "split_by p (x # xs) =
     (if p x then [] # split_by p xs
      else (case split_by p xs of [] \<Rightarrow> [[x]] | w # ws \<Rightarrow> (x # w) # ws))"

text \<open>\<open>s.split(sep)\<close> for a separator of one character.\<close>

definition split_on :: "'a \<Rightarrow> 'a list \<Rightarrow> 'a list list" where
  "split_on c = split_by (\<lambda>x. x = c)"

fun join :: "'a list \<Rightarrow> 'a list list \<Rightarrow> 'a list" where
  "join sep [] = []"
| "join sep [w] = w"
| "join sep (w # v # ws) = w @ sep @ join sep (v # ws)"

lemma split_by_nonempty [simp]: "split_by p xs \<noteq> []"
  by (induction xs) (auto split: list.splits)

lemma split_on_nonempty [simp]: "split_on c xs \<noteq> []"
  by (simp add: split_on_def)

lemma split_by_none: "\<forall>x \<in> set xs. \<not> p x \<Longrightarrow> split_by p xs = [xs]"
  by (induction xs) auto

lemma split_by_append:
  "\<forall>x \<in> set w. \<not> p x \<Longrightarrow> p c \<Longrightarrow> split_by p (w @ c # xs) = w # split_by p xs"
  by (induction w) auto

lemma split_by_parts: "w \<in> set (split_by p xs) \<Longrightarrow> \<forall>x \<in> set w. \<not> p x \<and> x \<in> set xs"
  by (induction xs arbitrary: w) (fastforce split: list.splits if_splits)+

lemma split_by_concat: "concat (split_by p xs) = filter (\<lambda>x. \<not> p x) xs"
  by (induction xs) (auto split: list.splits)

lemma split_on_join:
  "ws \<noteq> [] \<Longrightarrow> \<forall>w \<in> set ws. c \<notin> set w \<Longrightarrow> split_on c (join [c] ws) = ws"
proof (induction "[c]" ws rule: join.induct)
  case (2 w)
  then show ?case by (auto simp: split_on_def intro: split_by_none)
next
  case (3 w v ws)
  then show ?case by (simp add: split_on_def) (subst split_by_append, auto)
qed simp

lemma join_Cons: "ws \<noteq> [] \<Longrightarrow> join sep (w # ws) = w @ sep @ join sep ws"
  by (cases ws) auto

lemma join_split_on: "join [c] (split_on c xs) = xs"
proof (induction xs)
  case (Cons x xs)
  obtain w ws where s: "split_on c xs = w # ws"
    by (cases "split_on c xs") auto
  with Cons show ?case
    by (cases ws) (auto simp: split_on_def)
qed (simp add: split_on_def)

lemma set_join: "set (join sep ws) \<subseteq> set sep \<union> (\<Union>w \<in> set ws. set w)"
  by (induction sep ws rule: join.induct) auto

lemma join_snoc: "ws \<noteq> [] \<Longrightarrow> join sep (ws @ [w]) = join sep ws @ sep @ w"
  by (induction sep ws rule: join.induct) auto

section \<open>White space\<close>

text \<open>The code points that \<open>str.strip()\<close> and \<open>str.split()\<close> treat as white space.\<close>

definition is_space :: "nat \<Rightarrow> bool" where
  "is_space c \<longleftrightarrow>
     9 \<le> c \<and> c \<le> 13 \<or> 28 \<le> c \<and> c \<le> 32 \<or> c = 133 \<or> c = 160 \<or> c = 5760 \<or>
     8192 \<le> c \<and> c \<le> 8202 \<or> c = 8232 \<or> c = 8233 \<or> c = 8239 \<or> c = 8287 \<or> c = 12288"

lemma is_space_32 [simp]: "is_space 32"
  by (simp add: is_space_def)

definition lstrip :: "pystr \<Rightarrow> pystr" where
  "lstrip = dropWhile is_space"

definition rstrip :: "pystr \<Rightarrow> pystr" where
  "rstrip s = rev (dropWhile is_space (rev s))"

definition strip :: "pystr \<Rightarrow> pystr" where
  "strip s = rstrip (lstrip s)"

text \<open>\<open>s.split()\<close>: the maximal runs without white space.\<close>

definition split_ws :: "pystr \<Rightarrow> pystr list" where
  "split_ws s = filter (\<lambda>w. w \<noteq> []) (split_by is_space s)"

lemma dropWhile_id: "xs = [] \<or> \<not> p (hd xs) \<Longrightarrow> dropWhile p xs = xs"
  by (cases xs) auto

lemma lstrip_id: "s = [] \<or> \<not> is_space (hd s) \<Longrightarrow> lstrip s = s"
  by (simp add: lstrip_def dropWhile_id)

lemma rstrip_id: "s = [] \<or> \<not> is_space (last s) \<Longrightarrow> rstrip s = s"
  by (cases s rule: rev_cases) (auto simp: rstrip_def)

lemma hd_dropWhile_not: "dropWhile p xs \<noteq> [] \<Longrightarrow> \<not> p (hd (dropWhile p xs))"
  by (induction xs) auto

lemma hd_lstrip: "lstrip s \<noteq> [] \<Longrightarrow> \<not> is_space (hd (lstrip s))"
  by (simp add: lstrip_def hd_dropWhile_not)

lemma last_rstrip: "rstrip s \<noteq> [] \<Longrightarrow> \<not> is_space (last (rstrip s))"
  by (simp add: rstrip_def last_rev hd_dropWhile_not)

lemma rstrip_prefix: "\<exists>t. s = rstrip s @ t \<and> (\<forall>c \<in> set t. is_space c)"
proof
  let ?t = "rev (takeWhile is_space (rev s))"
  have "rev s = takeWhile is_space (rev s) @ dropWhile is_space (rev s)" by simp
  then have "s = rev (dropWhile is_space (rev s)) @ ?t"
    by (metis rev_append rev_rev_ident)
  then show "s = rstrip s @ ?t \<and> (\<forall>c \<in> set ?t. is_space c)"
    by (auto simp: rstrip_def dest: set_takeWhileD)
qed

lemma hd_rstrip: "rstrip s \<noteq> [] \<Longrightarrow> hd (rstrip s) = hd s"
  by (metis hd_append2 rstrip_prefix)

lemma strip_ends:
  "strip s \<noteq> [] \<Longrightarrow> \<not> is_space (hd (strip s)) \<and> \<not> is_space (last (strip s))"
proof -
  assume a: "strip s \<noteq> []"
  then have "lstrip s \<noteq> []" by (auto simp: strip_def rstrip_def)
  with a show ?thesis
    by (auto simp: strip_def hd_rstrip last_rstrip hd_lstrip)
qed

lemma strip_id: "s = [] \<or> \<not> is_space (hd s) \<and> \<not> is_space (last s) \<Longrightarrow> strip s = s"
  by (auto simp: strip_def lstrip_id rstrip_id)

lemma strip_idem [simp]: "strip (strip s) = strip s"
  by (rule strip_id) (use strip_ends in blast)

section \<open>Lines\<close>

text \<open>
  The line boundaries of \<open>str.splitlines\<close>, which is also what iteration over a
  \<open>codecs\<close> reader and its \<open>readlines\<close> use (with the line ends kept).
\<close>

definition is_eol :: "nat \<Rightarrow> bool" where
  "is_eol c \<longleftrightarrow> 10 \<le> c \<and> c \<le> 13 \<or> 28 \<le> c \<and> c \<le> 30 \<or> c = 133 \<or> c = 8232 \<or> c = 8233"

fun splitlines_keep :: "pystr \<Rightarrow> pystr list" where
  "splitlines_keep [] = []"
| "splitlines_keep (c # cs) =
     (if c = 13 \<and> cs \<noteq> [] \<and> hd cs = 10 then [13, 10] # splitlines_keep (tl cs)
      else if is_eol c then [c] # splitlines_keep cs
      else (case splitlines_keep cs of [] \<Rightarrow> [[c]] | l # ls \<Rightarrow> (c # l) # ls))"

definition chomp :: "pystr \<Rightarrow> pystr" where
  "chomp l =
     (if length l \<ge> 2 \<and> drop (length l - 2) l = [13, 10] then take (length l - 2) l
      else if l \<noteq> [] \<and> is_eol (last l) then butlast l else l)"

definition splitlines :: "pystr \<Rightarrow> pystr list" where
  "splitlines s = map chomp (splitlines_keep s)"

lemma is_eol_space: "is_eol c \<Longrightarrow> is_space c"
  by (auto simp: is_eol_def is_space_def)

lemma concat_splitlines_keep [simp]: "concat (splitlines_keep s) = s"
proof (induction s rule: splitlines_keep.induct)
  case (2 c cs)
  consider (crlf) "c = 13 \<and> cs \<noteq> [] \<and> hd cs = 10"
    | (eol) "\<not> (c = 13 \<and> cs \<noteq> [] \<and> hd cs = 10)" "is_eol c"
    | (char) "\<not> (c = 13 \<and> cs \<noteq> [] \<and> hd cs = 10)" "\<not> is_eol c" by blast
  then show ?case
  proof cases
    case crlf
    then have "10 # tl cs = cs" by (cases cs) simp_all
    with crlf "2.IH"(1) show ?thesis by simp
  next
    case eol
    then have "splitlines_keep (c # cs) = [c] # splitlines_keep cs" by (simp only: splitlines_keep.simps if_False if_True)
    with eol "2.IH"(2) show ?thesis by simp
  next
    case char
    then have "splitlines_keep (c # cs) = (case splitlines_keep cs of [] \<Rightarrow> [[c]] | l # ls \<Rightarrow> (c # l) # ls)"
      by (simp only: splitlines_keep.simps if_False if_True)
    with char "2.IH"(3) show ?thesis by (cases "splitlines_keep cs") auto
  qed
qed simp

lemma is_eol_simps [simp]: "is_eol 10" "is_eol 13"
  by (simp_all add: is_eol_def)

lemma splitlines_keep_line:
  "\<forall>c \<in> set w. \<not> is_eol c \<Longrightarrow> splitlines_keep (w @ 10 # cs) = (w @ [10]) # splitlines_keep cs"
proof (induction w)
  case (Cons c w)
  then have "c \<noteq> 13" "\<not> is_eol c" by auto
  with Cons show ?case by simp
qed simp

lemma splitlines_keep_lines:
  assumes "\<forall>w \<in> set ws. \<forall>c \<in> set w. \<not> is_eol c"
  shows "splitlines_keep (concat (map (\<lambda>w. w @ [10]) ws)) = map (\<lambda>w. w @ [10]) ws"
  using assms by (induction ws) (auto simp: splitlines_keep_line)

lemma strip_line: "strip w = w \<Longrightarrow> strip (w @ [10]) = w"
proof -
  assume w: "strip w = w"
  show ?thesis
  proof (cases "w = []")
    case True
    then show ?thesis by (simp add: strip_def lstrip_def rstrip_def is_space_def)
  next
    case False
    with w strip_ends[of w] have e: "\<not> is_space (hd w)" "\<not> is_space (last w)" by auto
    then have "lstrip (w @ [10]) = w @ [10]"
      using False by (intro lstrip_id) (simp add: hd_append2)
    moreover have "rstrip (w @ [10]) = rstrip w"
      by (simp add: rstrip_def is_space_def)
    ultimately show ?thesis using e False by (simp add: strip_def rstrip_id)
  qed
qed

section \<open>Decimal numbers\<close>

fun nat_str :: "nat \<Rightarrow> pystr" where
  "nat_str n = (if n < 10 then [48 + n] else nat_str (n div 10) @ [48 + n mod 10])"

declare nat_str.simps [simp del]

definition int_str :: "int \<Rightarrow> pystr" where
  "int_str i = (if i < 0 then 45 # nat_str (nat (- i)) else nat_str (nat i))"

lemma nat_str_value: "foldl (\<lambda>a d. 10 * a + (d - 48)) 0 (nat_str n) = n"
proof (induction n rule: nat_str.induct)
  case (1 n)
  then show ?case by (subst nat_str.simps) simp
qed

lemma nat_str_inject [simp]: "nat_str m = nat_str n \<longleftrightarrow> m = n"
  by (metis nat_str_value)

lemma nat_str_digits: "c \<in> set (nat_str n) \<Longrightarrow> 48 \<le> c \<and> c < 58"
proof (induction n rule: nat_str.induct)
  case (1 n)
  then show ?case by (subst (asm) nat_str.simps) (auto split: if_splits)
qed

lemma nat_str_nonempty [simp]: "nat_str n \<noteq> []"
  by (subst nat_str.simps) simp

lemma int_str_nonempty [simp]: "int_str i \<noteq> []"
  by (simp add: int_str_def)

lemma int_str_inject [simp]: "int_str i = int_str j \<longleftrightarrow> i = j"
proof -
  have "45 # nat_str m \<noteq> nat_str n" for m n
  proof
    assume "45 # nat_str m = nat_str n"
    then have "45 \<in> set (nat_str n)" by (metis list.set_intros(1))
    then show False using nat_str_digits by force
  qed
  then show ?thesis by (auto simp: int_str_def) metis+
qed

section \<open>Replacing\<close>

text \<open>
  \<open>s.replace(old, new)\<close>, and equally \<open>re.sub(old, new, s)\<close> for a literal pattern: the
  leftmost occurrences that do not overlap, for a non-empty \<open>old\<close>.
\<close>

function replace :: "'a list \<Rightarrow> 'a list \<Rightarrow> 'a list \<Rightarrow> 'a list" where
  "replace old new s =
     (if s = [] \<or> old = [] then s
      else if take (length old) s = old then new @ replace old new (drop (length old) s)
      else hd s # replace old new (tl s))"
  by pat_completeness auto
termination
  by (relation "measure (\<lambda>(old, new, s). length s)") (auto simp: neq_Nil_conv)

declare replace.simps [simp del]

lemma replace_Nil [simp]: "replace old new [] = []"
  by (simp add: replace.simps)

lemma replace_match:
  "old \<noteq> [] \<Longrightarrow> replace old new (old @ s) = new @ replace old new s"
  by (subst replace.simps) auto

lemma replace_step:
  "old \<noteq> [] \<Longrightarrow> take (length old) (c # s) \<noteq> old \<Longrightarrow>
   replace old new (c # s) = c # replace old new s"
  by (subst replace.simps) auto

lemma replace_single:
  "replace [c] new s = concat (map (\<lambda>x. if x = c then new else [x]) s)"
proof (induction s)
  case (Cons x s)
  then show ?case by (subst replace.simps) auto
qed simp

lemma set_replace: "set (replace old new s) \<subseteq> set new \<union> set s"
proof (induction old new s rule: replace.induct)
  case (1 old new s)
  show ?case
  proof (cases "s = [] \<or> old = []")
    case True
    then show ?thesis by (subst replace.simps) auto
  next
    case False
    then obtain c cs where s: "s = c # cs" by (cases s) auto
    have "set (drop (length old) s) \<subseteq> set s" by (rule set_drop_subset)
    with False "1.IH" s show ?thesis by (subst replace.simps) auto
  qed
qed

section \<open>Paths\<close>

definition path_join :: "pystr \<Rightarrow> pystr \<Rightarrow> pystr" where
  "path_join a b =
     (if b \<noteq> [] \<and> hd b = 47 then b
      else if a = [] \<or> last a = 47 then a @ b
      else a @ [47] @ b)"

definition basename :: "pystr \<Rightarrow> pystr" where
  "basename p = rev (takeWhile (\<lambda>c. c \<noteq> 47) (rev p))"

definition dirname :: "pystr \<Rightarrow> pystr" where
  "dirname p =
     (let head = rev (dropWhile (\<lambda>c. c \<noteq> 47) (rev p))
      in if \<forall>c \<in> set head. c = 47 then head
         else rev (dropWhile (\<lambda>c. c = 47) (rev head)))"

section \<open>UTF-8\<close>

definition scalar :: "nat \<Rightarrow> bool" where
  "scalar c \<longleftrightarrow> c < 55296 \<or> 57343 < c \<and> c < 1114112"

definition enc1 :: "nat \<Rightarrow> nat list" where
  "enc1 c =
     (if c < 128 then [c]
      else if c < 2048 then [192 + c div 64, 128 + c mod 64]
      else if c < 65536 then [224 + c div 4096, 128 + c div 64 mod 64, 128 + c mod 64]
      else [240 + c div 262144, 128 + c div 4096 mod 64, 128 + c div 64 mod 64, 128 + c mod 64])"

definition utf8_encode :: "pystr \<Rightarrow> bytes" where
  "utf8_encode s = map char_of (concat (map enc1 s))"

definition cont :: "nat \<Rightarrow> bool" where
  "cont b \<longleftrightarrow> 128 \<le> b \<and> b < 192"

text \<open>The strict decoder: overlong forms, surrogates and stray bytes raise.\<close>

function dec_cps :: "nat list \<Rightarrow> pystr res" where
  "dec_cps bs =
     (case bs of [] \<Rightarrow> Inr []
      | b # r \<Rightarrow>
        (if b < 128 then bindE (dec_cps r) (\<lambda>s. Inr (b # s))
         else if 194 \<le> b \<and> b < 224 \<and> length r \<ge> 1 \<and> cont (r ! 0)
         then bindE (dec_cps (drop 1 r)) (\<lambda>s. Inr (((b - 192) * 64 + (r ! 0 - 128)) # s))
         else if 224 \<le> b \<and> b < 240 \<and> length r \<ge> 2 \<and> cont (r ! 0) \<and> cont (r ! 1)
           \<and> 2048 \<le> (b - 224) * 4096 + (r ! 0 - 128) * 64 + (r ! 1 - 128)
           \<and> scalar ((b - 224) * 4096 + (r ! 0 - 128) * 64 + (r ! 1 - 128))
         then bindE (dec_cps (drop 2 r))
                (\<lambda>s. Inr (((b - 224) * 4096 + (r ! 0 - 128) * 64 + (r ! 1 - 128)) # s))
         else if 240 \<le> b \<and> b < 245 \<and> length r \<ge> 3 \<and> cont (r ! 0) \<and> cont (r ! 1) \<and> cont (r ! 2)
           \<and> 65536 \<le> (b - 240) * 262144 + (r ! 0 - 128) * 4096 + (r ! 1 - 128) * 64 + (r ! 2 - 128)
           \<and> scalar ((b - 240) * 262144 + (r ! 0 - 128) * 4096 + (r ! 1 - 128) * 64 + (r ! 2 - 128))
         then bindE (dec_cps (drop 3 r))
                (\<lambda>s. Inr (((b - 240) * 262144 + (r ! 0 - 128) * 4096 + (r ! 1 - 128) * 64
                       + (r ! 2 - 128)) # s))
         else Inl UnicodeDecodeError))"
  by pat_completeness auto
termination
  by (relation "measure length") auto

declare dec_cps.simps [simp del]

definition utf8_decode :: "bytes \<Rightarrow> pystr res" where
  "utf8_decode b = dec_cps (map of_char b)"

lemma dec_cps_Nil [simp]: "dec_cps [] = Inr []"
  by (simp add: dec_cps.simps)

lemma base_64_parts:
  "(c::nat) = 64 * q + r \<Longrightarrow> q = 64 * p + t \<Longrightarrow> p * 4096 + t * 64 + r = c"
  "(c::nat) = 64 * q + r \<Longrightarrow> q = 64 * p + t \<Longrightarrow> p = 64 * o1 + v \<Longrightarrow>
     o1 * 262144 + v * 4096 + t * 64 + r = c"
  by simp_all

lemma divmod_64_parts:
  fixes c :: nat
  shows "c div 4096 * 4096 + c div 64 mod 64 * 64 + c mod 64 = c"
    and "c div 262144 * 262144 + c div 4096 mod 64 * 4096 + c div 64 mod 64 * 64 + c mod 64 = c"
proof -
  have 1: "c = 64 * (c div 64) + c mod 64" by simp
  have 2: "c div 64 = 64 * (c div 4096) + c div 64 mod 64"
    using div_mult2_eq[of c 64 64] by simp
  have 3: "c div 4096 = 64 * (c div 262144) + c div 4096 mod 64"
    using div_mult2_eq[of c 4096 64] by simp
  show "c div 4096 * 4096 + c div 64 mod 64 * 64 + c mod 64 = c"
    by (rule base_64_parts(1)[OF 1 2])
  show "c div 262144 * 262144 + c div 4096 mod 64 * 4096 + c div 64 mod 64 * 64 + c mod 64 = c"
    by (rule base_64_parts(2)[OF 1 2 3])
qed

lemma dec_enc1:
  assumes "scalar c"
  shows "dec_cps (enc1 c @ r) = bindE (dec_cps r) (\<lambda>s. Inr (c # s))"
proof -
  consider "c < 128" | "128 \<le> c" "c < 2048" | "2048 \<le> c" "c < 65536" | "65536 \<le> c" by linarith
  then show ?thesis
  proof cases
    case 1
    then show ?thesis by (subst dec_cps.simps) (simp add: enc1_def)
  next
    case 2
    then have "2 \<le> c div 64" "c div 64 < 32" by auto
    with 2 show ?thesis by (subst dec_cps.simps) (simp add: enc1_def cont_def)
  next
    case 3
    then have "c div 4096 < 16" by auto
    with 3 assms divmod_64_parts(1)[of c] show ?thesis
      by (subst dec_cps.simps) (simp add: enc1_def cont_def)
  next
    case 4
    from assms 4 have "c div 262144 < 5" by (auto simp: scalar_def)
    with 4 assms divmod_64_parts(2)[of c] show ?thesis
      by (subst dec_cps.simps) (simp add: enc1_def cont_def)
  qed
qed

lemma enc1_bytes: "scalar c \<Longrightarrow> b \<in> set (enc1 c) \<Longrightarrow> b < 256"
proof -
  assume s: "scalar c" and b: "b \<in> set (enc1 c)"
  have "c div 262144 < 5" using s by (auto simp: scalar_def)
  moreover have "c < 2048 \<Longrightarrow> c div 64 < 32" "c < 65536 \<Longrightarrow> c div 4096 < 16" by auto
  moreover have "x mod 64 < 64" for x :: nat by simp
  ultimately show ?thesis
    using b unfolding enc1_def by (auto split: if_splits simp: add.commute less_diff_conv intro: less_trans)
qed

lemma utf8_roundtrip: "\<forall>c \<in> set s. scalar c \<Longrightarrow> utf8_decode (utf8_encode s) = Inr s"
proof -
  assume s: "\<forall>c \<in> set s. scalar c"
  then have "map (of_char \<circ> char_of) (concat (map enc1 s)) = concat (map enc1 s)"
    by (intro map_idI) (auto dest!: enc1_bytes)
  then have "map of_char (utf8_encode s) = concat (map enc1 s)"
    by (simp add: utf8_encode_def)
  moreover have "dec_cps (concat (map enc1 s)) = Inr s"
    using s by (induction s) (auto simp: dec_enc1)
  ultimately show ?thesis by (simp add: utf8_decode_def)
qed

text \<open>What the clients of a text codec rely on.\<close>

locale text_codec =
  fixes encode :: "pystr \<Rightarrow> bytes" and decode :: "bytes \<Rightarrow> pystr res"
    and encodable :: "pystr \<Rightarrow> bool"
  assumes decode_encode: "encodable s \<Longrightarrow> decode (encode s) = Inr s"
    and encode_append: "encode (s @ t) = encode s @ encode t"
    and encodable_append: "encodable (s @ t) \<longleftrightarrow> encodable s \<and> encodable t"
    and encodable_Nil: "encodable []"
begin

lemma encode_Nil: "encode [] = []"
  using encode_append[of "[]" "[]"] by simp

lemma encode_concat: "encode (concat ss) = concat (map encode ss)"
  by (induction ss) (simp_all add: encode_append encode_Nil)

lemma encode_join: "encode (join sep ws) = join (encode sep) (map encode ws)"
  by (induction sep ws rule: join.induct) (simp_all add: encode_append encode_Nil)

lemma encode_inject: "encodable s \<Longrightarrow> encodable t \<Longrightarrow> encode s = encode t \<longleftrightarrow> s = t"
  by (metis decode_encode sum.inject(2))

lemma encodable_join: "encodable sep \<Longrightarrow> \<forall>w \<in> set ws. encodable w \<Longrightarrow> encodable (join sep ws)"
  by (induction sep ws rule: join.induct) (simp_all add: encodable_append encodable_Nil)

end

definition encodable :: "pystr \<Rightarrow> bool" where
  "encodable s \<longleftrightarrow> (\<forall>c \<in> set s. scalar c)"

interpretation utf8: text_codec utf8_encode utf8_decode encodable
proof unfold_locales
  show "encodable s \<Longrightarrow> utf8_decode (utf8_encode s) = Inr s" for s
    by (simp add: encodable_def utf8_roundtrip)
qed (auto simp: encodable_def utf8_encode_def)

end
