(* ===== verification/Files.thy ===== *)
theory Files
  imports PyText
begin

text \<open>
  The file operations the programs call through \<open>tf.gfile\<close>. They belong to TensorFlow, so
  they are a parameter: a record \<open>'w gfile\<close> of operations on an abstract world \<open>'w\<close>, handed
  to every definition that touches files. The locale \<open>gfile_laws\<close> states what the code
  relies on (a file that was written reads back, other files are untouched), and
  \<open>dict_gfile\<close>, a dictionary from paths to contents, is the instance the witnesses use.
  \<open>read_text\<close> and \<open>write_text\<close> are the \<open>codecs\<close> UTF-8 reader and writer on top.
\<close>

record 'w gfile =
  gf_exists :: "'w \<Rightarrow> pystr \<Rightarrow> bool"
  gf_read :: "'w \<Rightarrow> pystr \<Rightarrow> bytes res"
  gf_write :: "'w \<Rightarrow> pystr \<Rightarrow> bytes \<Rightarrow> 'w res"
  gf_makedirs :: "'w \<Rightarrow> pystr \<Rightarrow> 'w res"
  gf_rename :: "'w \<Rightarrow> pystr \<Rightarrow> pystr \<Rightarrow> 'w res"
  gf_remove :: "'w \<Rightarrow> pystr \<Rightarrow> 'w res"

definition read_text :: "'w gfile \<Rightarrow> 'w \<Rightarrow> pystr \<Rightarrow> pystr res" where
  "read_text G w p = bindE (gf_read G w p) utf8_decode"

definition write_text :: "'w gfile \<Rightarrow> 'w \<Rightarrow> pystr \<Rightarrow> pystr \<Rightarrow> 'w res" where
  "write_text G w p s =
     (if encodable s then gf_write G w p (utf8_encode s) else Inl UnicodeEncodeError)"

locale gfile_laws =
  fixes G :: "'w gfile"
  assumes read_exists: "gf_read G w p = Inr b \<Longrightarrow> gf_exists G w p"
    and read_written: "gf_write G w p b = Inr w' \<Longrightarrow> gf_read G w' p = Inr b"
    and read_unwritten: "gf_write G w p b = Inr w' \<Longrightarrow> q \<noteq> p \<Longrightarrow> gf_read G w' q = gf_read G w q"
    and exists_unwritten: "gf_write G w p b = Inr w' \<Longrightarrow> q \<noteq> p \<Longrightarrow> gf_exists G w' q = gf_exists G w q"
    and read_makedirs: "gf_makedirs G w d = Inr w' \<Longrightarrow> gf_read G w' q = gf_read G w q"
    and read_renamed: "gf_rename G w p q = Inr w' \<Longrightarrow> gf_read G w' q = gf_read G w p"
    and read_not_renamed: "gf_rename G w p q = Inr w' \<Longrightarrow> r \<noteq> p \<Longrightarrow> r \<noteq> q \<Longrightarrow> gf_read G w' r = gf_read G w r"
    and exists_not_renamed: "gf_rename G w p q = Inr w' \<Longrightarrow> r \<noteq> p \<Longrightarrow> r \<noteq> q \<Longrightarrow> gf_exists G w' r = gf_exists G w r"
    and not_exists_removed: "gf_remove G w p = Inr w' \<Longrightarrow> \<not> gf_exists G w' p"
    and read_not_removed: "gf_remove G w p = Inr w' \<Longrightarrow> q \<noteq> p \<Longrightarrow> gf_read G w' q = gf_read G w q"
    and exists_not_removed: "gf_remove G w p = Inr w' \<Longrightarrow> q \<noteq> p \<Longrightarrow> gf_exists G w' q = gf_exists G w q"
begin

lemma text_written: "write_text G w p s = Inr w' \<Longrightarrow> read_text G w' p = Inr s"
  by (auto simp: write_text_def read_text_def read_written utf8.decode_encode split: if_splits)

lemma text_unwritten: "write_text G w p s = Inr w' \<Longrightarrow> q \<noteq> p \<Longrightarrow> read_text G w' q = read_text G w q"
  by (auto simp: write_text_def read_text_def read_unwritten split: if_splits)

lemma text_exists: "read_text G w p = Inr s \<Longrightarrow> gf_exists G w p"
  by (auto simp: read_text_def bindE_Inr_iff intro: read_exists)

lemma written_exists: "write_text G w p s = Inr w' \<Longrightarrow> gf_exists G w' p"
  by (rule text_exists, rule text_written)

lemma exists_write_other: "write_text G w p s = Inr w' \<Longrightarrow> q \<noteq> p \<Longrightarrow> gf_exists G w' q = gf_exists G w q"
  by (auto simp: write_text_def exists_unwritten split: if_splits)

end

section \<open>A file store as a dictionary\<close>

type_synonym dict_fs = "pystr \<Rightarrow> bytes option"

definition dict_gfile :: "dict_fs gfile" where
  "dict_gfile =
     \<lparr>gf_exists = (\<lambda>w p. w p \<noteq> None),
      gf_read = (\<lambda>w p. case w p of None \<Rightarrow> Inl NotFoundError | Some b \<Rightarrow> Inr b),
      gf_write = (\<lambda>w p b. Inr (w(p \<mapsto> b))),
      gf_makedirs = (\<lambda>w d. Inr w),
      gf_rename = (\<lambda>w p q. case w p of None \<Rightarrow> Inl NotFoundError
                     | Some b \<Rightarrow> Inr ((w(p := None))(q \<mapsto> b))),
      gf_remove = (\<lambda>w p. if w p = None then Inl NotFoundError else Inr (w(p := None)))\<rparr>"

text \<open>A file system without quota or permissions: writing always works, and so do renaming
  and removing a file that is there.\<close>

locale gfile_total = gfile_laws +
  assumes write_total: "\<exists>w'. gf_write G w p b = Inr w'"
    and rename_total: "gf_exists G w p \<Longrightarrow> \<exists>w'. gf_rename G w p q = Inr w'"
    and remove_total: "gf_exists G w p \<Longrightarrow> \<exists>w'. gf_remove G w p = Inr w'"
begin

lemma write_text_total: "encodable s \<Longrightarrow> \<exists>w'. write_text G w p s = Inr w'"
  by (simp add: write_text_def write_total)

end

interpretation dict_files: gfile_total dict_gfile
  by unfold_locales (auto simp: dict_gfile_def split: option.splits if_splits)

lemma dict_gfile_text:
  "read_text dict_gfile w p = (case w p of None \<Rightarrow> Inl NotFoundError | Some b \<Rightarrow> utf8_decode b)"
  "encodable s \<Longrightarrow> write_text dict_gfile w p s = Inr (w(p \<mapsto> utf8_encode s))"
  "gf_exists dict_gfile w p \<longleftrightarrow> w p \<noteq> None"
  by (simp_all add: read_text_def write_text_def dict_gfile_def split: option.splits)

lemma dict_read_encoded:
  "w p = Some (utf8_encode s) \<Longrightarrow> encodable s \<Longrightarrow> read_text dict_gfile w p = Inr s"
  by (simp add: dict_gfile_text utf8.decode_encode)

end
