(* ===== verification/Rouge.thy ===== *)
theory Rouge
  imports PyText
begin

text \<open>
  \<open>nmt/scripts/rouge.py\<close>: n-gram sets, the longest-common-subsequence table and its
  reconstruction, ROUGE-N, sentence-level and summary-level ROUGE-L and the averaged
  scores. The table is the dictionary the code fills in its two nested loops; \<open>lcs_spec\<close>
  is the recurrence it is compared with. \<open>numpy.mean\<close> is the parameter \<open>np_mean\<close> of
  \<open>rouge\<close>.
\<close>

section \<open>n-grams\<close>

definition get_ngrams :: "int \<Rightarrow> 'a list \<Rightarrow> 'a list set" where
  "get_ngrams n text =
     (let max_index_ngram_start = int (length text) - n
      in set (map (\<lambda>i. take (nat n) (drop i text)) [0..<nat (max_index_ngram_start + 1)]))"

definition split_into_words :: "pystr list \<Rightarrow> pystr list" where
  "split_into_words sentences = concat (map (split_on 32) sentences)"

definition get_word_ngrams :: "int \<Rightarrow> pystr list \<Rightarrow> pystr list set res" where
  "get_word_ngrams n sentences =
     bindE (assertE (length sentences > 0)) (\<lambda>_.
     bindE (assertE (n > 0)) (\<lambda>_.
     Inr (get_ngrams n (split_into_words sentences))))"

lemma finite_get_ngrams [simp]: "finite (get_ngrams n text)"
  by (simp add: get_ngrams_def)

lemma get_ngrams_iff:
  assumes "0 < n"
  shows "g \<in> get_ngrams n text \<longleftrightarrow> length g = nat n \<and> (\<exists>a b. text = a @ g @ b)"
proof
  assume "g \<in> get_ngrams n text"
  then obtain i where i: "i < nat (int (length text) - n + 1)" and g: "g = take (nat n) (drop i text)"
    by (auto simp: get_ngrams_def)
  have "text = take i text @ g @ drop (nat n) (drop i text)"
    unfolding g append_take_drop_id ..
  moreover have "length g = nat n" using i g assms by auto
  ultimately show "length g = nat n \<and> (\<exists>a b. text = a @ g @ b)" by metis
next
  assume "length g = nat n \<and> (\<exists>a b. text = a @ g @ b)"
  then obtain a b where "length g = nat n" "text = a @ g @ b" by blast
  then show "g \<in> get_ngrams n text"
    using assms by (auto simp: get_ngrams_def image_iff intro!: bexI[of _ "length a"])
qed

lemma get_ngrams_empty_iff: "0 < n \<Longrightarrow> get_ngrams n text = {} \<longleftrightarrow> int (length text) < n"
  by (auto simp: get_ngrams_def)

lemma split_into_words_nonempty: "sentences \<noteq> [] \<Longrightarrow> split_into_words sentences \<noteq> []"
  by (cases sentences) (auto simp: split_into_words_def)

lemma split_into_words_single [simp]: "split_into_words [s] = split_on 32 s"
  by (simp add: split_into_words_def)

section \<open>The longest common subsequence\<close>

type_synonym lcs_dict = "nat \<times> nat \<Rightarrow> nat option"

definition lcs_cell :: "'a list \<Rightarrow> 'a list \<Rightarrow> nat \<Rightarrow> lcs_dict \<Rightarrow> nat \<Rightarrow> lcs_dict res" where
  "lcs_cell x y i t j =
     (if i = 0 \<or> j = 0 then Inr (t((i, j) \<mapsto> 0))
      else if x ! (i - 1) = y ! (j - 1)
      then bindE (dict_get t (i - 1, j - 1)) (\<lambda>v. Inr (t((i, j) \<mapsto> v + 1)))
      else bindE (dict_get t (i - 1, j)) (\<lambda>v.
           bindE (dict_get t (i, j - 1)) (\<lambda>w. Inr (t((i, j) \<mapsto> max v w)))))"

definition lcs :: "'a list \<Rightarrow> 'a list \<Rightarrow> lcs_dict res" where
  "lcs x y =
     (let n = length x; m = length y
      in foldE (\<lambda>t i. foldE (lcs_cell x y i) t [0..<m + 1]) Map.empty [0..<n + 1])"

definition len_lcs :: "'a list \<Rightarrow> 'a list \<Rightarrow> nat res" where
  "len_lcs x y = bindE (lcs x y) (\<lambda>table. dict_get table (length x, length y))"

fun recon :: "'a list \<Rightarrow> 'a list \<Rightarrow> lcs_dict \<Rightarrow> nat \<Rightarrow> nat \<Rightarrow> ('a \<times> nat) list res" where
  "recon x y table i j =
     (if i = 0 \<or> j = 0 then Inr []
      else if x ! (i - 1) = y ! (j - 1)
      then bindE (recon x y table (i - 1) (j - 1)) (\<lambda>r. Inr (r @ [(x ! (i - 1), i)]))
      else bindE (dict_get table (i - 1, j)) (\<lambda>v.
           bindE (dict_get table (i, j - 1)) (\<lambda>w.
           if v > w then recon x y table (i - 1) j else recon x y table i (j - 1))))"

declare recon.simps [simp del]

definition recon_lcs :: "'a list \<Rightarrow> 'a list \<Rightarrow> 'a list res" where
  "recon_lcs x y =
     bindE (lcs x y) (\<lambda>table.
     bindE (recon x y table (length x) (length y)) (\<lambda>r. Inr (map fst r)))"

text \<open>The recurrence, and the table as its memo.\<close>

fun lcs_spec :: "'a list \<Rightarrow> 'a list \<Rightarrow> nat \<Rightarrow> nat \<Rightarrow> nat" where
  "lcs_spec x y 0 j = 0"
| "lcs_spec x y (Suc i) 0 = 0"
| "lcs_spec x y (Suc i) (Suc j) =
     (if x ! i = y ! j then lcs_spec x y i j + 1
      else max (lcs_spec x y i (Suc j)) (lcs_spec x y (Suc i) j))"

lemma lcs_spec_0 [simp]: "lcs_spec x y i 0 = 0"
  by (cases i) simp_all

definition memo :: "'a list \<Rightarrow> 'a list \<Rightarrow> (nat \<times> nat) set \<Rightarrow> lcs_dict \<Rightarrow> bool" where
  "memo x y D t \<longleftrightarrow> (\<forall>i j. t (i, j) = (if (i, j) \<in> D then Some (lcs_spec x y i j) else None))"

lemma memo_get: "memo x y D t \<Longrightarrow> (i, j) \<in> D \<Longrightarrow> dict_get t (i, j) = Inr (lcs_spec x y i j)"
  by (simp add: memo_def)

lemma lcs_cell_memo:
  assumes "memo x y D t"
    and "0 < i \<Longrightarrow> 0 < j \<Longrightarrow> (i - 1, j - 1) \<in> D \<and> (i - 1, j) \<in> D \<and> (i, j - 1) \<in> D"
  shows "\<exists>t'. lcs_cell x y i t j = Inr t' \<and> memo x y (insert (i, j) D) t'"
proof (cases "i = 0 \<or> j = 0")
  case True
  with assms(1) show ?thesis by (auto simp: lcs_cell_def memo_def)
next
  case False
  then obtain k l where "i = Suc k" "j = Suc l" by (cases i; cases j) auto
  moreover from this assms(2) have "(k, l) \<in> D" "(k, Suc l) \<in> D" "(Suc k, l) \<in> D" by auto
  ultimately show ?thesis
    using assms(1) by (auto simp: lcs_cell_def memo_get) (auto simp: memo_def)
qed

lemma lcs_row_memo:
  assumes "memo x y ({0..<i} \<times> {0..m}) t" and "k \<le> m + 1"
  shows "\<exists>t'. foldE (lcs_cell x y i) t [0..<k] = Inr t'
           \<and> memo x y ({0..<i} \<times> {0..m} \<union> {i} \<times> {0..<k}) t'"
  using assms(2)
proof (induction k)
  case (Suc k)
  then obtain t' where t': "foldE (lcs_cell x y i) t [0..<k] = Inr t'"
    "memo x y ({0..<i} \<times> {0..m} \<union> {i} \<times> {0..<k}) t'" by auto
  have "insert (i, k) ({0..<i} \<times> {0..m} \<union> {i} \<times> {0..<k}) = {0..<i} \<times> {0..m} \<union> {i} \<times> {0..<Suc k}"
    by auto
  moreover have "\<exists>t''. lcs_cell x y i t' k = Inr t''
      \<and> memo x y (insert (i, k) ({0..<i} \<times> {0..m} \<union> {i} \<times> {0..<k})) t''"
    by (rule lcs_cell_memo[OF t'(2)]) (use Suc.prems in auto)
  ultimately show ?case
    using t'(1) by (simp add: foldE_append)
qed (use assms(1) in simp)

lemma lcs_rows_memo:
  "\<exists>t. foldE (\<lambda>t i. foldE (lcs_cell x y i) t [0..<m + 1]) Map.empty [0..<k] = Inr t
     \<and> memo x y ({0..<k} \<times> {0..m}) t"
proof (induction k)
  case 0
  show ?case by (simp add: memo_def)
next
  case (Suc k)
  then obtain t where t: "foldE (\<lambda>t i. foldE (lcs_cell x y i) t [0..<m + 1]) Map.empty [0..<k] = Inr t"
    "memo x y ({0..<k} \<times> {0..m}) t" by blast
  from lcs_row_memo[OF t(2) order_refl] obtain t' where
    t': "foldE (lcs_cell x y k) t [0..<m + 1] = Inr t'"
    "memo x y ({0..<k} \<times> {0..m} \<union> {k} \<times> {0..<m + 1}) t'" by blast
  have "{0..<k} \<times> {0..m} \<union> {k} \<times> {0..<m + 1} = {0..<Suc k} \<times> {0..m}" by auto
  with t(1) t' show ?case by (auto simp: foldE_append)
qed

lemma lcs_memo:
  "\<exists>t. lcs x y = Inr t \<and> memo x y ({0..length x} \<times> {0..length y}) t"
  using lcs_rows_memo[of x y "length y" "length x + 1"]
  by (simp add: lcs_def Let_def atLeastLessThanSuc_atLeastAtMost del: upt_Suc)

lemma len_lcs_spec: "len_lcs x y = Inr (lcs_spec x y (length x) (length y))"
  using lcs_memo[of x y] by (auto simp: len_lcs_def memo_get)

text \<open>Upper bound: no common subsequence of two prefixes is longer than the recurrence.\<close>

lemma subseq_snocD:
  assumes "subseq s (xs @ [a])"
  shows "subseq s xs \<or> (\<exists>s'. s = s' @ [a] \<and> subseq s' xs)"
proof -
  from assms obtain s1 s2 where "s = s1 @ s2" "subseq s1 xs" "subseq s2 [a]"
    by (auto simp: subseq_append_iff)
  then show ?thesis
  proof (cases s2)
    case Nil
    with \<open>s = s1 @ s2\<close> \<open>subseq s1 xs\<close> show ?thesis by simp
  next
    case (Cons b t)
    with \<open>subseq s2 [a]\<close> have "s2 = [a]" by (simp split: if_splits)
    with \<open>s = s1 @ s2\<close> \<open>subseq s1 xs\<close> show ?thesis by blast
  qed
qed

lemma subseq_butlast: "subseq s (xs @ [a]) \<Longrightarrow> subseq (butlast s) xs"
proof -
  assume "subseq s (xs @ [a])"
  then have "subseq s xs \<or> (\<exists>s'. s = s' @ [a] \<and> subseq s' xs)" by (rule subseq_snocD)
  then show ?thesis
  proof (elim disjE exE conjE)
    assume "subseq s xs"
    moreover have "subseq (butlast s) s" by (cases s rule: rev_cases) (auto intro: subseq_rev_drop_many)
    ultimately show ?thesis by (meson subseq_order.trans)
  qed simp
qed

lemma lcs_spec_upper:
  "i \<le> length x \<Longrightarrow> j \<le> length y \<Longrightarrow> subseq s (take i x) \<Longrightarrow> subseq s (take j y) \<Longrightarrow>
   length s \<le> lcs_spec x y i j"
proof (induction x y i j arbitrary: s rule: lcs_spec.induct)
  case (3 x y i j)
  have tk: "take (Suc i) x = take i x @ [x ! i]" "take (Suc j) y = take j y @ [y ! j]"
    using "3.prems"(1,2) by (simp_all add: take_Suc_conv_app_nth)
  note sub = "3.prems"(3,4)[unfolded tk]
  show ?case
  proof (cases "x ! i = y ! j")
    case True
    have "length (butlast s) \<le> lcs_spec x y i j"
      using "3.IH"(1)[OF True, of "butlast s"] "3.prems"(1,2) sub[THEN subseq_butlast] by simp
    with True show ?thesis by simp
  next
    case False
    then have "subseq s (take i x) \<or> subseq s (take j y)"
      using subseq_snocD[OF sub(1)] subseq_snocD[OF sub(2)] by auto
    then show ?thesis
      using "3.IH"(2,3)[OF False, of s] "3.prems" False by auto
  qed
qed auto

text \<open>The reconstruction is a common subsequence and reaches the bound.\<close>

lemma recon_spec:
  "memo x y ({0..length x} \<times> {0..length y}) t \<Longrightarrow> i \<le> length x \<Longrightarrow> j \<le> length y \<Longrightarrow>
    \<exists>r. recon x y t i j = Inr r \<and> length r = lcs_spec x y i j
      \<and> subseq (map fst r) (take i x) \<and> subseq (map fst r) (take j y)"
proof (induction x y i j rule: lcs_spec.induct)
  case (3 x y i j)
  have tk: "take (Suc i) x = take i x @ [x ! i]" "take (Suc j) y = take j y @ [y ! j]"
    using "3.prems"(2,3) by (simp_all add: take_Suc_conv_app_nth)
  show ?case
  proof (cases "x ! i = y ! j")
    case True
    from "3.IH"(1)[OF True] "3.prems" obtain r where
      "recon x y t i j = Inr r" "length r = lcs_spec x y i j"
      "subseq (map fst r) (take i x)" "subseq (map fst r) (take j y)" by auto
    with True show ?thesis
      by (subst recon.simps) (auto simp: tk intro: list_emb_append_mono)
  next
    case False
    have get: "dict_get t (i, Suc j) = Inr (lcs_spec x y i (Suc j))"
      "dict_get t (Suc i, j) = Inr (lcs_spec x y (Suc i) j)"
      using "3.prems" by (auto intro!: memo_get[OF "3.prems"(1)] simp del: dict_get_Inr)
    show ?thesis
    proof (cases "lcs_spec x y i (Suc j) > lcs_spec x y (Suc i) j")
      case gt: True
      from "3.IH"(2)[OF False] "3.prems" obtain r where
        "recon x y t i (Suc j) = Inr r" "length r = lcs_spec x y i (Suc j)"
        "subseq (map fst r) (take i x)" "subseq (map fst r) (take (Suc j) y)" by auto
      with False gt get show ?thesis
        by (subst recon.simps) (auto simp: tk(1) dict_get_def)
    next
      case le: False
      from "3.IH"(3)[OF False] "3.prems" obtain r where
        "recon x y t (Suc i) j = Inr r" "length r = lcs_spec x y (Suc i) j"
        "subseq (map fst r) (take (Suc i) x)" "subseq (map fst r) (take j y)" by auto
      with False le get show ?thesis
        by (subst recon.simps) (auto simp: tk(2) dict_get_def)
    qed
  qed
qed (auto simp: recon.simps)

lemma recon_lcs_spec:
  "\<exists>s. recon_lcs x y = Inr s \<and> length s = lcs_spec x y (length x) (length y)
     \<and> subseq s x \<and> subseq s y"
proof -
  obtain t where t: "lcs x y = Inr t" "memo x y ({0..length x} \<times> {0..length y}) t"
    using lcs_memo by blast
  with recon_spec[OF t(2) order_refl order_refl] show ?thesis
    by (auto simp: recon_lcs_def)
qed

lemma lcs_spec_le: "lcs_spec x y i j \<le> i \<and> lcs_spec x y i j \<le> j"
  by (induction x y i j rule: lcs_spec.induct) auto

lemma subseq_Cons_set: "subseq (a # s) xs \<Longrightarrow> a \<in> set xs"
  by (auto dest: list_emb_ConsD)

lemma lcs_spec_pos_iff: "0 < lcs_spec x y (length x) (length y) \<longleftrightarrow> set x \<inter> set y \<noteq> {}"
proof
  assume pos: "0 < lcs_spec x y (length x) (length y)"
  obtain s where "length s = lcs_spec x y (length x) (length y)" "subseq s x" "subseq s y"
    using recon_lcs_spec by blast
  with pos show "set x \<inter> set y \<noteq> {}"
    by (cases s) (auto dest!: subseq_Cons_set)
next
  assume "set x \<inter> set y \<noteq> {}"
  then obtain w where "subseq [w] x" "subseq [w] y"
    by (auto simp: subseq_singleton_left)
  with lcs_spec_upper[of "length x" x "length y" y "[w]"]
  show "0 < lcs_spec x y (length x) (length y)" by auto
qed

section \<open>ROUGE-N\<close>

definition rouge_n :: "pystr list \<Rightarrow> pystr list \<Rightarrow> int \<Rightarrow> (real \<times> real \<times> real) res" where
  "rouge_n evaluated_sentences reference_sentences n =
     bindE (raise_if (length evaluated_sentences \<le> 0 \<or> length reference_sentences \<le> 0)
              ValueError) (\<lambda>_.
     bindE (get_word_ngrams n evaluated_sentences) (\<lambda>evaluated_ngrams.
     bindE (get_word_ngrams n reference_sentences) (\<lambda>reference_ngrams.
     let reference_count = real (card reference_ngrams);
         evaluated_count = real (card evaluated_ngrams);
         overlapping_count = real (card (evaluated_ngrams \<inter> reference_ngrams))
     in bindE (if evaluated_count = 0 then Inr 0 else py_div overlapping_count evaluated_count)
          (\<lambda>precision.
        bindE (if reference_count = 0 then Inr 0 else py_div overlapping_count reference_count)
          (\<lambda>recall.
        bindE (py_div (precision * recall) (precision + recall + 1 / 10 ^ 8)) (\<lambda>q.
        let f1_score = 2 * q in Inr (f1_score, precision, recall)))))))"

section \<open>ROUGE-L\<close>

definition f_p_r_lcs :: "real \<Rightarrow> real \<Rightarrow> real \<Rightarrow> (real \<times> real \<times> real) res" where
  "f_p_r_lcs llcs m n =
     bindE (py_div llcs m) (\<lambda>r_lcs.
     bindE (py_div llcs n) (\<lambda>p_lcs.
     bindE (py_div p_lcs (r_lcs + 1 / 10 ^ 12)) (\<lambda>beta.
     let num = (1 + beta ^ 2) * r_lcs * p_lcs;
         denom = r_lcs + beta ^ 2 * p_lcs
     in bindE (py_div num (denom + 1 / 10 ^ 12)) (\<lambda>f_lcs.
        Inr (f_lcs, p_lcs, r_lcs)))))"

definition rouge_l_sentence_level ::
    "pystr list \<Rightarrow> pystr list \<Rightarrow> (real \<times> real \<times> real) res" where
  "rouge_l_sentence_level evaluated_sentences reference_sentences =
     bindE (raise_if (length evaluated_sentences \<le> 0 \<or> length reference_sentences \<le> 0)
              ValueError) (\<lambda>_.
     let reference_words = split_into_words reference_sentences;
         evaluated_words = split_into_words evaluated_sentences;
         m = real (length reference_words);
         n = real (length evaluated_words)
     in bindE (len_lcs evaluated_words reference_words) (\<lambda>lcs.
        f_p_r_lcs (real lcs) m n))"

definition union_lcs_step :: "pystr list \<Rightarrow> pystr set \<times> nat \<Rightarrow> pystr \<Rightarrow> (pystr set \<times> nat) res" where
  "union_lcs_step reference_words acc eval_s =
     (let (lcs_union, combined_lcs_length) = acc; evaluated_words = split_into_words [eval_s]
      in bindE (recon_lcs reference_words evaluated_words) (\<lambda>r.
         let lcs = set r in Inr (lcs_union \<union> lcs, combined_lcs_length + card lcs)))"

definition union_lcs :: "pystr list \<Rightarrow> pystr \<Rightarrow> real res" where
  "union_lcs evaluated_sentences reference_sentence =
     bindE (raise_if (length evaluated_sentences \<le> 0) ValueError) (\<lambda>_.
     let reference_words = split_into_words [reference_sentence]
     in bindE (foldE (union_lcs_step reference_words) ({}, 0) evaluated_sentences)
        (\<lambda>(lcs_union, combined_lcs_length).
           py_div (real (card lcs_union)) (real combined_lcs_length)))"

definition rouge_l_summary_level ::
    "pystr list \<Rightarrow> pystr list \<Rightarrow> (real \<times> real \<times> real) res" where
  "rouge_l_summary_level evaluated_sentences reference_sentences =
     bindE (raise_if (length evaluated_sentences \<le> 0 \<or> length reference_sentences \<le> 0)
              ValueError) (\<lambda>_.
     let m = real (length (split_into_words reference_sentences));
         n = real (length (split_into_words evaluated_sentences))
     in bindE (foldE (\<lambda>acc ref_s. bindE (union_lcs evaluated_sentences ref_s) (\<lambda>v. Inr (acc + v)))
                 0 reference_sentences)
          (\<lambda>union_lcs_sum_across_all_references.
             f_p_r_lcs union_lcs_sum_across_all_references m n))"

section \<open>The averaged scores\<close>

record rouge_scores =
  rouge_1_f_score :: real
  rouge_1_r_score :: real
  rouge_1_p_score :: real
  rouge_2_f_score :: real
  rouge_2_r_score :: real
  rouge_2_p_score :: real
  rouge_l_f_score :: real
  rouge_l_r_score :: real
  rouge_l_p_score :: real

text \<open>
  \<open>a, b, c = map(np.mean, zip(*rows))\<close>: with no rows there is nothing to unpack, which is
  a \<open>ValueError\<close>.
\<close>

definition mean_columns ::
    "(real list \<Rightarrow> real) \<Rightarrow> (real \<times> real \<times> real) list \<Rightarrow> (real \<times> real \<times> real) res" where
  "mean_columns np_mean rows =
     (if rows = [] then Inl ValueError
      else Inr (np_mean (map fst rows), np_mean (map (fst \<circ> snd) rows),
                np_mean (map (snd \<circ> snd) rows)))"

definition rouge ::
    "(real list \<Rightarrow> real) \<Rightarrow> pystr list \<Rightarrow> pystr list \<Rightarrow> rouge_scores res" where
  "rouge np_mean hypotheses references =
     bindE (mapE (\<lambda>(hyp, ref). rouge_n [hyp] [ref] 1) (zip hypotheses references)) (\<lambda>rouge_1.
     bindE (mean_columns np_mean rouge_1) (\<lambda>(rouge_1_f, rouge_1_p, rouge_1_r).
     bindE (mapE (\<lambda>(hyp, ref). rouge_n [hyp] [ref] 2) (zip hypotheses references)) (\<lambda>rouge_2.
     bindE (mean_columns np_mean rouge_2) (\<lambda>(rouge_2_f, rouge_2_p, rouge_2_r).
     bindE (mapE (\<lambda>(hyp, ref). rouge_l_sentence_level [hyp] [ref]) (zip hypotheses references))
       (\<lambda>rouge_l.
     bindE (mean_columns np_mean rouge_l) (\<lambda>(rouge_l_f, rouge_l_p, rouge_l_r).
     Inr \<lparr>rouge_1_f_score = rouge_1_f, rouge_1_r_score = rouge_1_r, rouge_1_p_score = rouge_1_p,
          rouge_2_f_score = rouge_2_f, rouge_2_r_score = rouge_2_r, rouge_2_p_score = rouge_2_p,
          rouge_l_f_score = rouge_l_f, rouge_l_r_score = rouge_l_r,
          rouge_l_p_score = rouge_l_p\<rparr>))))))"

section \<open>Facts\<close>

lemma f_score_bounds:
  fixes p r e :: real
  assumes "0 \<le> p" "p \<le> 1" "0 \<le> r" "r \<le> 1" "0 < e"
  shows "0 \<le> 2 * (p * r / (p + r + e)) \<and> 2 * (p * r / (p + r + e)) < 1"
proof
  have pos: "0 < p + r + e" using assms by simp
  with assms show "0 \<le> 2 * (p * r / (p + r + e))" by simp
  have "p * r \<le> p" "p * r \<le> r"
    using assms mult_left_le[of r p] mult_left_le_one_le[of r p] by (auto simp: mult.commute)
  with assms have "2 * (p * r) < p + r + e" by linarith
  with pos show "2 * (p * r / (p + r + e)) < 1" by (simp add: divide_less_eq)
qed

lemma card_quotient_bounds:
  "finite B \<Longrightarrow> A \<subseteq> B \<Longrightarrow> 0 \<le> real (card A) / real (card B) \<and> real (card A) / real (card B) \<le> 1"
  by (intro unit_interval_div) (auto intro: card_mono)

definition ngram_precision :: "'a list set \<Rightarrow> 'a list set \<Rightarrow> real" where
  "ngram_precision E R = (if card E = 0 then 0 else real (card (E \<inter> R)) / real (card E))"

lemma ngram_precision_bounds: "finite E \<Longrightarrow> 0 \<le> ngram_precision E R \<and> ngram_precision E R \<le> 1"
  using card_quotient_bounds[of E "E \<inter> R"] by (auto simp: ngram_precision_def)

lemma rouge_n_eq:
  assumes "es \<noteq> []" "rs \<noteq> []" "0 < n"
  defines "E \<equiv> get_ngrams n (split_into_words es)" and "R \<equiv> get_ngrams n (split_into_words rs)"
  defines "p \<equiv> ngram_precision E R" and "r \<equiv> ngram_precision R E"
  shows "rouge_n es rs n = Inr (2 * (p * r / (p + r + 1 / 10 ^ 8)), p, r)"
proof -
  have fin: "finite E" "finite R" by (simp_all add: E_def R_def)
  have b: "0 \<le> p" "0 \<le> r"
    using ngram_precision_bounds[OF fin(1)] ngram_precision_bounds[OF fin(2)]
    by (simp_all add: p_def r_def)
  have "(if real (card E) = 0 then Inr 0 else py_div (real (card (E \<inter> R))) (real (card E))) = Inr p"
    "(if real (card R) = 0 then Inr 0 else py_div (real (card (E \<inter> R))) (real (card R))) = Inr r"
    by (auto simp: p_def r_def ngram_precision_def Int_commute)
  moreover have "py_div (p * r) (p + r + 1 / 10 ^ 8) = Inr (p * r / (p + r + 1 / 10 ^ 8))"
    by (rule py_div_simps) (use b in \<open>simp add: add_nonneg_pos less_imp_neq[symmetric]\<close>)
  ultimately show ?thesis
    using assms(1-3) unfolding rouge_n_def get_word_ngrams_def E_def[symmetric] R_def[symmetric]
    by (simp add: Let_def E_def[symmetric] R_def[symmetric])
qed

lemma f_lcs_bounds:
  fixes p r b e :: real
  assumes "0 \<le> p" "p \<le> 1" "0 \<le> r" "r \<le> 1" "0 < e"
  shows "0 \<le> (1 + b ^ 2) * r * p / (r + b ^ 2 * p + e)
       \<and> (1 + b ^ 2) * r * p / (r + b ^ 2 * p + e) < 1"
proof
  have pos: "0 < r + b ^ 2 * p + e" using assms by (simp add: add_nonneg_pos)
  with assms show "0 \<le> (1 + b ^ 2) * r * p / (r + b ^ 2 * p + e)" by simp
  have "r * p \<le> r" "r * p \<le> p"
    using assms mult_left_le[of p r] mult_left_le_one_le[of p r] by (auto simp: mult.commute)
  then have "r * p \<le> r" "b ^ 2 * (r * p) \<le> b ^ 2 * p" by (auto intro: mult_left_mono)
  then have "(1 + b ^ 2) * r * p < r + b ^ 2 * p + e"
    using assms by (simp add: algebra_simps)
  with pos show "(1 + b ^ 2) * r * p / (r + b ^ 2 * p + e) < 1" by (simp add: divide_less_eq)
qed

lemma lcs_denominators_pos:
  fixes x y b e :: real
  assumes "0 \<le> x" "0 \<le> y" "0 < e"
  shows "0 < x + e" "0 < x + b ^ 2 * y + e"
  using assms by (simp_all add: add_nonneg_pos)

lemma f_p_r_lcs_eq:
  assumes "0 \<le> l" "0 < m" "0 < n"
  shows "\<exists>b. f_p_r_lcs l m n =
    Inr ((1 + b ^ 2) * (l / m) * (l / n) / (l / m + b ^ 2 * (l / n) + 1 / 10 ^ 12), l / n, l / m)"
proof -
  let ?b = "l / n / (l / m + 1 / 10 ^ 12)"
  have "0 \<le> l / m" "0 \<le> l / n" using assms by simp_all
  from lcs_denominators_pos(1)[OF this, of "1 / 10 ^ 12"]
    lcs_denominators_pos(2)[OF this, of "1 / 10 ^ 12" ?b]
  have "0 \<noteq> l / m + 1 / 10 ^ 12" "0 \<noteq> l / m + ?b ^ 2 * (l / n) + 1 / 10 ^ 12" by auto
  moreover have "m \<noteq> 0" "n \<noteq> 0" using assms by auto
  ultimately have "f_p_r_lcs l m n = Inr ((1 + ?b ^ 2) * (l / m) * (l / n)
      / (l / m + ?b ^ 2 * (l / n) + 1 / 10 ^ 12), l / n, l / m)"
    unfolding f_p_r_lcs_def Let_def
    by (simp only: py_div_simps not_sym bindE_simps not_False_eq_True)
  then show ?thesis by (rule exI)
qed

lemma rouge_l_sentence_eq:
  assumes "es \<noteq> []" "rs \<noteq> []"
  defines "k \<equiv> lcs_spec (split_into_words es) (split_into_words rs)
                  (length (split_into_words es)) (length (split_into_words rs))"
  defines "p \<equiv> real k / real (length (split_into_words es))"
    and "r \<equiv> real k / real (length (split_into_words rs))"
  shows "\<exists>f. rouge_l_sentence_level es rs = Inr (f, p, r)
    \<and> 0 \<le> f \<and> f < 1 \<and> 0 \<le> p \<and> p \<le> 1 \<and> 0 \<le> r \<and> r \<le> 1"
proof -
  let ?e = "split_into_words es" and ?r = "split_into_words rs"
  have ne: "0 < length ?e" "0 < length ?r"
    using assms(1,2) split_into_words_nonempty by auto
  have "k \<le> length ?e \<and> k \<le> length ?r" unfolding k_def by (rule lcs_spec_le)
  then have b: "0 \<le> p" "p \<le> 1" "0 \<le> r" "r \<le> 1"
    using ne by (auto simp: p_def r_def divide_le_eq_1)
  obtain c where "f_p_r_lcs (real k) (real (length ?r)) (real (length ?e)) =
      Inr ((1 + c ^ 2) * r * p / (r + c ^ 2 * p + 1 / 10 ^ 12), p, r)"
    using f_p_r_lcs_eq[of "real k" "real (length ?r)" "real (length ?e)"] ne
    unfolding p_def r_def by auto
  moreover note f_lcs_bounds[OF b, of "1 / 10 ^ 12" c]
  ultimately show ?thesis
    using assms(1,2) b
    by (auto simp: rouge_l_sentence_level_def Let_def len_lcs_spec k_def[symmetric])
qed

text \<open>The loop of \<open>union_lcs\<close> never raises; its counter stays 0 only while nothing is shared.\<close>

definition shares_word :: "pystr \<Rightarrow> pystr \<Rightarrow> bool" where
  "shares_word a b \<longleftrightarrow> set (split_on 32 a) \<inter> set (split_on 32 b) \<noteq> {}"

lemma recon_lcs_card:
  "\<exists>s. recon_lcs (split_on 32 r) (split_on 32 e) = Inr s \<and> (card (set s) = 0 \<longleftrightarrow> \<not> shares_word r e)"
proof -
  obtain s where s: "recon_lcs (split_on 32 r) (split_on 32 e) = Inr s"
    "length s = lcs_spec (split_on 32 r) (split_on 32 e) (length (split_on 32 r)) (length (split_on 32 e))"
    using recon_lcs_spec by blast
  have "card (set s) = 0 \<longleftrightarrow> length s = 0" by simp
  also have "\<dots> \<longleftrightarrow> \<not> shares_word r e"
    using lcs_spec_pos_iff[of "split_on 32 r" "split_on 32 e"] s(2) by (auto simp: shares_word_def)
  finally show ?thesis using s(1) by (intro exI[of _ s] conjI)
qed

lemma union_lcs_loop:
  "\<exists>U c'. foldE (union_lcs_step (split_on 32 r)) (L, c) es = Inr (U, c')
     \<and> (c' = 0 \<longleftrightarrow> c = 0 \<and> (\<forall>e \<in> set es. \<not> shares_word r e)) \<and> (card L \<le> c \<longrightarrow> card U \<le> c')"
proof (induction es arbitrary: L c)
  case (Cons e es)
  obtain s where s: "recon_lcs (split_on 32 r) (split_on 32 e) = Inr s"
    "card (set s) = 0 \<longleftrightarrow> \<not> shares_word r e" using recon_lcs_card[of r e] by (elim exE conjE)
  then have st: "union_lcs_step (split_on 32 r) (L, c) e = Inr (L \<union> set s, c + card (set s))"
    by (simp add: union_lcs_step_def Let_def)
  obtain U c' where U: "foldE (union_lcs_step (split_on 32 r)) (L \<union> set s, c + card (set s)) es = Inr (U, c')"
    "c' = 0 \<longleftrightarrow> c + card (set s) = 0 \<and> (\<forall>e \<in> set es. \<not> shares_word r e)"
    "card (L \<union> set s) \<le> c + card (set s) \<longrightarrow> card U \<le> c'"
    using Cons.IH[of "L \<union> set s" "c + card (set s)"] by (elim exE conjE)
  have "card (L \<union> set s) \<le> card L + card (set s)" by (rule card_Un_le)
  then have "card L \<le> c \<longrightarrow> card U \<le> c'" using U(3) by linarith
  moreover have "c' = 0 \<longleftrightarrow> c = 0 \<and> (\<forall>e' \<in> set (e # es). \<not> shares_word r e')"
    using U(2) s(2) by auto
  ultimately show ?case using st U(1) by simp
qed simp

lemma union_lcs_cases:
  assumes "es \<noteq> []"
  shows "if \<forall>e \<in> set es. \<not> shares_word r e then union_lcs es r = Inl ZeroDivisionError
         else \<exists>v. union_lcs es r = Inr v \<and> 0 \<le> v \<and> v \<le> 1"
proof -
  obtain U c where U: "foldE (union_lcs_step (split_on 32 r)) ({}, 0) es = Inr (U, c)"
    "c = 0 \<longleftrightarrow> (\<forall>e \<in> set es. \<not> shares_word r e)" "card U \<le> c"
    using union_lcs_loop[of r "{}" 0 es] by auto
  have "union_lcs es r = py_div (real (card U)) (real c)"
    using assms U(1) by (simp add: union_lcs_def)
  then show ?thesis
    using U(2,3) unit_interval_div[of "real (card U)" "real c"] by (cases "c = 0") auto
qed

lemma union_lcs_sum:
  "es \<noteq> [] \<Longrightarrow> 0 \<le> a \<Longrightarrow>
   if \<exists>r \<in> set rs. \<forall>e \<in> set es. \<not> shares_word r e
   then foldE (\<lambda>acc r. bindE (union_lcs es r) (\<lambda>v. Inr (acc + v))) a rs = Inl ZeroDivisionError
   else \<exists>t. foldE (\<lambda>acc r. bindE (union_lcs es r) (\<lambda>v. Inr (acc + v))) a rs = Inr t \<and> 0 \<le> t"
proof (induction rs arbitrary: a)
  case (Cons r rs)
  note c = union_lcs_cases[OF Cons.prems(1), of r]
  show ?case
  proof (cases "\<forall>e \<in> set es. \<not> shares_word r e")
    case True
    with c show ?thesis by auto
  next
    case False
    with c obtain v where v: "union_lcs es r = Inr v" "0 \<le> v" by auto
    then have "foldE (\<lambda>acc r. bindE (union_lcs es r) (\<lambda>v. Inr (acc + v))) a (r # rs)
        = foldE (\<lambda>acc r. bindE (union_lcs es r) (\<lambda>v. Inr (acc + v))) (a + v) rs" by simp
    moreover have "(\<exists>r' \<in> set (r # rs). \<forall>e \<in> set es. \<not> shares_word r' e)
        \<longleftrightarrow> (\<exists>r' \<in> set rs. \<forall>e \<in> set es. \<not> shares_word r' e)" using False by auto
    ultimately show ?thesis using Cons.IH[of "a + v"] Cons.prems v(2) by simp
  qed
qed simp

lemma mean_bounds:
  fixes xs :: "real list"
  assumes "\<forall>x \<in> set xs. 0 \<le> x \<and> x \<le> 1"
  shows "0 \<le> sum_list xs / real (length xs) \<and> sum_list xs / real (length xs) \<le> 1"
proof -
  have "0 \<le> sum_list xs" using assms by (intro sum_list_nonneg) auto
  moreover have "sum_list xs \<le> real (length xs)" using assms by (induction xs) auto
  ultimately show ?thesis by (intro unit_interval_div)
qed

definition unit_score :: "real \<times> real \<times> real \<Rightarrow> bool" where
  "unit_score t \<longleftrightarrow> (case t of (f, p, r) \<Rightarrow>
     0 \<le> f \<and> f \<le> 1 \<and> 0 \<le> p \<and> p \<le> 1 \<and> 0 \<le> r \<and> r \<le> 1)"

lemma mean_columns_unit:
  assumes mean: "\<And>xs. xs \<noteq> [] \<Longrightarrow> np_mean xs = sum_list xs / real (length xs)"
    and "rows \<noteq> []" "\<forall>t \<in> set rows. unit_score t"
  shows "\<exists>t. mean_columns np_mean rows = Inr t \<and> unit_score t"
proof -
  have "\<forall>x \<in> set (map g rows). 0 \<le> x \<and> x \<le> 1"
    if "g = fst \<or> g = fst \<circ> snd \<or> g = snd \<circ> snd" for g
    using that assms(3) by (auto simp: unit_score_def)
  then have "0 \<le> np_mean (map g rows) \<and> np_mean (map g rows) \<le> 1"
    if "g = fst \<or> g = fst \<circ> snd \<or> g = snd \<circ> snd" for g
    using that assms(2) mean[of "map g rows"] mean_bounds[of "map g rows"] by simp
  with assms(2) show ?thesis by (simp add: mean_columns_def unit_score_def)
qed

lemma rouge_rows:
  assumes "\<And>h r. \<exists>t. f h r = Inr t \<and> unit_score t"
  shows "\<exists>rows. mapE (\<lambda>(h, r). f h r) hrs = Inr rows \<and> length rows = length hrs
     \<and> (\<forall>t \<in> set rows. unit_score t)"
proof (induction hrs)
  case (Cons hr hrs)
  obtain h r where "hr = (h, r)" by (cases hr)
  with Cons assms[of h r] show ?case by auto
qed simp

lemma rouge_n_unit: "0 < n \<Longrightarrow> \<exists>t. rouge_n [h] [r] n = Inr t \<and> unit_score t"
proof -
  assume "0 < n"
  let ?E = "get_ngrams n (split_into_words [h])" and ?R = "get_ngrams n (split_into_words [r])"
  have b: "0 \<le> ngram_precision ?E ?R" "ngram_precision ?E ?R \<le> 1"
    "0 \<le> ngram_precision ?R ?E" "ngram_precision ?R ?E \<le> 1" by (simp_all add: ngram_precision_bounds)
  then show ?thesis
    using \<open>0 < n\<close> rouge_n_eq[of "[h]" "[r]" n] f_score_bounds[OF b, of "1 / 10 ^ 8"]
    by (simp add: unit_score_def)
qed

lemma rouge_l_unit: "\<exists>t. rouge_l_sentence_level [h] [r] = Inr t \<and> unit_score t"
  using rouge_l_sentence_eq[of "[h]" "[r]"] by (fastforce simp: unit_score_def)

section \<open>Properties\<close>

text \<open>
  C14. \<open>_len_lcs\<close> never raises, and returns the length of a longest common subsequence:
  the largest length of a list that is a subsequence of both arguments.
\<close>

theorem len_lcs_is_longest:
  "len_lcs x y = Inr (Max {length s | s. subseq s x \<and> subseq s y})"
proof -
  let ?k = "lcs_spec x y (length x) (length y)"
  have up: "length s \<le> ?k" if "subseq s x" "subseq s y" for s
    using lcs_spec_upper[of "length x" x "length y" y s] that by simp
  have "Max {length s | s. subseq s x \<and> subseq s y} = ?k"
  proof (rule Max_eqI)
    show "finite {length s | s. subseq s x \<and> subseq s y}"
      by (rule finite_subset[of _ "{..?k}"]) (auto intro: up)
    show "?k \<in> {length s | s. subseq s x \<and> subseq s y}"
      using recon_lcs_spec[of x y] by (metis (mono_tags, lifting) mem_Collect_eq)
  qed (auto intro: up)
  then show ?thesis by (simp add: len_lcs_spec)
qed

text \<open>
  C33. \<open>_recon_lcs\<close> never raises (no table entry is missing) and returns a common
  subsequence of both arguments whose length is exactly what \<open>_len_lcs\<close> reports.
\<close>

theorem recon_lcs_common_subsequence:
  "\<exists>s. recon_lcs x y = Inr s \<and> subseq s x \<and> subseq s y \<and> len_lcs x y = Inr (length s)"
  using recon_lcs_spec[of x y] by (auto simp: len_lcs_spec)

text \<open>
  ROUGE-N of two non-empty collections and a positive order returns precision and
  recall in the unit interval and an F1 score in [0, 1), and exchanging the two
  collections exchanges precision and recall and keeps the F1 score.
\<close>

theorem rouge_n_range_and_duality:
  assumes "es \<noteq> []" "rs \<noteq> []" "0 < n"
  shows "\<exists>f p r. rouge_n es rs n = Inr (f, p, r) \<and> rouge_n rs es n = Inr (f, r, p)
    \<and> 0 \<le> p \<and> p \<le> 1 \<and> 0 \<le> r \<and> r \<le> 1 \<and> 0 \<le> f \<and> f < 1"
proof -
  define p where "p = ngram_precision (get_ngrams n (split_into_words es)) (get_ngrams n (split_into_words rs))"
  define r where "r = ngram_precision (get_ngrams n (split_into_words rs)) (get_ngrams n (split_into_words es))"
  have b: "0 \<le> p" "p \<le> 1" "0 \<le> r" "r \<le> 1"
    by (simp_all add: p_def r_def ngram_precision_bounds)
  show ?thesis
    using rouge_n_eq[OF assms] rouge_n_eq[OF assms(2,1,3)] b f_score_bounds[OF b, of "1 / 10 ^ 8"]
    by (auto simp: p_def[symmetric] r_def[symmetric] mult.commute add.commute)
qed

theorem rouge_n_range_and_duality_witness:
  "\<exists>f p r. rouge_n [u ''a b c''] [u ''a b''] 2 = Inr (f, p, r)
     \<and> rouge_n [u ''a b''] [u ''a b c''] 2 = Inr (f, r, p)
     \<and> 0 \<le> p \<and> p \<le> 1 \<and> 0 \<le> r \<and> r \<le> 1 \<and> 0 \<le> f \<and> f < 1"
  by (rule rouge_n_range_and_duality) simp_all

text \<open>
  ROUGE-N raises exactly on the documented inputs: \<open>ValueError\<close> when one of the
  collections is empty, and \<open>AssertionError\<close> for an order that is not positive.
\<close>

theorem rouge_n_error_iff:
  "rouge_n es rs n = Inl e \<longleftrightarrow>
     (if es = [] \<or> rs = [] then e = ValueError else n \<le> 0 \<and> e = AssertionError)"
proof (cases "es = [] \<or> rs = []")
  case True
  then show ?thesis by (auto simp: rouge_n_def)
next
  case ne: False
  show ?thesis
  proof (cases "0 < n")
    case True
    with ne rouge_n_eq[of es rs n] show ?thesis by simp
  next
    case False
    with ne show ?thesis by (auto simp: rouge_n_def get_word_ngrams_def)
  qed
qed

text \<open>
  Sentence-level ROUGE-L of two non-empty collections never divides by zero (a split
  sentence has at least one word) and returns precision and recall in the unit interval
  and an F score in [0, 1).
\<close>

theorem rouge_l_sentence_level_total:
  assumes "es \<noteq> []" "rs \<noteq> []"
  shows "\<exists>f p r. rouge_l_sentence_level es rs = Inr (f, p, r)
    \<and> 0 \<le> f \<and> f < 1 \<and> 0 \<le> p \<and> p \<le> 1 \<and> 0 \<le> r \<and> r \<le> 1"
  using rouge_l_sentence_eq[OF assms] by blast

theorem rouge_l_sentence_level_total_witness:
  "\<exists>f p r. rouge_l_sentence_level [u ''z''] [u ''x y''] = Inr (f, p, r)
    \<and> 0 \<le> f \<and> f < 1 \<and> 0 \<le> p \<and> p \<le> 1 \<and> 0 \<le> r \<and> r \<le> 1"
  by (rule rouge_l_sentence_level_total) simp_all

text \<open>
  Summary-level ROUGE-L of two non-empty collections raises \<open>ZeroDivisionError\<close>
  exactly when some reference sentence shares no word with any evaluated sentence: the
  union of the subsequences is divided by the sum of their sizes, which is then 0.
\<close>

theorem rouge_l_summary_level_zero_division:
  assumes "es \<noteq> []" "rs \<noteq> []"
  shows "rouge_l_summary_level es rs = Inl ZeroDivisionError \<longleftrightarrow>
    (\<exists>r \<in> set rs. \<forall>e \<in> set es. set (split_on 32 r) \<inter> set (split_on 32 e) = {})"
proof -
  have ne: "0 < length (split_into_words es)" "0 < length (split_into_words rs)"
    using assms split_into_words_nonempty by auto
  show ?thesis
  proof (cases "\<exists>r \<in> set rs. \<forall>e \<in> set es. \<not> shares_word r e")
    case True
    with union_lcs_sum[OF assms(1) order_refl, of rs] assms show ?thesis
      by (simp add: rouge_l_summary_level_def Let_def) (simp add: shares_word_def)
  next
    case False
    with union_lcs_sum[OF assms(1) order_refl, of rs]
    obtain t where t: "foldE (\<lambda>acc r. bindE (union_lcs es r) (\<lambda>v. Inr (acc + v))) 0 rs = Inr t"
      "0 \<le> t" by (simp only: if_False) (elim exE conjE)
    then have "rouge_l_summary_level es rs \<noteq> Inl ZeroDivisionError"
      using f_p_r_lcs_eq[OF t(2), of "real (length (split_into_words rs))"
          "real (length (split_into_words es))"] ne assms
      by (auto simp: rouge_l_summary_level_def Let_def)
    with False show ?thesis by (simp add: shares_word_def)
  qed
qed

theorem rouge_l_summary_level_zero_division_witness:
  "rouge_l_summary_level [u ''a b''] [u ''a'', u ''c''] = Inl ZeroDivisionError"
  by (subst rouge_l_summary_level_zero_division) (simp_all add: u_def split_on_def)

text \<open>
  For a single evaluated sentence that shares a word with the reference sentence,
  \<open>_union_lcs\<close> is 1 however much of the reference is covered: the denominator is the sum
  of the subsequence sizes, where the docstring divides by the reference length.
\<close>

theorem union_lcs_single_is_one:
  assumes "set (split_on 32 r) \<inter> set (split_on 32 e) \<noteq> {}"
  shows "union_lcs [e] r = Inr 1"
proof -
  obtain s where "recon_lcs (split_on 32 r) (split_on 32 e) = Inr s" "card (set s) \<noteq> 0"
    using recon_lcs_card[of r e] assms by (auto simp: shares_word_def)
  then show ?thesis by (simp add: union_lcs_def union_lcs_step_def Let_def)
qed

theorem union_lcs_single_is_one_witness:
  "union_lcs [u ''w1 w2''] (u ''w1 w2 w3 w4 w5'') = Inr 1"
  by (rule union_lcs_single_is_one) (simp add: u_def split_on_def)

lemma rouge_unit:
  assumes mean: "\<And>xs. xs \<noteq> [] \<Longrightarrow> np_mean xs = sum_list xs / real (length xs)"
  shows "if hyps = [] \<or> refs = [] then rouge np_mean hyps refs = Inl ValueError
         else \<exists>S. rouge np_mean hyps refs = Inr S
           \<and> unit_score (rouge_1_f_score S, rouge_1_p_score S, rouge_1_r_score S)
           \<and> unit_score (rouge_2_f_score S, rouge_2_p_score S, rouge_2_r_score S)
           \<and> unit_score (rouge_l_f_score S, rouge_l_p_score S, rouge_l_r_score S)"
proof (cases "hyps = [] \<or> refs = []")
  case True
  then show ?thesis by (auto simp: rouge_def mean_columns_def)
next
  case False
  let ?z = "zip hyps refs"
  have z: "?z \<noteq> []" using False by (cases hyps; cases refs) auto
  have rows: "\<exists>rows. mapE (\<lambda>(h, r). f h r) ?z = Inr rows
      \<and> (\<exists>t. mean_columns np_mean rows = Inr t \<and> unit_score t)"
    if "\<And>h r. \<exists>t. f h r = Inr t \<and> unit_score t" for f
  proof -
    from rouge_rows[of f ?z, OF that] obtain rws where r: "mapE (\<lambda>(h, r). f h r) ?z = Inr rws"
      "length rws = length ?z" "\<forall>t \<in> set rws. unit_score t" by (elim exE conjE)
    with z have "rws \<noteq> []" by (metis length_0_conv)
    from mean_columns_unit[OF mean this r(3)] r(1) show ?thesis by auto
  qed
  from rows[of "\<lambda>h r. rouge_n [h] [r] 1"] rows[of "\<lambda>h r. rouge_n [h] [r] 2"]
    rows[of "\<lambda>h r. rouge_l_sentence_level [h] [r]"] rouge_n_unit[of 1] rouge_n_unit[of 2] rouge_l_unit
  obtain r1 t1 r2 t2 rl tl where
    "mapE (\<lambda>(h, r). rouge_n [h] [r] 1) ?z = Inr r1" "mean_columns np_mean r1 = Inr t1" "unit_score t1"
    "mapE (\<lambda>(h, r). rouge_n [h] [r] 2) ?z = Inr r2" "mean_columns np_mean r2 = Inr t2" "unit_score t2"
    "mapE (\<lambda>(h, r). rouge_l_sentence_level [h] [r]) ?z = Inr rl" "mean_columns np_mean rl = Inr tl"
    "unit_score tl" by auto
  with False show ?thesis
    by (cases t1; cases t2; cases tl) (simp add: rouge_def)
qed

text \<open>
  The averaged scores of \<open>rouge\<close>, with \<open>numpy.mean\<close> the arithmetic mean: a
  \<open>ValueError\<close> when there is no pair to score, and otherwise every precision, recall and F
  score is in the unit interval.
\<close>

theorem rouge_scores_range:
  assumes mean: "\<And>xs. xs \<noteq> [] \<Longrightarrow> np_mean xs = sum_list xs / real (length xs)"
  shows "if hyps = [] \<or> refs = [] then rouge np_mean hyps refs = Inl ValueError
         else \<exists>S. rouge np_mean hyps refs = Inr S
           \<and> unit_score (rouge_1_f_score S, rouge_1_p_score S, rouge_1_r_score S)
           \<and> unit_score (rouge_2_f_score S, rouge_2_p_score S, rouge_2_r_score S)
           \<and> unit_score (rouge_l_f_score S, rouge_l_p_score S, rouge_l_r_score S)"
  using assms by (rule rouge_unit)

definition list_mean :: "real list \<Rightarrow> real" where
  "list_mean xs = sum_list xs / real (length xs)"

theorem rouge_scores_range_witness:
  "\<exists>S. rouge list_mean [u ''a b''] [u ''a''] = Inr S
     \<and> unit_score (rouge_1_f_score S, rouge_1_p_score S, rouge_1_r_score S)
     \<and> unit_score (rouge_2_f_score S, rouge_2_p_score S, rouge_2_r_score S)
     \<and> unit_score (rouge_l_f_score S, rouge_l_p_score S, rouge_l_r_score S)"
  using rouge_scores_range[of list_mean "[u ''a b'']" "[u ''a'']"] by (simp add: list_mean_def)

end
