(* ===== verification/Bleu.thy ===== *)
theory Bleu
  imports Prelude
begin

text \<open>
  \<open>nmt/scripts/bleu.py\<close>: n-gram counters, clipped matches, precisions, brevity penalty and
  the BLEU score. \<open>collections.Counter\<close> is an association list in insertion order with the
  operations \<open>compute_bleu\<close> uses; what the scoring relies on is the locale \<open>bag\<close>, which the
  association lists interpret. Tokens are of any type.
\<close>

section \<open>collections.Counter\<close>

type_synonym 'k counter = "('k \<times> nat) list"

fun counter_get :: "'k counter \<Rightarrow> 'k \<Rightarrow> nat" where
  "counter_get [] k = 0"
| "counter_get ((k', v) # c) k = (if k' = k then v else counter_get c k)"

fun counter_set :: "'k counter \<Rightarrow> 'k \<Rightarrow> nat \<Rightarrow> 'k counter" where
  "counter_set [] k v = [(k, v)]"
| "counter_set ((k', v') # c) k v = (if k' = k then (k, v) # c else (k', v') # counter_set c k v)"

definition counter_incr :: "'k counter \<Rightarrow> 'k \<Rightarrow> 'k counter" where
  "counter_incr c k = counter_set c k (counter_get c k + 1)"

definition keep_positive :: "'k counter \<Rightarrow> 'k counter" where
  "keep_positive c = filter (\<lambda>(k, v). v > 0) c"

text \<open>\<open>c |= d\<close> and \<open>c & d\<close>, as the standard library computes them.\<close>

definition counter_or :: "'k counter \<Rightarrow> 'k counter \<Rightarrow> 'k counter" where
  "counter_or c d =
     keep_positive (foldl (\<lambda>c (k, v). if v > counter_get c k then counter_set c k v else c) c d)"

definition counter_and :: "'k counter \<Rightarrow> 'k counter \<Rightarrow> 'k counter" where
  "counter_and c d =
     filter (\<lambda>(k, v). v > 0) (map (\<lambda>(k, v). (k, min v (counter_get d k))) c)"

definition counter_ok :: "'k counter \<Rightarrow> bool" where
  "counter_ok c \<longleftrightarrow> distinct (map fst c) \<and> (\<forall>(k, v) \<in> set c. v > 0)"

lemma counter_get_set [simp]:
  "counter_get (counter_set c k v) k' = (if k = k' then v else counter_get c k')"
  by (induction c k v rule: counter_set.induct) auto

lemma keys_counter_set: "fst ` set (counter_set c k v) = insert k (fst ` set c)"
  by (induction c k v rule: counter_set.induct) auto

lemma distinct_counter_set: "distinct (map fst c) \<Longrightarrow> distinct (map fst (counter_set c k v))"
  by (induction c k v rule: counter_set.induct) (auto simp: keys_counter_set)

lemma counter_get_0: "k \<notin> fst ` set c \<Longrightarrow> counter_get c k = 0"
  by (induction c k rule: counter_get.induct) auto

lemma counter_get_in: "distinct (map fst c) \<Longrightarrow> (k, v) \<in> set c \<Longrightarrow> counter_get c k = v"
  by (induction c k rule: counter_get.induct) force+

lemma counter_ok_Nil [simp]: "counter_ok []"
  by (simp add: counter_ok_def)

lemma counter_get_filter:
  "distinct (map fst c) \<Longrightarrow>
   counter_get (filter (\<lambda>(k, v). P v) c) k = (if P (counter_get c k) then counter_get c k else 0)"
  by (induction c k rule: counter_get.induct) (auto intro!: counter_get_0)

lemma counter_ok_filter: "distinct (map fst c) \<Longrightarrow> counter_ok (filter (\<lambda>(k, v). v > 0) c)"
  by (auto simp: counter_ok_def distinct_map inj_on_def)

lemma set_counter_set: "x \<in> set (counter_set c k v) \<Longrightarrow> x = (k, v) \<or> x \<in> set c"
  by (induction c k v rule: counter_set.induct) (auto split: if_splits)

lemma counter_ok_set: "counter_ok c \<Longrightarrow> 0 < v \<Longrightarrow> counter_ok (counter_set c k v)"
  by (auto simp: counter_ok_def distinct_counter_set dest!: set_counter_set)

text \<open>The merging loop of \<open>counter_or\<close> keeps keys distinct and takes maxima.\<close>

lemma counter_or_loop:
  assumes "distinct (map fst c)" and "distinct (map fst d)"
  defines "m \<equiv> foldl (\<lambda>c (k, v). if v > counter_get c k then counter_set c k v else c) c d"
  shows "distinct (map fst m) \<and> counter_get m k = max (counter_get c k) (counter_get d k)"
  unfolding m_def using assms(1,2)
proof (induction d arbitrary: c)
  case (Cons x d)
  obtain k' v' where x: "x = (k', v')" by (cases x)
  let ?c = "if v' > counter_get c k' then counter_set c k' v' else c"
  have "distinct (map fst ?c)" using Cons.prems by (simp add: distinct_counter_set)
  with Cons.IH[of ?c] Cons.prems x show ?case
    by (auto simp: counter_get_0)
qed simp

section \<open>The interface of a counter\<close>

text \<open>
  What the scoring relies on: a bag of keys with positive multiplicities, in which an
  increment adds one, \<open>union\<close> takes the larger and \<open>inter\<close> the smaller multiplicity.
\<close>

locale bag =
  fixes empty :: 'c and get :: "'c \<Rightarrow> 'k \<Rightarrow> nat" and incr :: "'c \<Rightarrow> 'k \<Rightarrow> 'c"
    and union :: "'c \<Rightarrow> 'c \<Rightarrow> 'c" and inter :: "'c \<Rightarrow> 'c \<Rightarrow> 'c" and ok :: "'c \<Rightarrow> bool"
  assumes ok_empty: "ok empty" and get_empty: "get empty k = 0"
    and ok_incr: "ok c \<Longrightarrow> ok (incr c k)"
    and get_incr: "ok c \<Longrightarrow> get (incr c k) k' = get c k' + (if k = k' then 1 else 0)"
    and ok_union: "ok c \<Longrightarrow> ok d \<Longrightarrow> ok (union c d)"
    and get_union: "ok c \<Longrightarrow> ok d \<Longrightarrow> get (union c d) k = max (get c k) (get d k)"
    and ok_inter: "ok c \<Longrightarrow> ok d \<Longrightarrow> ok (inter c d)"
    and get_inter: "ok c \<Longrightarrow> ok d \<Longrightarrow> get (inter c d) k = min (get c k) (get d k)"
begin

lemma counting:
  "ok c \<Longrightarrow> ok (foldl incr c ks) \<and> get (foldl incr c ks) k = get c k + count_list ks k"
  by (induction ks arbitrary: c) (auto simp: ok_incr get_incr)

lemma counting_nested:
  "ok c \<Longrightarrow> ok (foldl (\<lambda>c x. foldl incr c (f x)) c xs)
    \<and> get (foldl (\<lambda>c x. foldl incr c (f x)) c xs) k = get c k + (\<Sum>x\<leftarrow>xs. count_list (f x) k)"
proof (induction xs arbitrary: c)
  case (Cons x xs)
  with Cons.IH[of "foldl incr c (f x)"] counting[of c "f x"] show ?case
    by (auto simp: counting[of c "f x" k])
qed simp

lemma merging:
  "ok c \<Longrightarrow> \<forall>d \<in> set ds. ok d \<Longrightarrow>
   ok (foldl union c ds) \<and> get (foldl union c ds) k = Max (insert (get c k) ((\<lambda>d. get d k) ` set ds))"
proof (induction ds arbitrary: c)
  case (Cons d ds)
  then show ?case
    by (cases "ds = []") (auto simp: ok_union get_union max.assoc max.left_commute)
qed simp

end

lemma counter_ok_distinct: "counter_ok c \<Longrightarrow> distinct (map fst c)"
  by (simp add: counter_ok_def)

lemma map_fst_pairs [simp]: "map fst (map (\<lambda>(k, v). (k, f k v)) c) = map fst c"
  by (simp add: comp_def case_prod_beta)

lemma counter_and_get:
  assumes "distinct (map fst c)"
  shows "counter_get (counter_and c d) k = min (counter_get c k) (counter_get d k)"
proof -
  let ?m = "map (\<lambda>(k, v). (k, min v (counter_get d k))) c"
  have "distinct (map fst ?m)" using assms by (simp only: map_fst_pairs)
  moreover have "counter_get ?m k = min (counter_get c k) (counter_get d k)"
    by (induction c k rule: counter_get.induct) auto
  ultimately show ?thesis by (simp add: counter_and_def counter_get_filter)
qed

lemma counter_and_ok: "distinct (map fst c) \<Longrightarrow> counter_ok (counter_and c d)"
  unfolding counter_and_def by (rule counter_ok_filter) (simp only: map_fst_pairs)

interpretation counter: bag "[]" counter_get counter_incr counter_or counter_and counter_ok
proof unfold_locales
  show "counter_ok c \<Longrightarrow> counter_ok d \<Longrightarrow> counter_ok (counter_or c d)" for c d :: "'k counter"
    unfolding counter_or_def keep_positive_def
    by (rule counter_ok_filter) (simp add: counter_or_loop counter_ok_distinct)
  show "counter_ok c \<Longrightarrow> counter_ok d \<Longrightarrow>
      counter_get (counter_or c d) k = max (counter_get c k) (counter_get d k)" for c d :: "'k counter" and k
    using counter_or_loop[of c d k]
    by (simp add: counter_or_def keep_positive_def counter_ok_distinct counter_get_filter)
qed (auto simp: counter_incr_def counter_and_get counter_and_ok counter_ok_distinct
    intro: counter_ok_set)

section \<open>compute_bleu\<close>

definition get_ngrams_bleu :: "'a list \<Rightarrow> nat \<Rightarrow> 'a list counter" where
  "get_ngrams_bleu segment max_order =
     foldl (\<lambda>ngram_counts order.
       foldl (\<lambda>ngram_counts i. counter_incr ngram_counts (take order (drop i segment)))
         ngram_counts [0..<length segment + 1 - order])
       [] [1..<max_order + 1]"

definition py_min :: "'a::linorder list \<Rightarrow> 'a res" where
  "py_min xs = (if xs = [] then Inl ValueError else Inr (Min (set xs)))"

text \<open>\<open>xs[i] += c\<close>\<close>

definition list_incr :: "nat list \<Rightarrow> int \<Rightarrow> nat \<Rightarrow> nat list res" where
  "list_incr xs i c =
     bindE (list_get xs i) (\<lambda>v. Inr (xs[nat (if i < 0 then int (length xs) + i else i) := v + c]))"

record bleu_acc =
  matches_by_order :: "nat list"
  possible_matches_by_order :: "nat list"
  reference_length :: nat
  translation_length :: nat

definition bleu_init :: "nat \<Rightarrow> bleu_acc" where
  "bleu_init max_order =
     \<lparr>matches_by_order = replicate max_order 0, possible_matches_by_order = replicate max_order 0,
      reference_length = 0, translation_length = 0\<rparr>"

definition possible_step :: "nat \<Rightarrow> nat list \<Rightarrow> nat \<Rightarrow> nat list res" where
  "possible_step translation_len p order =
     (let possible_matches = int translation_len - int order + 1
      in if possible_matches > 0 then list_incr p (int order - 1) (nat possible_matches)
         else Inr p)"

text \<open>One iteration of the loop over the zipped corpora.\<close>

definition bleu_segment :: "nat \<Rightarrow> bleu_acc \<Rightarrow> 'a list list \<times> 'a list \<Rightarrow> bleu_acc res" where
  "bleu_segment max_order acc seg =
     (let (references, translation) = seg
      in bindE (py_min (map length references)) (\<lambda>shortest.
         let merged_ref_ngram_counts =
               foldl (\<lambda>c reference. counter_or c (get_ngrams_bleu reference max_order)) [] references;
             translation_ngram_counts = get_ngrams_bleu translation max_order;
             overlap = counter_and translation_ngram_counts merged_ref_ngram_counts
         in bindE (foldE (\<lambda>m (ngram, c). list_incr m (int (length ngram) - 1) c)
                     (matches_by_order acc) overlap) (\<lambda>matches.
            bindE (foldE (possible_step (length translation)) (possible_matches_by_order acc)
                     [1..<max_order + 1]) (\<lambda>possible.
            Inr \<lparr>matches_by_order = matches, possible_matches_by_order = possible,
                 reference_length = reference_length acc + shortest,
                 translation_length = translation_length acc + length translation\<rparr>))))"

definition bleu_precision :: "bool \<Rightarrow> bleu_acc \<Rightarrow> nat \<Rightarrow> real res" where
  "bleu_precision smooth acc i =
     (let m = real (matches_by_order acc ! i); p = real (possible_matches_by_order acc ! i)
      in if smooth then py_div (m + 1) (p + 1)
         else if p > 0 then py_div m p else Inr 0)"

definition py_log :: "real \<Rightarrow> real res" where
  "py_log p = (if p > 0 then Inr (ln p) else Inl ValueError)"

definition compute_bleu ::
    "'a list list list \<Rightarrow> 'a list list \<Rightarrow> nat \<Rightarrow> bool
     \<Rightarrow> (real \<times> real list \<times> real \<times> real \<times> nat \<times> nat) res" where
  "compute_bleu reference_corpus translation_corpus max_order smooth =
     bindE (foldE (bleu_segment max_order) (bleu_init max_order)
              (zip reference_corpus translation_corpus)) (\<lambda>acc.
     bindE (mapE (bleu_precision smooth acc) [0..<max_order]) (\<lambda>precisions.
     bindE (py_min precisions) (\<lambda>smallest.
     bindE (if smallest > 0
            then bindE (mapE (\<lambda>p. bindE (py_log p) (\<lambda>l. Inr (1 / real max_order * l))) precisions)
                   (\<lambda>ls. Inr (exp (sum_list ls)))
            else Inr 0) (\<lambda>geo_mean.
     bindE (py_div (real (translation_length acc)) (real (reference_length acc))) (\<lambda>ratio.
     bindE (if ratio > 1 then Inr 1 else bindE (py_div 1 ratio) (\<lambda>q. Inr (exp (1 - q)))) (\<lambda>bp.
     let bleu = geo_mean * bp
     in Inr (bleu, precisions, bp, ratio, translation_length acc, reference_length acc)))))))"

section \<open>Counting n-grams\<close>

text \<open>The number of positions at which an n-gram occurs in a segment.\<close>

definition occ :: "'a list \<Rightarrow> 'a list \<Rightarrow> nat" where
  "occ g s = length (filter (\<lambda>i. take (length g) (drop i s) = g) [0..<length s + 1 - length g])"

definition order_slices :: "'a list \<Rightarrow> nat \<Rightarrow> 'a list list" where
  "order_slices s k = map (\<lambda>i. take k (drop i s)) [0..<length s + 1 - k]"

lemma order_slices_length: "g \<in> set (order_slices s k) \<Longrightarrow> length g = k"
  by (auto simp: order_slices_def)

lemma length_order_slices [simp]: "length (order_slices s k) = length s + 1 - k"
  by (simp add: order_slices_def)

lemma count_list_map: "count_list (map f xs) y = length (filter (\<lambda>x. f x = y) xs)"
  by (induction xs) auto

lemma count_order_slices: "count_list (order_slices s k) g = (if k = length g then occ g s else 0)"
proof (cases "k = length g")
  case True
  then show ?thesis by (simp add: order_slices_def occ_def count_list_map)
next
  case False
  then have "g \<notin> set (order_slices s k)" using order_slices_length by blast
  with False show ?thesis by simp
qed

lemma get_ngrams_bleu_eq:
  "get_ngrams_bleu s N = foldl (\<lambda>c k. foldl counter_incr c (order_slices s k)) [] [1..<N + 1]"
  by (simp add: get_ngrams_bleu_def order_slices_def foldl_map)

lemma sum_list_single:
  "distinct xs \<Longrightarrow> (\<Sum>x\<leftarrow>xs. if x = a then v else 0) = (if a \<in> set xs then v else (0::nat))"
  by (induction xs) auto

lemma get_ngrams_bleu_counts:
  "counter_ok (get_ngrams_bleu s N)"
  "counter_get (get_ngrams_bleu s N) g = (if 1 \<le> length g \<and> length g \<le> N then occ g s else 0)"
proof -
  note c = counter.counting_nested[of "[]" "order_slices s" "[1..<N + 1]"]
  show "counter_ok (get_ngrams_bleu s N)"
    using c by (simp add: get_ngrams_bleu_eq)
  have "counter_get (get_ngrams_bleu s N) g = (\<Sum>k\<leftarrow>[1..<N + 1]. if k = length g then occ g s else 0)"
    using c by (simp add: get_ngrams_bleu_eq count_order_slices del: upt_Suc)
  then show "counter_get (get_ngrams_bleu s N) g = (if 1 \<le> length g \<and> length g \<le> N then occ g s else 0)"
    by (subst (asm) sum_list_single) (auto simp: less_Suc_eq_le)
qed

text \<open>The multiplicities of the n-grams of one length.\<close>

definition bylen :: "'a list counter \<Rightarrow> nat \<Rightarrow> nat" where
  "bylen c n = sum_list (map snd (filter (\<lambda>(k, v). length k = n) c))"

lemma bylen_Cons [simp]: "bylen ((k, v) # c) n = (if length k = n then v else 0) + bylen c n"
  by (simp add: bylen_def)

lemma bylen_Nil [simp]: "bylen [] n = 0"
  by (simp add: bylen_def)

lemma bylen_set:
  "bylen (counter_set c k v) n + (if length k = n then counter_get c k else 0)
   = bylen c n + (if length k = n then v else 0)"
  by (induction c k v rule: counter_set.induct) auto

lemma bylen_incr: "bylen (counter_incr c k) n = bylen c n + (if length k = n then 1 else 0)"
  using bylen_set[of c k "counter_get c k + 1" n] by (auto simp: counter_incr_def split: if_splits)

lemma bylen_counting:
  "bylen (foldl counter_incr c gs) n = bylen c n + length (filter (\<lambda>g. length g = n) gs)"
  by (induction gs arbitrary: c) (auto simp: bylen_incr)

lemma bylen_orders:
  "bylen (foldl (\<lambda>c k. foldl counter_incr c (order_slices s k)) c ks) n
   = bylen c n + (\<Sum>k\<leftarrow>ks. if k = n then length s + 1 - n else 0)"
proof (induction ks arbitrary: c)
  case (Cons k ks)
  have "filter (\<lambda>g. length g = n) (order_slices s k) = (if k = n then order_slices s k else [])"
    by (auto simp: filter_empty_conv filter_id_conv dest: order_slices_length)
  then have "length (filter (\<lambda>g. length g = n) (order_slices s k)) = (if k = n then length s + 1 - n else 0)"
    by simp
  with Cons show ?case by (simp add: bylen_counting)
qed simp

lemma bylen_get_ngrams:
  "bylen (get_ngrams_bleu s N) n = (if 1 \<le> n \<and> n \<le> N then length s + 1 - n else 0)"
  using bylen_orders[of s "[]" "[1..<N + 1]" n]
  by (simp add: get_ngrams_bleu_eq sum_list_single less_Suc_eq_le del: upt_Suc)

lemma bylen_and_le: "bylen (counter_and c d) n \<le> bylen c n"
  by (induction c) (auto simp: counter_and_def)

lemma bylen_and_eq:
  "\<forall>(k, v) \<in> set c. v \<le> counter_get d k \<Longrightarrow> bylen (counter_and c d) n = bylen c n"
  by (induction c) (auto simp: counter_and_def)

lemma bylen_sum:
  assumes "distinct (map fst c)"
  shows "bylen c n = (\<Sum>k \<in> {k \<in> fst ` set c. length k = n}. counter_get c k)"
  using assms
proof (induction c)
  case (Cons x c)
  obtain k v where x: "x = (k, v)" by (cases x)
  have k: "k \<notin> fst ` set c" using Cons.prems x by simp
  have "{k' \<in> fst ` set (x # c). length k' = n} =
      (if length k = n then insert k {k' \<in> fst ` set c. length k' = n} else {k' \<in> fst ` set c. length k' = n})"
    using x by auto
  moreover have "(\<Sum>k' \<in> {k' \<in> fst ` set c. length k' = n}. counter_get (x # c) k')
      = (\<Sum>k' \<in> {k' \<in> fst ` set c. length k' = n}. counter_get c k')"
    using k x by (intro sum.cong) auto
  ultimately show ?case using Cons x k by simp
qed simp

section \<open>What one segment adds\<close>

text \<open>
  The clipped matches of order \<open>n\<close>: every n-gram of the translation counts as often as it
  occurs there, but no more often than in the reference that has it most.
\<close>

definition clipped :: "'a list list \<Rightarrow> 'a list \<Rightarrow> nat \<Rightarrow> nat" where
  "clipped refs t n =
     (\<Sum>g \<in> set (order_slices t n). min (occ g t) (Max ((\<lambda>r. occ g r) ` set refs)))"

lemma occ_pos_slice: "0 < occ g s \<longleftrightarrow> g \<in> set (order_slices s (length g))"
  by (auto simp: occ_def order_slices_def image_iff filter_empty_conv eq_commute[of g] simp del: upt_Suc)

lemma occ_sum: "(\<Sum>g \<in> set (order_slices t n). occ g t) = length t + 1 - n"
proof -
  have "(\<Sum>g \<in> set (order_slices t n). occ g t) = (\<Sum>g \<in> set (order_slices t n). count_list (order_slices t n) g)"
    by (intro sum.cong) (auto simp: count_order_slices dest: order_slices_length)
  also have "\<dots> = length (order_slices t n)"
    by (intro sum_count_set) auto
  finally show ?thesis by simp
qed

lemma clipped_le: "clipped refs t n \<le> length t + 1 - n"
  unfolding occ_sum[symmetric] clipped_def by (intro sum_mono) simp

lemma clipped_full: "t \<in> set refs \<Longrightarrow> clipped refs t n = length t + 1 - n"
  unfolding occ_sum[symmetric] clipped_def
  by (intro sum.cong) (auto intro!: min.absorb1 Max_ge)

lemma merged_get:
  fixes refs :: "'a list list" and N :: nat
  assumes "refs \<noteq> []"
  defines "M \<equiv> foldl (\<lambda>c r. counter_or c (get_ngrams_bleu r N)) [] refs"
  shows "counter_ok M"
    and "1 \<le> length g \<Longrightarrow> length g \<le> N \<Longrightarrow> counter_get M g = Max ((\<lambda>r. occ g r) ` set refs)"
proof -
  have M: "M = foldl counter_or [] (map (\<lambda>r. get_ngrams_bleu r N) refs)"
    by (simp add: M_def foldl_map)
  note m = counter.merging[of "[]" "map (\<lambda>r. get_ngrams_bleu r N) refs"]
  show "counter_ok M" using m by (simp add: M get_ngrams_bleu_counts(1))
  assume g: "1 \<le> length g" "length g \<le> N"
  have "counter_get M g = Max (insert 0 ((\<lambda>r. occ g r) ` set refs))"
    using m[of g] g by (simp add: M get_ngrams_bleu_counts image_image)
  also have "\<dots> = Max ((\<lambda>r. occ g r) ` set refs)"
    using assms(1) by (subst Max_insert) auto
  finally show "counter_get M g = Max ((\<lambda>r. occ g r) ` set refs)" .
qed

lemma overlap_keys:
  assumes "counter_ok c" and "\<And>g. \<not> (1 \<le> length g \<and> length g \<le> N) \<Longrightarrow> counter_get c g = 0"
    and "(g, v) \<in> set c"
  shows "1 \<le> length g \<and> length g \<le> N"
proof (rule ccontr)
  assume "\<not> (1 \<le> length g \<and> length g \<le> N)"
  then have "counter_get c g = 0" by (rule assms(2))
  moreover have "counter_get c g = v" "0 < v"
    using assms(1,3) by (auto simp: counter_ok_def counter_get_in)
  ultimately show False by simp
qed

lemma counter_key_iff: "counter_ok c \<Longrightarrow> g \<in> fst ` set c \<longleftrightarrow> 0 < counter_get c g"
proof
  assume "counter_ok c" "g \<in> fst ` set c"
  then obtain v where "(g, v) \<in> set c" "0 < v" "counter_get c g = v"
    by (auto simp: counter_ok_def counter_get_in)
  then show "0 < counter_get c g" by simp
qed (use counter_get_0[of g c] in auto)

lemma bylen_overlap:
  fixes refs :: "'a list list" and n N :: nat
  assumes "refs \<noteq> []" "1 \<le> n" "n \<le> N"
  defines "M \<equiv> foldl (\<lambda>c r. counter_or c (get_ngrams_bleu r N)) [] refs"
  shows "bylen (counter_and (get_ngrams_bleu t N) M) n = clipped refs t n"
proof -
  let ?T = "get_ngrams_bleu t N"
  let ?O = "counter_and ?T M"
  have ok: "counter_ok ?T" "counter_ok M" "counter_ok ?O"
    using merged_get(1)[OF assms(1)] get_ngrams_bleu_counts(1)
    by (auto simp: M_def intro!: counter_and_ok counter_ok_distinct)
  have get: "counter_get ?O g = min (occ g t) (Max ((\<lambda>r. occ g r) ` set refs))" if "length g = n" for g
    using that assms(2,3) ok merged_get(2)[OF assms(1), of g N]
    by (simp add: counter.get_inter get_ngrams_bleu_counts(2) M_def)
  have keys: "g \<in> fst ` set ?O \<longleftrightarrow> 0 < counter_get ?O g" for g
    by (rule counter_key_iff[OF ok(3)])
  have "bylen ?O n = (\<Sum>g \<in> {g \<in> fst ` set ?O. length g = n}. counter_get ?O g)"
    using ok(3) by (simp add: bylen_sum counter_ok_distinct)
  also have "\<dots> = (\<Sum>g \<in> set (order_slices t n). counter_get ?O g)"
  proof (rule sum.mono_neutral_left)
    show "{g \<in> fst ` set ?O. length g = n} \<subseteq> set (order_slices t n)"
      using get by (auto simp: keys occ_pos_slice)
    show "\<forall>g \<in> set (order_slices t n) - {g \<in> fst ` set ?O. length g = n}. counter_get ?O g = 0"
      by (auto simp: keys dest: order_slices_length)
  qed simp
  also have "\<dots> = clipped refs t n"
    unfolding clipped_def by (intro sum.cong) (auto simp: get dest: order_slices_length)
  finally show ?thesis .
qed

lemma list_incr_nat [simp]: "i < length xs \<Longrightarrow> list_incr xs (int i) c = Inr (xs[i := xs ! i + c])"
  by (simp add: list_incr_def list_get_def)

lemma overlap_loop:
  "\<forall>(k, v) \<in> set c. 1 \<le> length k \<and> length k \<le> length m \<Longrightarrow>
   \<exists>m'. foldE (\<lambda>m (k, c). list_incr m (int (length k) - 1) c) m c = Inr m'
     \<and> length m' = length m \<and> (\<forall>i < length m. m' ! i = m ! i + bylen c (Suc i))"
proof (induction c arbitrary: m)
  case (Cons x c)
  obtain k v where x: "x = (k, v)" by (cases x)
  with Cons.prems obtain l where l: "length k = Suc l" "l < length m" by (cases "length k") auto
  let ?m = "m[l := m ! l + v]"
  from Cons.IH[of ?m] Cons.prems obtain m' where
    "foldE (\<lambda>m (k, c). list_incr m (int (length k) - 1) c) ?m c = Inr m'" "length m' = length ?m"
    "\<forall>i < length ?m. m' ! i = ?m ! i + bylen c (Suc i)" by auto
  with x l show ?case by (auto simp: nth_list_update)
qed simp

lemma possible_step_eq:
  "l < length p \<Longrightarrow> possible_step n p (Suc l) = Inr (p[l := p ! l + (n - l)])"
proof (cases "l < n")
  case True
  assume "l < length p"
  moreover have "nat (int n - int (Suc l) + 1) = n - l" using True by auto
  ultimately show ?thesis using True by (simp add: possible_step_def)
qed (simp add: possible_step_def)

lemma possible_loop:
  "\<forall>k \<in> set ks. 1 \<le> k \<and> k \<le> length p \<Longrightarrow>
   \<exists>p'. foldE (possible_step n) p ks = Inr p' \<and> length p' = length p
     \<and> (\<forall>i < length p. p' ! i = p ! i + (\<Sum>k\<leftarrow>ks. if k = Suc i then n - i else 0))"
proof (induction ks arbitrary: p)
  case (Cons k ks)
  then obtain l where l: "k = Suc l" "l < length p" by (cases k) auto
  let ?p = "p[l := p ! l + (n - l)]"
  from Cons.IH[of ?p] Cons.prems obtain p' where
    "foldE (possible_step n) ?p ks = Inr p'" "length p' = length p"
    "\<forall>i < length p. p' ! i = ?p ! i + (\<Sum>k\<leftarrow>ks. if k = Suc i then n - i else 0)" by auto
  then show ?case
    using l by (auto simp: possible_step_eq nth_list_update)
qed simp

text \<open>The accumulator after a list of segments, in closed form.\<close>

definition bleu_sums :: "nat \<Rightarrow> ('a list list \<times> 'a list) list \<Rightarrow> bleu_acc \<Rightarrow> bleu_acc \<Rightarrow> bool" where
  "bleu_sums N segs a b \<longleftrightarrow>
     length (matches_by_order b) = N \<and> length (possible_matches_by_order b) = N
     \<and> (\<forall>i < N. matches_by_order b ! i
           = matches_by_order a ! i + (\<Sum>(refs, t)\<leftarrow>segs. clipped refs t (Suc i)))
     \<and> (\<forall>i < N. possible_matches_by_order b ! i
           = possible_matches_by_order a ! i + (\<Sum>(refs, t)\<leftarrow>segs. length t - i))
     \<and> reference_length b = reference_length a + (\<Sum>(refs, t)\<leftarrow>segs. Min (length ` set refs))
     \<and> translation_length b = translation_length a + (\<Sum>(refs, t)\<leftarrow>segs. length t)"

lemma bleu_segment_sums:
  assumes "refs \<noteq> []" "length (matches_by_order a) = N" "length (possible_matches_by_order a) = N"
  shows "\<exists>b. bleu_segment N a (refs, t) = Inr b \<and> bleu_sums N [(refs, t)] a b"
proof -
  define M where "M = foldl (\<lambda>c r. counter_or c (get_ngrams_bleu r N)) [] refs"
  let ?T = "get_ngrams_bleu t N"
  have ok: "counter_ok ?T" "counter_ok M"
    using merged_get(1)[OF assms(1)] get_ngrams_bleu_counts(1) by (auto simp: M_def)
  have "1 \<le> length g \<and> length g \<le> N" if "(g, v) \<in> set (counter_and ?T M)" for g v
    by (rule overlap_keys[OF _ _ that])
       (use ok in \<open>auto simp: counter.ok_inter counter.get_inter get_ngrams_bleu_counts(2)\<close>)
  then have "\<forall>(k, v) \<in> set (counter_and ?T M). 1 \<le> length k \<and> length k \<le> length (matches_by_order a)"
    using assms(2) by auto
  from overlap_loop[OF this] obtain m where m:
    "foldE (\<lambda>m (k, c). list_incr m (int (length k) - 1) c) (matches_by_order a) (counter_and ?T M) = Inr m"
    "length m = N" "\<forall>i < N. m ! i = matches_by_order a ! i + clipped refs t (Suc i)"
    using bylen_overlap[OF assms(1), of _ N t] assms(2) by (auto simp: M_def)
  have "\<forall>k \<in> set [1..<N + 1]. 1 \<le> k \<and> k \<le> length (possible_matches_by_order a)"
    using assms(3) by auto
  from possible_loop[OF this, of "length t"] obtain p where p:
    "foldE (possible_step (length t)) (possible_matches_by_order a) [1..<N + 1] = Inr p"
    "length p = N" "\<forall>i < N. p ! i = possible_matches_by_order a ! i + (length t - i)"
    using assms(3) by (auto simp: sum_list_single simp del: upt_Suc)
  show ?thesis
    using assms(1) m p
    by (auto simp: bleu_segment_def py_min_def M_def[symmetric] bleu_sums_def Let_def simp del: upt_Suc)
qed

lemma bleu_sums_trans: "bleu_sums N s a b \<Longrightarrow> bleu_sums N s' b c \<Longrightarrow> bleu_sums N (s @ s') a c"
  by (auto simp: bleu_sums_def)

lemma bleu_loop:
  assumes "\<forall>(refs, t) \<in> set segs. refs \<noteq> []"
    and "length (matches_by_order a) = N" "length (possible_matches_by_order a) = N"
  shows "\<exists>b. foldE (bleu_segment N) a segs = Inr b \<and> bleu_sums N segs a b"
  using assms
proof (induction segs arbitrary: a)
  case Nil
  then show ?case by (simp add: bleu_sums_def)
next
  case (Cons seg segs)
  obtain refs t where seg: "seg = (refs, t)" by (cases seg)
  with Cons.prems bleu_segment_sums[of refs a N t] obtain b where
    b: "bleu_segment N a seg = Inr b" "bleu_sums N [seg] a b" by auto
  with Cons.IH[of b] Cons.prems(1) obtain c where
    "foldE (bleu_segment N) b segs = Inr c" "bleu_sums N segs b c"
    by (auto simp: bleu_sums_def)
  with b bleu_sums_trans[OF b(2)] show ?case by auto
qed

lemma bleu_loop_init:
  "\<forall>(refs, t) \<in> set segs. refs \<noteq> [] \<Longrightarrow>
   \<exists>b. foldE (bleu_segment N) (bleu_init N) segs = Inr b \<and> bleu_sums N segs (bleu_init N) b"
  by (rule bleu_loop) (simp_all add: bleu_init_def)

section \<open>The score\<close>

definition segs_ok :: "('a list list \<times> 'a list) list \<Rightarrow> bool" where
  "segs_ok segs \<longleftrightarrow> (\<forall>(refs, t) \<in> set segs. refs \<noteq> [])"

definition total_ref :: "('a list list \<times> 'a list) list \<Rightarrow> nat" where
  "total_ref segs = (\<Sum>(refs, t)\<leftarrow>segs. Min (length ` set refs))"

definition total_trans :: "('a list list \<times> 'a list) list \<Rightarrow> nat" where
  "total_trans segs = (\<Sum>(refs, t)\<leftarrow>segs. length t)"

lemma matches_le_possible:
  "bleu_sums N segs (bleu_init N) b \<Longrightarrow> i < N \<Longrightarrow>
   matches_by_order b ! i \<le> possible_matches_by_order b ! i"
proof -
  assume "bleu_sums N segs (bleu_init N) b" "i < N"
  moreover have "clipped (fst s) (snd s) (Suc i) \<le> length (snd s) - i" for s :: "'a list list \<times> 'a list"
    using clipped_le[of "fst s" "snd s" "Suc i"] by simp
  then have "(\<Sum>(refs, t)\<leftarrow>segs. clipped refs t (Suc i)) \<le> (\<Sum>(refs, t)\<leftarrow>segs. length t - i)"
    unfolding case_prod_beta by (intro sum_list_mono)
  ultimately show ?thesis by (simp add: bleu_sums_def bleu_init_def)
qed

definition precision_of :: "bool \<Rightarrow> bleu_acc \<Rightarrow> nat \<Rightarrow> real" where
  "precision_of smooth b i =
     (let m = real (matches_by_order b ! i); p = real (possible_matches_by_order b ! i)
      in if smooth then (m + 1) / (p + 1) else m / p)"

lemma bleu_precision_eq: "bleu_precision smooth b i = Inr (precision_of smooth b i)"
proof -
  have "real k + 1 \<noteq> 0" for k by linarith
  then show ?thesis by (simp add: bleu_precision_def precision_of_def Let_def)
qed

lemma precision_unit:
  "bleu_sums N segs (bleu_init N) b \<Longrightarrow> i < N \<Longrightarrow>
   0 \<le> precision_of smooth b i \<and> precision_of smooth b i \<le> 1"
  using matches_le_possible[of N segs b i]
    unit_interval_div[of "real (matches_by_order b ! i)" "real (possible_matches_by_order b ! i)"]
  by (auto simp: precision_of_def Let_def)

definition geo_mean_of :: "nat \<Rightarrow> real list \<Rightarrow> real" where
  "geo_mean_of N ps =
     (if Min (set ps) > 0 then exp (sum_list (map (\<lambda>p. 1 / real N * ln p) ps)) else 0)"

lemma geo_mean_loop:
  assumes "ps \<noteq> []"
  shows "(if Min (set ps) > 0
          then bindE (mapE (\<lambda>p. bindE (py_log p) (\<lambda>l. Inr (1 / real N * l))) ps)
                 (\<lambda>ls. Inr (exp (sum_list ls)))
          else Inr 0) = Inr (geo_mean_of N ps)"
proof (cases "Min (set ps) > 0")
  case True
  with assms have "mapE (\<lambda>p. bindE (py_log p) (\<lambda>l. Inr (1 / real N * l))) ps
      = Inr (map (\<lambda>p. 1 / real N * ln p) ps)"
    by (intro mapE_Inr) (simp add: py_log_def)
  with True show ?thesis by (simp add: geo_mean_of_def)
qed (simp add: geo_mean_of_def)

lemma geo_mean_unit:
  assumes "\<forall>p \<in> set ps. 0 \<le> p \<and> p \<le> 1" "ps \<noteq> []"
  shows "0 \<le> geo_mean_of N ps \<and> geo_mean_of N ps \<le> 1"
proof (cases "Min (set ps) > 0")
  case True
  with assms have pos: "\<forall>p \<in> set ps. 0 < p \<and> p \<le> 1" by simp
  then have "sum_list (map (\<lambda>p. 1 / real N * ln p) ps) \<le> 0"
    by (intro sum_list_nonpos) (auto simp: mult_nonneg_nonpos divide_nonpos_nonneg)
  with True show ?thesis by (simp add: geo_mean_of_def)
qed (simp add: geo_mean_of_def)

definition brevity :: "real \<Rightarrow> real" where
  "brevity ratio = (if ratio > 1 then 1 else exp (1 - 1 / ratio))"

lemma brevity_bounds: "0 < ratio \<Longrightarrow> 0 < brevity ratio \<and> brevity ratio \<le> 1"
  by (auto simp: brevity_def)

text \<open>The value of \<open>compute_bleu\<close> once the accumulator is known.\<close>

lemma compute_bleu_eq:
  assumes "segs_ok (zip R T)" "0 < N"
  shows "\<exists>b. bleu_sums N (zip R T) (bleu_init N) b \<and>
    compute_bleu R T N smooth =
      (if total_ref (zip R T) = 0 \<or> total_trans (zip R T) = 0 then Inl ZeroDivisionError
       else let ps = map (precision_of smooth b) [0..<N];
                ratio = real (total_trans (zip R T)) / real (total_ref (zip R T))
            in Inr (geo_mean_of N ps * brevity ratio, ps, brevity ratio, ratio,
                    total_trans (zip R T), total_ref (zip R T)))"
proof -
  from bleu_loop_init[of "zip R T" N] assms(1) obtain b where
    b: "foldE (bleu_segment N) (bleu_init N) (zip R T) = Inr b" "bleu_sums N (zip R T) (bleu_init N) b"
    by (auto simp: segs_ok_def)
  have len: "translation_length b = total_trans (zip R T)" "reference_length b = total_ref (zip R T)"
    using b(2) by (simp_all add: bleu_sums_def bleu_init_def total_trans_def total_ref_def)
  let ?ps = "map (precision_of smooth b) [0..<N]"
  have ps: "mapE (bleu_precision smooth b) [0..<N] = Inr ?ps"
    by (intro mapE_Inr bleu_precision_eq)
  have ne: "?ps \<noteq> []" using assms(2) by simp
  have "compute_bleu R T N smooth =
      bindE (py_div (real (total_trans (zip R T))) (real (total_ref (zip R T)))) (\<lambda>ratio.
      bindE (if ratio > 1 then Inr 1 else bindE (py_div 1 ratio) (\<lambda>q. Inr (exp (1 - q)))) (\<lambda>bp.
      Inr (geo_mean_of N ?ps * bp, ?ps, bp, ratio, total_trans (zip R T), total_ref (zip R T))))"
    unfolding compute_bleu_def b(1) bindE_simps ps
    using ne geo_mean_loop[OF ne, of N] by (simp add: py_min_def len)
  then show ?thesis
    using b(2) by (intro exI[of _ b]) (auto simp: Let_def brevity_def py_div_def)
qed

lemma compute_bleu_unit:
  assumes "\<forall>(refs, t) \<in> set (zip R T). refs \<noteq> []" "0 < N"
    and "0 < total_ref (zip R T)" "0 < total_trans (zip R T)"
  shows "\<exists>bleu ps bp ratio. compute_bleu R T N smooth =
      Inr (bleu, ps, bp, ratio, total_trans (zip R T), total_ref (zip R T))
    \<and> length ps = N \<and> (\<forall>p \<in> set ps. 0 \<le> p \<and> p \<le> 1)
    \<and> 0 < bp \<and> bp \<le> 1 \<and> 0 \<le> bleu \<and> bleu \<le> bp"
proof -
  from compute_bleu_eq[of R T N smooth] assms obtain b where
    b: "bleu_sums N (zip R T) (bleu_init N) b" and
    eq: "compute_bleu R T N smooth =
      (let ps = map (precision_of smooth b) [0..<N];
           ratio = real (total_trans (zip R T)) / real (total_ref (zip R T))
       in Inr (geo_mean_of N ps * brevity ratio, ps, brevity ratio, ratio,
               total_trans (zip R T), total_ref (zip R T)))"
    by (auto simp: segs_ok_def)
  let ?ps = "map (precision_of smooth b) [0..<N]"
  let ?ratio = "real (total_trans (zip R T)) / real (total_ref (zip R T))"
  have ps: "\<forall>p \<in> set ?ps. 0 \<le> p \<and> p \<le> 1" using precision_unit[OF b] by auto
  have bp: "0 < brevity ?ratio" "brevity ?ratio \<le> 1"
    using brevity_bounds[of ?ratio] assms(3,4) by auto
  have g: "0 \<le> geo_mean_of N ?ps" "geo_mean_of N ?ps \<le> 1"
    using geo_mean_unit[OF ps] assms(2) by auto
  have "0 \<le> geo_mean_of N ?ps * brevity ?ratio" "geo_mean_of N ?ps * brevity ?ratio \<le> brevity ?ratio"
    using g bp by (auto intro: mult_left_le_one_le)
  then show ?thesis using eq ps bp by (auto simp: Let_def)
qed

section \<open>Properties\<close>

text \<open>
  C13. The clipped counts behind BLEU: after the loop over the segments,
  \<open>matches_by_order[i]\<close> is the sum, over the segments and over the distinct n-grams of order
  i + 1 of the translation, of the number of its occurrences there clipped by its largest
  number of occurrences in one reference; \<open>possible_matches_by_order[i]\<close> is the number of
  positions for such n-grams. No list index and no dictionary access fails on the way.
\<close>

theorem bleu_matches_are_clipped_counts:
  assumes "\<forall>(refs, t) \<in> set segs. refs \<noteq> []"
  shows "\<exists>acc. foldE (bleu_segment N) (bleu_init N) segs = Inr acc
    \<and> (\<forall>i < N. matches_by_order acc ! i =
         (\<Sum>(refs, t)\<leftarrow>segs. \<Sum>g \<in> set (order_slices t (Suc i)).
            min (occ g t) (Max ((\<lambda>r. occ g r) ` set refs))))
    \<and> (\<forall>i < N. possible_matches_by_order acc ! i = (\<Sum>(refs, t)\<leftarrow>segs. length t - i))"
  using bleu_loop_init[OF assms, of N]
  by (auto simp: bleu_sums_def bleu_init_def clipped_def)

theorem bleu_matches_are_clipped_counts_witness:
  "\<exists>acc. foldE (bleu_segment 2) (bleu_init 2) [([[1::nat, 2], [1]], [1, 1, 2])] = Inr acc
    \<and> (\<forall>i < 2. matches_by_order acc ! i =
         (\<Sum>(refs, t)\<leftarrow>[([[1::nat, 2], [1]], [1, 1, 2])]. \<Sum>g \<in> set (order_slices t (Suc i)).
            min (occ g t) (Max ((\<lambda>r. occ g r) ` set refs))))
    \<and> (\<forall>i < 2. possible_matches_by_order acc ! i
         = (\<Sum>(refs, t)\<leftarrow>[([[1::nat, 2], [1]], [1::nat, 1, 2])]. length t - i))"
  by (rule bleu_matches_are_clipped_counts) simp

text \<open>
  C40. With at least one order, at least one reference per segment and neither side empty,
  \<open>compute_bleu\<close> returns: the precisions, the brevity penalty and the BLEU score are in the
  unit interval, the penalty is positive, and the lengths are the summed lengths of the
  translations and of the shortest references.
\<close>

theorem compute_bleu_range:
  assumes "\<forall>(refs, t) \<in> set (zip R T). refs \<noteq> []" "0 < N"
    and "0 < total_ref (zip R T)" "0 < total_trans (zip R T)"
  shows "\<exists>bleu ps bp ratio. compute_bleu R T N smooth =
      Inr (bleu, ps, bp, ratio, total_trans (zip R T), total_ref (zip R T))
    \<and> length ps = N \<and> (\<forall>p \<in> set ps. 0 \<le> p \<and> p \<le> 1)
    \<and> 0 < bp \<and> bp \<le> 1 \<and> 0 \<le> bleu \<and> bleu \<le> bp"
  using assms by (rule compute_bleu_unit)

theorem compute_bleu_range_witness:
  "\<exists>bleu ps bp ratio. compute_bleu [[[1::nat, 2, 3]]] [[1, 2]] 2 False =
      Inr (bleu, ps, bp, ratio, total_trans (zip [[[1::nat, 2, 3]]] [[1, 2]]),
           total_ref (zip [[[1::nat, 2, 3]]] [[1, 2]]))
    \<and> length ps = 2 \<and> (\<forall>p \<in> set ps. 0 \<le> p \<and> p \<le> 1)
    \<and> 0 < bp \<and> bp \<le> 1 \<and> 0 \<le> bleu \<and> bleu \<le> bp"
  by (rule compute_bleu_range) (simp_all add: total_ref_def total_trans_def)

text \<open>A perfect translation: the totals and the precisions of the loop.\<close>

lemma perfect_total_ref:
  "\<forall>(refs, t) \<in> set segs. t \<in> set refs \<Longrightarrow> total_ref segs \<le> total_trans segs"
  unfolding total_ref_def total_trans_def case_prod_beta
  by (intro sum_list_mono) (auto intro!: Min_le)

lemma perfect_precision:
  assumes "bleu_sums N segs (bleu_init N) b" "i < N" "segs \<noteq> []"
    and "\<forall>(refs, t) \<in> set segs. t \<in> set refs \<and> N \<le> length t"
  shows "precision_of smooth b i = 1"
proof -
  have "matches_by_order b ! i = possible_matches_by_order b ! i"
    using assms by (simp add: bleu_sums_def bleu_init_def case_prod_beta clipped_full cong: map_cong)
  moreover have "0 < possible_matches_by_order b ! i"
  proof -
    obtain refs t where "(refs, t) \<in> set segs" using assms(3) by (cases segs) auto
    with assms(2,4) have "0 < length t - i" "length t - i \<le> (\<Sum>(refs, t)\<leftarrow>segs. length t - i)"
      by (fastforce intro!: member_le_sum_list image_eqI[of _ _ "(refs, t)"])+
    with assms(1,2) show ?thesis by (simp add: bleu_sums_def bleu_init_def)
  qed
  ultimately show ?thesis by (simp add: precision_of_def Let_def)
qed

text \<open>
  A perfect translation scores 1: when every translation is one of its references and
  has at least as many tokens as there are orders, \<open>compute_bleu\<close> returns the score 1 with
  all precisions 1 and no brevity penalty, smoothed or not.
\<close>

theorem compute_bleu_perfect:
  assumes "\<forall>(refs, t) \<in> set (zip R T). t \<in> set refs \<and> N \<le> length t"
    and "R \<noteq> []" "T \<noteq> []" "0 < N" "0 < total_ref (zip R T)"
  shows "\<exists>ratio. compute_bleu R T N smooth =
    Inr (1, replicate N 1, 1, ratio, total_trans (zip R T), total_ref (zip R T))"
proof -
  have ne: "zip R T \<noteq> []" using assms(2,3) by (cases R; cases T) auto
  have le: "total_ref (zip R T) \<le> total_trans (zip R T)"
    using perfect_total_ref[of "zip R T"] assms(1) by auto
  have ok: "segs_ok (zip R T)" using assms(1) by (auto simp: segs_ok_def)
  from compute_bleu_eq[OF ok assms(4), of smooth] le assms(5) obtain b where
    b: "bleu_sums N (zip R T) (bleu_init N) b" and
    eq: "compute_bleu R T N smooth =
      (let ps = map (precision_of smooth b) [0..<N];
           ratio = real (total_trans (zip R T)) / real (total_ref (zip R T))
       in Inr (geo_mean_of N ps * brevity ratio, ps, brevity ratio, ratio,
               total_trans (zip R T), total_ref (zip R T)))"
    by auto
  have "map (precision_of smooth b) [0..<N] = map (\<lambda>i. 1) [0..<N]"
    using perfect_precision[OF b _ ne assms(1)] by (intro map_cong) auto
  then have ps: "map (precision_of smooth b) [0..<N] = replicate N 1"
    by (simp add: map_replicate_const)
  have "geo_mean_of N (replicate N 1) = 1"
    using assms(4) by (simp add: geo_mean_of_def set_replicate sum_list_replicate)
  moreover have "brevity (real (total_trans (zip R T)) / real (total_ref (zip R T))) = 1"
    using le assms(5) by (auto simp: brevity_def divide_simps)
  ultimately show ?thesis using eq by (auto simp: ps Let_def)
qed

theorem compute_bleu_perfect_witness:
  "\<exists>ratio. compute_bleu [[[1::nat, 2, 3], [7]]] [[1, 2, 3]] 2 False =
    Inr (1, replicate 2 1, 1, ratio, total_trans (zip [[[1::nat, 2, 3], [7]]] [[1, 2, 3]]),
         total_ref (zip [[[1::nat, 2, 3], [7]]] [[1, 2, 3]]))"
  by (rule compute_bleu_perfect) (simp_all add: total_ref_def)

text \<open>
  C30. With at least one order and a reference for every segment, \<open>compute_bleu\<close> fails
  exactly by dividing by zero, and exactly when the shortest references are all empty or
  every translation is empty: an all-empty output is an exception, not the score 0.
\<close>

theorem compute_bleu_zero_division_iff:
  assumes "\<forall>(refs, t) \<in> set (zip R T). refs \<noteq> []" "0 < N"
  shows "compute_bleu R T N smooth = Inl e \<longleftrightarrow>
    e = ZeroDivisionError
    \<and> ((\<forall>(refs, t) \<in> set (zip R T). [] \<in> set refs) \<or> (\<forall>(refs, t) \<in> set (zip R T). t = []))"
proof -
  have "total_ref segs = 0 \<longleftrightarrow> (\<forall>(refs, t) \<in> set segs. [] \<in> set refs)"
    if "segs_ok segs" for segs :: "('a list list \<times> 'a list) list"
  proof -
    have "Min (length ` set refs) = 0 \<longleftrightarrow> [] \<in> set refs" if "refs \<noteq> []" for refs :: "'a list list"
      using that by (subst Min_eq_iff) auto
    with that show ?thesis
      by (induction segs) (auto simp: total_ref_def segs_ok_def)
  qed
  moreover have "total_trans segs = 0 \<longleftrightarrow> (\<forall>(refs, t) \<in> set segs. t = [])"
    for segs :: "('a list list \<times> 'a list) list"
    by (induction segs) (auto simp: total_trans_def)
  moreover have ok: "segs_ok (zip R T)" using assms(1) by (simp add: segs_ok_def)
  moreover obtain b where "compute_bleu R T N smooth =
      (if total_ref (zip R T) = 0 \<or> total_trans (zip R T) = 0 then Inl ZeroDivisionError
       else let ps = map (precision_of smooth b) [0..<N];
                ratio = real (total_trans (zip R T)) / real (total_ref (zip R T))
            in Inr (geo_mean_of N ps * brevity ratio, ps, brevity ratio, ratio,
                    total_trans (zip R T), total_ref (zip R T)))"
    using compute_bleu_eq[OF ok assms(2), of smooth] by (elim exE conjE)
  ultimately show ?thesis by (auto simp: Let_def)
qed

theorem compute_bleu_zero_division_iff_witness:
  "compute_bleu [[[1::nat, 2]]] [[]] 4 False = Inl ZeroDivisionError"
  by (subst compute_bleu_zero_division_iff) simp_all

end
