(* ===== verification/Formatting.thy ===== *)
theory Formatting
  imports PyText
begin

text \<open>
  The text post-processing of \<open>nmt/utils/misc_utils.py\<close> (\<open>format_text\<close>,
  \<open>format_bpe_text\<close>, \<open>format_spm_text\<close>), the sentence selection \<open>get_translation\<close> of
  \<open>nmt/utils/nmt_utils.py\<close>, and \<open>_clean\<close> of \<open>nmt/utils/evaluation_utils.py\<close>, which
  undoes the same subword encodings on reference text. The facts relate the two paths:
  symbols joined by the formatter against the same symbols cleaned as a line of text.
\<close>

section \<open>Formatters\<close>

text \<open>
  The arguments are lists of tokens, as \<open>get_translation\<close> passes them; the branches of the
  code for a bare scalar and for a \<open>str\<close> are not reached from it.
\<close>

definition format_text :: "bytes list \<Rightarrow> bytes" where
  "format_text words = join '' '' words"

text \<open>\<open>s[-n:]\<close> and \<open>s[:-n]\<close> for a non-negative \<open>n\<close>; \<open>-0\<close> is \<open>0\<close>.\<close>

definition last_slice :: "nat \<Rightarrow> 'a list \<Rightarrow> 'a list" where
  "last_slice n s = (if n = 0 then s else drop (length s - n) s)"

definition init_slice :: "nat \<Rightarrow> 'a list \<Rightarrow> 'a list" where
  "init_slice n s = (if n = 0 then [] else take (length s - n) s)"

definition bpe_step :: "'a list \<Rightarrow> 'a list list \<times> 'a list \<Rightarrow> 'a list \<Rightarrow> 'a list list \<times> 'a list" where
  "bpe_step delimiter acc symbol =
     (let (words, word) = acc; delimiter_len = length delimiter
      in if length symbol \<ge> delimiter_len \<and> last_slice delimiter_len symbol = delimiter
         then (words, word @ init_slice delimiter_len symbol)
         else (words @ [word @ symbol], []))"

definition format_bpe_text :: "bytes list \<Rightarrow> bytes \<Rightarrow> bytes" where
  "format_bpe_text symbols delimiter =
     join '' '' (fst (foldl (bpe_step delimiter) ([], []) symbols))"

definition format_spm_text :: "bytes list \<Rightarrow> bytes res" where
  "format_spm_text symbols =
     bindE (utf8_decode (format_text symbols)) (\<lambda>text.
     Inr (utf8_encode (strip (replace [9601] [32] (concat (split_ws text))))))"

section \<open>Cleaning a line of text\<close>

definition clean :: "pystr \<Rightarrow> pystr option \<Rightarrow> pystr" where
  "clean sentence subword_option =
     (let sentence = strip sentence
      in if subword_option = Some (u ''bpe'') then replace (u ''@@ '') [] sentence
         else if subword_option = Some (u ''spm'')
         then lstrip (replace [9601] [32] (concat (split_ws sentence)))
         else sentence)"

section \<open>Selecting a translation\<close>

definition truthy :: "pystr option \<Rightarrow> bool" where
  "truthy s \<longleftrightarrow> (case s of None \<Rightarrow> False | Some t \<Rightarrow> t \<noteq> [])"

definition cut_at_eos :: "bytes \<Rightarrow> bytes list \<Rightarrow> bytes list" where
  "cut_at_eos eos output = (if eos \<in> set output then takeWhile (\<lambda>w. w \<noteq> eos) output else output)"

definition get_translation ::
    "bytes list list \<Rightarrow> int \<Rightarrow> pystr option \<Rightarrow> pystr option \<Rightarrow> bytes res" where
  "get_translation nmt_outputs sent_id tgt_eos subword_option =
     bindE (list_get nmt_outputs sent_id) (\<lambda>row.
     let output = (if truthy tgt_eos then cut_at_eos (utf8_encode (the tgt_eos)) row else row)
     in if subword_option = Some (u ''bpe'') then Inr (format_bpe_text output ''@@'')
        else if subword_option = Some (u ''spm'') then format_spm_text output
        else Inr (format_text output))"

section \<open>Byte-pair encoding: symbols against text\<close>

definition ends_with :: "'a list \<Rightarrow> 'a list \<Rightarrow> bool" where
  "ends_with s d \<longleftrightarrow> length s \<ge> length d \<and> drop (length s - length d) s = d"

lemma ends_with_iff: "ends_with s d \<longleftrightarrow> (\<exists>p. s = p @ d)"
  unfolding ends_with_def by (metis append_eq_conv_conj append_take_drop_id diff_add_inverse2
      length_append le_add2)

lemma bpe_step_simps:
  "d \<noteq> [] \<Longrightarrow> bpe_step d (ws, w) (p @ d) = (ws, w @ p)"
  "d \<noteq> [] \<Longrightarrow> \<not> ends_with s d \<Longrightarrow> bpe_step d (ws, w) s = (ws @ [w @ s], [])"
  by (auto simp: bpe_step_def last_slice_def init_slice_def ends_with_def)

lemma bpe_trailing:
  "d \<noteq> [] \<Longrightarrow> \<forall>s \<in> set ss. ends_with s d \<Longrightarrow> fst (foldl (bpe_step d) (ws, w) ss) = ws"
proof (induction ss arbitrary: w)
  case (Cons s ss)
  then obtain p where "s = p @ d" by (auto simp: ends_with_iff)
  with Cons show ?case by (simp add: bpe_step_simps)
qed simp

text \<open>What \<open>re.sub("@@ ", "", _)\<close> does to a symbol without spaces and the space after it.\<close>

lemma take3: "take 3 (x # xs) = x # take 2 xs" "take 2 (x # xs) = x # take 1 xs"
  by (simp_all add: numeral_3_eq_3 numeral_2_eq_2)

lemma replace_step3:
  "take 3 (c # s) \<noteq> [64, 64, 32] \<Longrightarrow>
   replace [64, 64, 32] [] (c # s) = (c :: nat) # replace [64, 64, 32] [] s"
  using replace_step[of "[64, 64, 32]" c s "[]"] by (simp add: numeral_3_eq_3)

lemma replace_no_space:
  assumes "\<forall>x \<in> set w. x \<noteq> (32::nat)"
  shows "replace [64, 64, 32] [] w = w"
  using assms
proof (induction w)
  case (Cons x w)
  then have "take 3 (x # w) \<noteq> [64, 64, 32]"
    by (metis in_set_takeD list.set_intros(1) list.set_intros(2))
  from replace_step3[OF this] Cons show ?case by simp
qed simp

lemma replace_symbol_end:
  "replace [64, 64, 32] [] ([64, 64, 32] @ r) = replace [64, 64, 32] [] (r :: nat list)"
  using replace_match[of "[64, 64, 32]" "[]" r] by simp

lemma replace_continued:
  "\<forall>x \<in> set p. x \<noteq> (32::nat) \<Longrightarrow>
   replace [64, 64, 32] [] (p @ [64, 64, 32] @ r) = p @ replace [64, 64, 32] [] r"
proof (induction p)
  case Nil
  then show ?case using replace_symbol_end[of r] by simp
next
  case (Cons x p)
  have "take 3 ((x # p) @ [64, 64, 32] @ r) \<noteq> [64, 64, 32]"
  proof (cases p)
    case Nil
    then show ?thesis by (simp add: take3)
  next
    case (Cons y q)
    with Cons.prems show ?thesis by (cases q) (auto simp: take3)
  qed
  then have "take 3 (x # (p @ [64, 64, 32] @ r)) \<noteq> [64, 64, 32]" by simp
  from replace_step3[OF this] Cons show ?case by simp
qed

lemma replace_ended:
  "\<forall>x \<in> set w. x \<noteq> (32::nat) \<Longrightarrow> \<not> ends_with w [64, 64] \<Longrightarrow>
   replace [64, 64, 32] [] (w @ 32 # r) = w @ 32 # replace [64, 64, 32] [] r"
proof (induction w)
  case Nil
  then show ?case by (simp add: replace_step take3)
next
  case (Cons x w)
  have "\<not> ends_with w [64, 64]"
  proof
    assume "ends_with w [64, 64]"
    then obtain p where "w = p @ [64, 64]" by (auto simp: ends_with_iff)
    then have "x # w = (x # p) @ [64, 64]" by simp
    with Cons.prems(2) show False unfolding ends_with_iff by blast
  qed
  moreover have "take 3 ((x # w) @ 32 # r) \<noteq> [64, 64, 32]"
  proof (cases w)
    case Nil
    then show ?thesis by (simp add: take3)
  next
    case (Cons y q)
    with Cons.prems show ?thesis by (cases q) (auto simp: take3 ends_with_def)
  qed
  then have "take 3 (x # (w @ 32 # r)) \<noteq> [64, 64, 32]" by simp
  note replace_step3[OF this]
  ultimately show ?case using Cons by simp
qed

definition bpe_symbols :: "pystr list \<Rightarrow> bool" where
  "bpe_symbols ws \<longleftrightarrow>
     ws \<noteq> [] \<and> (\<forall>w \<in> set ws. w \<noteq> [] \<and> (\<forall>c \<in> set w. \<not> is_space c)) \<and> \<not> ends_with (last ws) [64, 64]"

lemma join_insert_space: "join [c] ((acc @ [v]) @ [w]) = join [c] (acc @ [v @ c # w])"
  using join_snoc[of "acc @ [v]" "[c]" w] by (cases "acc = []") (simp_all add: join_snoc)

lemma bpe_join:
  "ws \<noteq> [] \<Longrightarrow> \<forall>w \<in> set ws. \<forall>x \<in> set w. x \<noteq> (32::nat) \<Longrightarrow> \<not> ends_with (last ws) [64, 64] \<Longrightarrow>
   join [32] (fst (foldl (bpe_step [64, 64]) (acc, v) ws))
   = join [32] (acc @ [v @ replace [64, 64, 32] [] (join [32] ws)])"
proof (induction ws arbitrary: acc v)
  case (Cons w ws)
  show ?case
  proof (cases "ws = []")
    case True
    with Cons.prems show ?thesis by (simp add: bpe_step_simps replace_no_space)
  next
    case ne: False
    have IH: "join [32] (fst (foldl (bpe_step [64, 64]) (a, b) ws))
        = join [32] (a @ [b @ replace [64, 64, 32] [] (join [32] ws)])" for a b
      using Cons.IH[of a b] Cons.prems ne by simp
    show ?thesis
    proof (cases "ends_with w [64, 64]")
      case True
      then obtain p where p: "w = p @ [64, 64]" by (auto simp: ends_with_iff)
      have "replace [64, 64, 32] [] (join [32] (w # ws)) = p @ replace [64, 64, 32] [] (join [32] ws)"
        using replace_continued[of p "join [32] ws"] Cons.prems(2) ne by (simp add: join_Cons p)
      then show ?thesis using IH[of acc "v @ p"] by (simp add: p bpe_step_simps)
    next
      case False
      have "replace [64, 64, 32] [] (join [32] (w # ws)) = w @ 32 # replace [64, 64, 32] [] (join [32] ws)"
        using replace_ended[OF _ False] Cons.prems(2) ne by (simp add: join_Cons)
      then show ?thesis
        using IH[of "acc @ [v @ w]" "[]"] False join_insert_space[of 32 acc "v @ w"]
        by (simp add: bpe_step_simps)
    qed
  qed
qed simp

section \<open>UTF-8 and the delimiter\<close>

declare utf8.encode_Nil [simp]

lemma utf8_encode_snoc: "utf8_encode (s @ [c]) = utf8_encode s @ map char_of (enc1 c)"
  by (simp add: utf8_encode_def)

lemma enc1_last: "scalar c \<Longrightarrow> last (enc1 c) = (if c < 128 then c else 128 + c mod 64)"
  by (simp add: enc1_def)

lemma enc1_nonempty [simp]: "enc1 c \<noteq> []"
  by (simp add: enc1_def)

lemma utf8_last_ascii:
  assumes "scalar c" "b < 128"
  shows "last (utf8_encode (s @ [c])) = char_of b \<longleftrightarrow> c = b"
proof -
  have "last (utf8_encode (s @ [c])) = char_of (last (enc1 c))"
    by (simp add: utf8_encode_snoc last_map)
  moreover have "char_of (last (enc1 c)) = char_of b \<longleftrightarrow> last (enc1 c) = b"
  proof
    assume "char_of (last (enc1 c)) = char_of b"
    then have "of_char (char_of (last (enc1 c))) = (of_char (char_of b) :: nat)" by simp
    then show "last (enc1 c) = b"
      using assms(2) enc1_bytes[OF assms(1), of "last (enc1 c)"] by simp
  qed simp
  ultimately show ?thesis using enc1_last[OF assms(1)] assms(2) by auto
qed

lemma char_of_numerals: "char_of (64::nat) = CHR ''@''" "char_of (32::nat) = CHR '' ''"
  by (code_simp, code_simp)

lemma utf8_encode_at: "utf8_encode [64] = ''@''" "utf8_encode [64, 64] = ''@@''"
    "utf8_encode [32] = '' ''"
  by (simp_all add: utf8_encode_def enc1_def char_of_numerals)

lemma utf8_encode_Nil_iff [simp]: "utf8_encode s = [] \<longleftrightarrow> s = []"
  by (cases s) (simp_all add: utf8_encode_def)

lemma utf8_ends_at:
  assumes "encodable s"
  shows "ends_with (utf8_encode s) ''@@'' \<longleftrightarrow> ends_with s [64, 64]"
proof
  assume "ends_with s [64, 64]"
  then obtain p where "s = p @ [64, 64]" by (auto simp: ends_with_iff)
  then show "ends_with (utf8_encode s) ''@@''"
    by (auto simp: ends_with_iff utf8.encode_append utf8_encode_at)
next
  assume "ends_with (utf8_encode s) ''@@''"
  then obtain b where b: "utf8_encode s = b @ ''@@''" by (auto simp: ends_with_iff)
  obtain s1 c1 where s1: "s = s1 @ [c1]" using b by (cases s rule: rev_cases) auto
  with assms have c1: "scalar c1" "encodable s1" by (auto simp: encodable_def)
  have "last (utf8_encode (s1 @ [c1])) = char_of (64::nat)" using b s1 by (simp add: char_of_numerals)
  then have "c1 = 64" using utf8_last_ascii[OF c1(1), of 64 s1] by simp
  with b s1 have b1: "utf8_encode s1 = b @ ''@''"
    by (simp add: utf8.encode_append utf8_encode_at)
  obtain s2 c2 where s2: "s1 = s2 @ [c2]" using b1 by (cases s1 rule: rev_cases) auto
  with c1(2) have c2: "scalar c2" by (auto simp: encodable_def)
  have "last (utf8_encode (s2 @ [c2])) = char_of (64::nat)" using b1 s2 by (simp add: char_of_numerals)
  then have "c2 = 64" using utf8_last_ascii[OF c2, of 64 s2] by simp
  with s1 s2 \<open>c1 = 64\<close> show "ends_with s [64, 64]" by (simp add: ends_with_iff)
qed

lemma bpe_step_encode:
  assumes "encodable s"
  shows "bpe_step ''@@'' (map utf8_encode ws, utf8_encode w) (utf8_encode s)
    = (case bpe_step [64, 64] (ws, w) s of (ws', w') \<Rightarrow> (map utf8_encode ws', utf8_encode w'))"
proof (cases "ends_with s [64, 64]")
  case True
  then obtain p where "s = p @ [64, 64]" by (auto simp: ends_with_iff)
  then show ?thesis by (simp add: bpe_step_simps utf8.encode_append utf8_encode_at)
next
  case False
  then show ?thesis
    using utf8_ends_at[OF assms] by (simp add: bpe_step_simps utf8.encode_append)
qed

lemma bpe_loop_encode:
  "\<forall>s \<in> set ss. encodable s \<Longrightarrow>
   foldl (bpe_step ''@@'') (map utf8_encode ws, utf8_encode w) (map utf8_encode ss)
   = (case foldl (bpe_step [64, 64]) (ws, w) ss of (ws', w') \<Rightarrow> (map utf8_encode ws', utf8_encode w'))"
proof (induction ss arbitrary: ws w)
  case (Cons s ss)
  then show ?case
    by (cases "bpe_step [64, 64] (ws, w) s") (simp add: bpe_step_encode)
qed simp

lemma format_bpe_encode:
  "\<forall>s \<in> set ss. encodable s \<Longrightarrow>
   format_bpe_text (map utf8_encode ss) ''@@''
   = utf8_encode (join [32] (fst (foldl (bpe_step [64, 64]) ([], []) ss)))"
  using bpe_loop_encode[of ss "[]" "[]"]
  by (simp add: format_bpe_text_def utf8.encode_join utf8_encode_at case_prod_beta)

section \<open>White space and the sentence-piece marker\<close>

lemma split_ws_concat: "concat (split_ws s) = filter (\<lambda>c. \<not> is_space c) s"
proof -
  have "concat (filter (\<lambda>w. w \<noteq> []) wss) = concat wss" for wss :: "pystr list"
    by (induction wss) auto
  then show ?thesis by (simp add: split_ws_def split_by_concat)
qed

lemma filter_strip: "filter (\<lambda>c. \<not> is_space c) (strip s) = filter (\<lambda>c. \<not> is_space c) s"
proof -
  have "filter (\<lambda>c. \<not> p c) (dropWhile p xs) = filter (\<lambda>c. \<not> p c) xs" for p and xs :: "nat list"
    by (induction xs) auto
  then have "filter (\<lambda>c. \<not> is_space c) (lstrip t) = filter (\<lambda>c. \<not> is_space c) t"
    "filter (\<lambda>c. \<not> is_space c) (rstrip t) = filter (\<lambda>c. \<not> is_space c) t" for t
    by (simp_all add: lstrip_def rstrip_def rev_filter[symmetric])
  then show ?thesis by (simp add: strip_def)
qed

lemma strip_join_symbols: "bpe_symbols ws \<Longrightarrow> strip (join [32] ws) = join [32] ws"
proof -
  assume b: "bpe_symbols ws"
  obtain w vs where ws: "ws = w # vs" using b by (cases ws) (auto simp: bpe_symbols_def)
  obtain us v where us: "ws = us @ [v]" using b by (cases ws rule: rev_cases) (auto simp: bpe_symbols_def)
  have "w \<in> set ws" by (simp add: ws)
  moreover have "v \<in> set ws" by (simp add: us)
  ultimately have "w \<in> set ws" "v \<in> set ws" .
  then have "w \<noteq> []" "v \<noteq> []" "\<not> is_space (hd w)" "\<not> is_space (last v)"
    using b by (auto simp: bpe_symbols_def)
  moreover have "hd (join [32] ws) = hd w"
    using ws \<open>w \<noteq> []\<close> by (cases "vs = []") (simp_all add: join_Cons)
  moreover have "last (join [32] ws) = last v"
    using us \<open>v \<noteq> []\<close> by (cases "us = []") (simp_all add: join_snoc)
  ultimately show ?thesis by (intro strip_id) simp
qed

section \<open>Properties\<close>

text \<open>
  C31. Two independent BPE decoders agree: for non-empty symbols without white space of
  which the last one is not a continuation, decoding the symbols with
  \<open>format_bpe_text\<close> gives, as text, exactly what \<open>_clean\<close> makes of the same symbols
  written as one space-separated line.
\<close>

theorem bpe_decoders_agree:
  assumes "bpe_symbols ws" and "\<forall>w \<in> set ws. encodable w"
  shows "utf8_decode (format_bpe_text (map utf8_encode ws) ''@@'')
    = Inr (clean (join [32] ws) (Some (u ''bpe'')))"
proof -
  have ns: "ws \<noteq> []" "\<forall>w \<in> set ws. \<forall>x \<in> set w. x \<noteq> 32" "\<not> ends_with (last ws) [64, 64]"
    using assms(1) is_space_32 by (auto simp: bpe_symbols_def simp del: is_space_32)
  let ?t = "replace [64, 64, 32] [] (join [32] ws)"
  have eq: "format_bpe_text (map utf8_encode ws) ''@@'' = utf8_encode ?t"
    using format_bpe_encode[OF assms(2)] bpe_join[OF ns, of "[]" "[]"] by simp
  have "encodable (join [32] ws)"
    using assms(2) by (intro utf8.encodable_join) (auto simp: encodable_def scalar_def)
  moreover have "set ?t \<subseteq> set (join [32] ws)"
    using set_replace[of "[64, 64, 32]" "[]" "join [32] ws"] by simp
  ultimately have "encodable ?t" unfolding encodable_def by blast
  moreover have "clean (join [32] ws) (Some (u ''bpe'')) = ?t"
    using strip_join_symbols[OF assms(1)] by (simp add: clean_def u_def)
  ultimately show ?thesis by (simp add: eq utf8.decode_encode)
qed

theorem bpe_decoders_agree_witness:
  "utf8_decode (format_bpe_text (map utf8_encode [u ''lo@@'', u ''w'', u ''er'']) ''@@'')
    = Inr (clean (join [32] [u ''lo@@'', u ''w'', u ''er'']) (Some (u ''bpe'')))"
  by (rule bpe_decoders_agree)
     (simp_all add: bpe_symbols_def encodable_def u_def is_space_def ends_with_def scalar_def)

text \<open>
  A trailing unfinished word is lost: continuation symbols at the end of the sequence
  never reach the output of \<open>format_bpe_text\<close>, whatever the delimiter, because the word
  collected so far is only emitted by a symbol that ends it.
\<close>

theorem format_bpe_drops_trailing_continuation:
  assumes "delim \<noteq> []" and "\<forall>s \<in> set conts. \<exists>p. s = p @ delim"
  shows "format_bpe_text (ws @ conts) delim = format_bpe_text ws delim"
proof -
  obtain words word where "foldl (bpe_step delim) ([], []) ws = (words, word)"
    by (cases "foldl (bpe_step delim) ([], []) ws")
  then show ?thesis
    using bpe_trailing[OF assms(1), of conts words word] assms(2)
    by (simp add: format_bpe_text_def ends_with_iff)
qed

theorem format_bpe_drops_trailing_continuation_witness:
  "format_bpe_text ([''a''] @ [''lo@@'', ''w@@'']) ''@@'' = format_bpe_text [''a''] ''@@''"
  by (rule format_bpe_drops_trailing_continuation) (auto intro: exI[of _ "''lo''"] exI[of _ "''w''"])

text \<open>
  The two sentence-piece decoders agree up to trailing white space: \<open>format_spm_text\<close>
  of encodable symbols is the encoding of what \<open>_clean\<close> makes of the joined line, with
  white space removed from its right end.
\<close>

theorem spm_decoders_agree:
  assumes "\<forall>w \<in> set ws. encodable w"
  shows "format_spm_text (map utf8_encode ws)
    = Inr (utf8_encode (rstrip (clean (join [32] ws) (Some (u ''spm'')))))"
proof -
  have "format_text (map utf8_encode ws) = utf8_encode (join [32] ws)"
    by (simp add: format_text_def utf8.encode_join utf8_encode_at)
  moreover have "encodable (join [32] ws)"
    using assms by (intro utf8.encodable_join) (auto simp: encodable_def scalar_def)
  ultimately have "format_spm_text (map utf8_encode ws)
    = Inr (utf8_encode (strip (replace [9601] [32] (concat (split_ws (join [32] ws))))))"
    by (simp add: format_spm_text_def utf8.decode_encode)
  moreover have "concat (split_ws (strip s)) = concat (split_ws s)" for s
    by (simp add: split_ws_concat filter_strip)
  ultimately show ?thesis by (simp add: clean_def strip_def)
qed

theorem spm_decoders_agree_witness:
  "format_spm_text (map utf8_encode [[9601, 104], [105]])
    = Inr (utf8_encode (rstrip (clean (join [32] [[9601, 104], [105]]) (Some (u ''spm'')))))"
  by (rule spm_decoders_agree) (simp add: encodable_def scalar_def)

text \<open>
  C32. Plain decoding is reversible up to the end of sentence: for a selected row of tokens
  without spaces whose end symbol is not the first token, splitting the translation at
  spaces gives back exactly the tokens before the first end symbol.
\<close>

theorem get_translation_roundtrip:
  assumes "0 \<le> i" "i < int (length outputs)" and "eos \<noteq> []"
    and "opt \<noteq> Some (u ''bpe'')" "opt \<noteq> Some (u ''spm'')"
    and "\<forall>w \<in> set (outputs ! nat i). CHR '' '' \<notin> set w"
    and "takeWhile (\<lambda>w. w \<noteq> utf8_encode eos) (outputs ! nat i) \<noteq> []"
  shows "\<exists>t. get_translation outputs i (Some eos) opt = Inr t
    \<and> split_on (CHR '' '') t = takeWhile (\<lambda>w. w \<noteq> utf8_encode eos) (outputs ! nat i)"
proof -
  let ?row = "outputs ! nat i"
  let ?cut = "takeWhile (\<lambda>w. w \<noteq> utf8_encode eos) ?row"
  have "cut_at_eos (utf8_encode eos) ?row = ?cut"
    by (auto simp: cut_at_eos_def takeWhile_eq_all_conv[THEN iffD2, symmetric] simp del: takeWhile_eq_all_conv
        intro: takeWhile_eq_all_conv[THEN iffD2, symmetric])
  then have "get_translation outputs i (Some eos) opt = Inr (join '' '' ?cut)"
    using assms(1-5) by (simp add: get_translation_def list_get_def truthy_def format_text_def)
  moreover have "split_on (CHR '' '') (join '' '' ?cut) = ?cut"
    by (rule split_on_join) (use assms(6,7) in \<open>auto dest: set_takeWhileD\<close>)
  ultimately show ?thesis by blast
qed

theorem get_translation_roundtrip_witness:
  "\<exists>t. get_translation [[''a'', ''b'', ''</s>'', ''c'']] 0 (Some (u ''</s>'')) None = Inr t
    \<and> split_on (CHR '' '') t
      = takeWhile (\<lambda>w. w \<noteq> utf8_encode (u ''</s>'')) ([[''a'', ''b'', ''</s>'', ''c'']] ! nat 0)"
proof (rule get_translation_roundtrip)
  have "utf8_encode (u ''</s>'') = ''</s>''" by code_simp
  then show "takeWhile (\<lambda>w. w \<noteq> utf8_encode (u ''</s>'')) ([[''a'', ''b'', ''</s>'', ''c'']] ! nat 0) \<noteq> []"
    by simp
qed simp_all

end
