(* ===== verification/VocabUtils.thy ===== *)
theory VocabUtils
  imports Files Formatting
begin

text \<open>
  \<open>nmt/utils/vocab_utils.py\<close>: the special tokens, \<open>load_vocab\<close>, \<open>check_vocab\<close> (which
  writes a new vocabulary file when the special tokens are missing) and
  \<open>load_embed_txt\<close>. Files are the parameter \<open>G\<close>; Python's \<open>int\<close> and \<open>float\<close> of a
  string are the parameters \<open>parse_int\<close> and \<open>parse_float\<close> of \<open>load_embed_txt\<close>.
\<close>

definition UNK :: pystr where "UNK = u ''<unk>''"
definition SOS :: pystr where "SOS = u ''<s>''"
definition EOS :: pystr where "EOS = u ''</s>''"

definition UNK_ID :: int where "UNK_ID = 0"

section \<open>Vocabulary files\<close>

definition load_vocab :: "'w gfile \<Rightarrow> 'w \<Rightarrow> pystr \<Rightarrow> (pystr list \<times> nat) res" where
  "load_vocab G w vocab_file =
     bindE (read_text G w vocab_file) (\<lambda>f.
     Inr (foldl (\<lambda>(vocab, vocab_size) word. (vocab @ [strip word], vocab_size + 1))
            ([], 0) (splitlines_keep f)))"

definition or_default :: "pystr option \<Rightarrow> pystr \<Rightarrow> pystr" where
  "or_default s d = (if truthy s then the s else d)"

definition vocab_text :: "pystr list \<Rightarrow> pystr" where
  "vocab_text vocab = concat (map (\<lambda>word. word @ [10]) vocab)"

definition check_vocab ::
    "'w gfile \<Rightarrow> 'w \<Rightarrow> pystr \<Rightarrow> pystr \<Rightarrow> bool \<Rightarrow> pystr option \<Rightarrow> pystr option \<Rightarrow> pystr option
     \<Rightarrow> ((nat \<times> pystr) \<times> 'w) res" where
  "check_vocab G w vocab_file out_dir check_special_token sos eos unk =
     (if gf_exists G w vocab_file
      then bindE (load_vocab G w vocab_file) (\<lambda>(vocab, vocab_size).
        if check_special_token
        then let unk = or_default unk UNK; sos = or_default sos SOS; eos = or_default eos EOS
             in bindE (assertE (length vocab \<ge> 3)) (\<lambda>_.
                if vocab ! 0 \<noteq> unk \<or> vocab ! 1 \<noteq> sos \<or> vocab ! 2 \<noteq> eos
                then let vocab = [unk, sos, eos] @ vocab;
                         new_vocab_file = path_join out_dir (basename vocab_file)
                     in bindE (write_text G w new_vocab_file (vocab_text vocab)) (\<lambda>w.
                        Inr ((length vocab, new_vocab_file), w))
                else Inr ((length vocab, vocab_file), w))
        else Inr ((length vocab, vocab_file), w))
      else Inl ValueError)"

lemma load_vocab_eq:
  "load_vocab G w p = bindE (read_text G w p) (\<lambda>f.
     Inr (map strip (splitlines_keep f), length (splitlines_keep f)))"
proof -
  have "foldl (\<lambda>(vocab, vocab_size) word. (vocab @ [strip word], vocab_size + 1)) (v, n) ls
      = (v @ map strip ls, n + length ls)" for v n ls
    by (induction ls arbitrary: v n) auto
  then show ?thesis by (simp add: load_vocab_def)
qed

text \<open>A word as it can stand on a line: stripped, and without a line boundary inside.\<close>

definition line_word :: "pystr \<Rightarrow> bool" where
  "line_word s \<longleftrightarrow> strip s = s \<and> (\<forall>c \<in> set s. \<not> is_eol c)"

lemma line_tail:
  "l \<in> set (splitlines_keep s) \<Longrightarrow> \<forall>c \<in> set (dropWhile (\<lambda>c. \<not> is_eol c) l). is_eol c"
proof (induction s arbitrary: l rule: splitlines_keep.induct)
  case (2 c cs)
  consider (crlf) "c = 13 \<and> cs \<noteq> [] \<and> hd cs = 10"
    | (eol) "\<not> (c = 13 \<and> cs \<noteq> [] \<and> hd cs = 10)" "is_eol c"
    | (char) "\<not> (c = 13 \<and> cs \<noteq> [] \<and> hd cs = 10)" "\<not> is_eol c" by blast
  then show ?case
  proof cases
    case crlf
    with "2.prems" "2.IH"(1)[OF crlf, of l] show ?thesis
      unfolding splitlines_keep.simps(2) if_P[OF crlf] by (auto simp: is_eol_def)
  next
    case eol
    with "2.prems" "2.IH"(2)[OF eol, of l] show ?thesis
      unfolding splitlines_keep.simps(2) if_not_P[OF eol(1)] if_P[OF eol(2)] by auto
  next
    case char
    with "2.prems" "2.IH"(3)[OF char] show ?thesis
      unfolding splitlines_keep.simps(2) if_not_P[OF char(1)] if_not_P[OF char(2)]
      by (cases "splitlines_keep cs") (auto, blast+)
  qed
qed simp

lemma line_body:
  assumes "l \<in> set (splitlines_keep s)"
  shows "\<exists>b e. l = b @ e \<and> (\<forall>c \<in> set b. \<not> is_eol c) \<and> (\<forall>c \<in> set e. is_eol c)"
proof (intro exI conjI)
  show "l = takeWhile (\<lambda>c. \<not> is_eol c) l @ dropWhile (\<lambda>c. \<not> is_eol c) l" by simp
  show "\<forall>c \<in> set (takeWhile (\<lambda>c. \<not> is_eol c) l). \<not> is_eol c" by (auto dest: set_takeWhileD)
qed (rule line_tail[OF assms])

lemma strip_append_spaces:
  assumes "\<forall>c \<in> set e. is_space c"
  shows "strip (b @ e) = strip b"
proof -
  have r: "rstrip (s @ e) = rstrip s" for s
    using assms by (simp add: rstrip_def dropWhile_append)
  show ?thesis
  proof (cases "\<forall>c \<in> set b. is_space c")
    case True
    with assms have "lstrip (b @ e) = []" "lstrip b = []" by (auto simp: lstrip_def)
    then show ?thesis by (simp add: strip_def)
  next
    case False
    then have "lstrip (b @ e) = lstrip b @ e" by (auto simp: lstrip_def dropWhile_append)
    then show ?thesis by (simp add: strip_def r)
  qed
qed

lemma set_strip: "set (strip s) \<subseteq> set s"
  by (auto simp: strip_def lstrip_def rstrip_def dest!: set_dropWhileD)

lemma strip_line_word: "l \<in> set (splitlines_keep s) \<Longrightarrow> line_word (strip l)"
proof -
  assume "l \<in> set (splitlines_keep s)"
  then obtain b e where be: "l = b @ e" "\<forall>c \<in> set b. \<not> is_eol c" "\<forall>c \<in> set e. is_eol c"
    using line_body by blast
  then have "strip l = strip b" by (auto intro!: strip_append_spaces is_eol_space)
  with be(2) set_strip[of b] show ?thesis by (auto simp: line_word_def)
qed

lemma vocab_text_lines:
  "\<forall>w \<in> set ws. line_word w \<Longrightarrow> map strip (splitlines_keep (vocab_text ws)) = ws"
  by (auto simp: vocab_text_def splitlines_keep_lines line_word_def intro!: map_idI strip_line)

text \<open>What \<open>check_vocab\<close> guarantees of the file it returns.\<close>

definition special_first :: "pystr \<Rightarrow> pystr \<Rightarrow> pystr \<Rightarrow> pystr list \<Rightarrow> bool" where
  "special_first unk sos eos vocab \<longleftrightarrow>
     length vocab \<ge> 3 \<and> vocab ! 0 = unk \<and> vocab ! 1 = sos \<and> vocab ! 2 = eos"

lemma special_first_prepend [simp]: "special_first a b c ([a, b, c] @ v)"
  by (simp add: special_first_def)

context gfile_laws
begin

lemma load_saved_vocab:
  assumes "write_text G w p (vocab_text ws) = Inr w'" "\<forall>x \<in> set ws. line_word x"
  shows "load_vocab G w' p = Inr (ws, length ws)"
proof -
  have m: "map strip (splitlines_keep (vocab_text ws)) = ws"
    by (rule vocab_text_lines[OF assms(2)])
  then have "length (splitlines_keep (vocab_text ws)) = length ws"
    by (metis length_map)
  with m text_written[OF assms(1)] show ?thesis by (simp add: load_vocab_eq)
qed

lemma check_vocab_special:
  assumes "check_vocab G w file out_dir True sos eos unk = Inr ((n, file'), w')"
    and "line_word (or_default unk UNK)" "line_word (or_default sos SOS)" "line_word (or_default eos EOS)"
  shows "\<exists>vocab. load_vocab G w' file' = Inr (vocab, n) \<and> length vocab = n \<and> gf_exists G w' file'
    \<and> special_first (or_default unk UNK) (or_default sos SOS) (or_default eos EOS) vocab"
proof -
  let ?sp = "[or_default unk UNK, or_default sos SOS, or_default eos EOS]"
  from assms(1) obtain t where t: "gf_exists G w file" "read_text G w file = Inr t"
    by (auto simp: check_vocab_def load_vocab_eq bindE_Inr_iff split: if_splits)
  define v where "v = map strip (splitlines_keep t)"
  have lv: "load_vocab G w file = Inr (v, length v)"
    using t by (simp add: load_vocab_eq v_def)
  have v: "\<forall>x \<in> set v. line_word x" by (auto simp: v_def strip_line_word)
  show ?thesis
  proof (cases "special_first (or_default unk UNK) (or_default sos SOS) (or_default eos EOS) v")
    case True
    with assms(1) t lv have "file' = file" "w' = w" "n = length v"
      by (auto simp: check_vocab_def special_first_def)
    with True t lv show ?thesis by auto
  next
    case False
    with assms(1) t(1) lv have len: "length v \<ge> 3"
      by (cases "length v \<ge> 3") (simp_all add: check_vocab_def Let_def)
    with False have neq: "(v ! 0 \<noteq> ?sp ! 0 \<or> v ! 1 \<noteq> ?sp ! 1 \<or> v ! 2 \<noteq> ?sp ! 2) = True"
      by (simp add: special_first_def)
    from assms(1) t(1) lv len neq have
      "bindE (write_text G w (path_join out_dir (basename file)) (vocab_text (?sp @ v)))
         (\<lambda>w. Inr ((length (?sp @ v), path_join out_dir (basename file)), w)) = Inr ((n, file'), w')"
      by (simp add: check_vocab_def Let_def)
    then obtain w1 where
      w1: "write_text G w (path_join out_dir (basename file)) (vocab_text (?sp @ v)) = Inr w1"
      and eq: "file' = path_join out_dir (basename file)" "w' = w1" "n = length (?sp @ v)"
      by (cases "write_text G w (path_join out_dir (basename file)) (vocab_text (?sp @ v))") simp_all
    have "\<forall>x \<in> set (?sp @ v). line_word x" using v assms(2-4) by auto
    from load_saved_vocab[OF w1 this] written_exists[OF w1] eq show ?thesis
      by (intro exI[of _ "?sp @ v"]) (simp only: special_first_prepend simp_thms)
  qed
qed

lemma check_vocab_again:
  assumes "load_vocab G w file = Inr (vocab, n)" "length vocab = n" "gf_exists G w file"
    and "special_first (or_default unk UNK) (or_default sos SOS) (or_default eos EOS) vocab"
  shows "check_vocab G w file out_dir True sos eos unk = Inr ((n, file), w)"
  using assms by (simp add: check_vocab_def special_first_def Let_def)

end

section \<open>The properties of check_vocab\<close>

text \<open>
  C12. The vocabulary that \<open>check_vocab\<close> hands to training is well formed: when it succeeds
  with special tokens that can stand on a line, the returned file exists, \<open>load_vocab\<close> of it
  succeeds with exactly the returned number of words, and its first three words are the
  unknown, start and end symbols, whether the file was kept or written anew.
\<close>

theorem check_vocab_well_formed:
  assumes "gfile_laws G"
    and "check_vocab G w file out_dir True sos eos unk = Inr ((n, file'), w')"
    and "line_word (or_default unk UNK)" "line_word (or_default sos SOS)" "line_word (or_default eos EOS)"
  shows "\<exists>vocab. load_vocab G w' file' = Inr (vocab, n) \<and> length vocab = n \<and> gf_exists G w' file'
    \<and> special_first (or_default unk UNK) (or_default sos SOS) (or_default eos EOS) vocab"
  by (rule gfile_laws.check_vocab_special[OF assms])

text \<open>
  \<open>check_vocab\<close> is idempotent: run again on the file it returned, it writes nothing and
  returns the same size and the same file. So restarting a training job does not prepend the
  special tokens a second time.
\<close>

theorem check_vocab_idempotent:
  assumes "gfile_laws G"
    and "check_vocab G w file out_dir True sos eos unk = Inr ((n, file'), w')"
    and "line_word (or_default unk UNK)" "line_word (or_default sos SOS)" "line_word (or_default eos EOS)"
  shows "check_vocab G w' file' out_dir' True sos eos unk = Inr ((n, file'), w')"
proof -
  from gfile_laws.check_vocab_special[OF assms] obtain vocab where
    "load_vocab G w' file' = Inr (vocab, n)" "length vocab = n" "gf_exists G w' file'"
    "special_first (or_default unk UNK) (or_default sos SOS) (or_default eos EOS) vocab"
    by (elim exE conjE)
  then show ?thesis by (rule gfile_laws.check_vocab_again[OF assms(1)])
qed

text \<open>
  The errors of \<open>check_vocab\<close>, on a readable file system: a missing file raises
  \<open>ValueError\<close>; an existing file with fewer than three lines fails the assertion exactly when
  special tokens are asked for; and without that request it succeeds with the number of lines
  and writes nothing.
\<close>

theorem check_vocab_errors:
  assumes "gf_exists G w file \<Longrightarrow> read_text G w file = Inr t"
  shows "check_vocab G w file out_dir special sos eos unk =
    (if \<not> gf_exists G w file then Inl ValueError
     else if \<not> special then Inr ((length (splitlines_keep t), file), w)
     else if length (splitlines_keep t) < 3 then Inl AssertionError
     else check_vocab G w file out_dir True sos eos unk)"
  using assms by (cases "length (splitlines_keep t) < 3")
    (auto simp: check_vocab_def load_vocab_eq assertE_def)

definition sample_vocab_fs :: dict_fs where
  "sample_vocab_fs = [u ''v/vocab.en'' \<mapsto> utf8_encode [97, 10, 98, 10, 99, 10]]"

lemma sample_vocab_read: "read_text dict_gfile sample_vocab_fs (u ''v/vocab.en'') = Inr [97, 10, 98, 10, 99, 10]"
  by (rule dict_read_encoded) (simp_all add: sample_vocab_fs_def encodable_def scalar_def)

lemma special_line_words: "line_word UNK" "line_word SOS" "line_word EOS"
  by (simp_all add: line_word_def UNK_def SOS_def EOS_def u_def strip_def lstrip_def rstrip_def
      is_space_def is_eol_def)

lemma or_default_None [simp]: "or_default None d = d"
  by (simp add: or_default_def truthy_def)

lemma default_line_words:
  "line_word (or_default None UNK)" "line_word (or_default None SOS)" "line_word (or_default None EOS)"
  unfolding or_default_None by (fact special_line_words)+

definition sample_vocab_fs' :: dict_fs where
  "sample_vocab_fs' = sample_vocab_fs(u ''o/vocab.en'' \<mapsto> utf8_encode (vocab_text [UNK, SOS, EOS, u ''a'', u ''b'', u ''c'']))"

lemma sample_check_vocab:
  "check_vocab dict_gfile sample_vocab_fs (u ''v/vocab.en'') (u ''o'') True None None None
    = Inr ((6, u ''o/vocab.en''),
        sample_vocab_fs')"
proof -
  have ex: "gf_exists dict_gfile sample_vocab_fs (u ''v/vocab.en'')"
    by (simp add: dict_gfile_text sample_vocab_fs_def)
  have "map strip (splitlines_keep [97, 10, 98, 10, 99, 10]) = [u ''a'', u ''b'', u ''c'']"
    "length (splitlines_keep [97, 10, 98, 10, 99, 10]) = 3"
    by (simp_all add: is_eol_def strip_def lstrip_def rstrip_def is_space_def u_def)
  then have lv: "load_vocab dict_gfile sample_vocab_fs (u ''v/vocab.en'') = Inr ([u ''a'', u ''b'', u ''c''], 3)"
    by (simp add: load_vocab_eq sample_vocab_read)
  have p: "path_join (u ''o'') (basename (u ''v/vocab.en'')) = u ''o/vocab.en''"
    by (simp add: path_join_def basename_def u_def)
  have ne: "u ''a'' \<noteq> UNK" by (simp add: UNK_def)
  have enc: "encodable (vocab_text [UNK, SOS, EOS, u ''a'', u ''b'', u ''c''])"
    by (simp add: encodable_def vocab_text_def UNK_def SOS_def EOS_def u_def scalar_def)
  show ?thesis
    using ex lv p ne enc by (simp add: check_vocab_def dict_gfile_text(2) sample_vocab_fs'_def Let_def eval_nat_numeral)
qed

theorem check_vocab_well_formed_witness:
  "\<exists>vocab. load_vocab dict_gfile
        sample_vocab_fs'
        (u ''o/vocab.en'') = Inr (vocab, 6) \<and> length vocab = 6
      \<and> gf_exists dict_gfile
          sample_vocab_fs'
          (u ''o/vocab.en'')
      \<and> special_first (or_default None UNK) (or_default None SOS) (or_default None EOS) vocab"
  by (fact check_vocab_well_formed[OF dict_files.gfile_laws_axioms sample_check_vocab default_line_words])

theorem check_vocab_idempotent_witness:
  "check_vocab dict_gfile
      sample_vocab_fs'
      (u ''o/vocab.en'') (u ''elsewhere'') True None None None
    = Inr ((6, u ''o/vocab.en''),
        sample_vocab_fs')"
  by (fact check_vocab_idempotent[OF dict_files.gfile_laws_axioms sample_check_vocab default_line_words])

theorem check_vocab_errors_witness:
  "check_vocab dict_gfile Map.empty (u ''v'') (u ''o'') True None None None =
    (if \<not> gf_exists dict_gfile Map.empty (u ''v'') then Inl ValueError
     else if \<not> True then Inr ((length (splitlines_keep []), u ''v''), Map.empty)
     else if length (splitlines_keep []) < 3 then Inl AssertionError
     else check_vocab dict_gfile Map.empty (u ''v'') (u ''o'') True None None None)"
  by (rule check_vocab_errors) (simp add: dict_gfile_text)

section \<open>Embedding files\<close>

record 'f embed_state =
  emb_dict :: "pystr \<rightharpoonup> 'f list"
  emb_size :: "int option"
  is_first_line :: bool

definition embed_line ::
    "(pystr \<Rightarrow> int res) \<Rightarrow> (pystr \<Rightarrow> 'f res) \<Rightarrow> 'f embed_state \<Rightarrow> pystr \<Rightarrow> 'f embed_state res" where
  "embed_line parse_int parse_float st line =
     (let tokens = split_on 32 (rstrip line);
          first = is_first_line st;
          st = st\<lparr>is_first_line := False\<rparr>
      in if first \<and> length tokens = 2
         then bindE (parse_int (tokens ! 1)) (\<lambda>n. Inr (st\<lparr>emb_size := Some n\<rparr>))
         else let word = tokens ! 0
              in bindE (mapE parse_float (tl tokens)) (\<lambda>vec.
                 let st = st\<lparr>emb_dict := (emb_dict st)(word \<mapsto> vec)\<rparr>
                 in if emb_size st \<noteq> None \<and> emb_size st \<noteq> Some 0
                    then if emb_size st \<noteq> Some (int (length vec))
                         then Inr (st\<lparr>emb_dict := (emb_dict st)(word := None)\<rparr>)
                         else Inr st
                    else Inr (st\<lparr>emb_size := Some (int (length vec))\<rparr>)))"

definition load_embed_txt ::
    "'w gfile \<Rightarrow> (pystr \<Rightarrow> int res) \<Rightarrow> (pystr \<Rightarrow> 'f res) \<Rightarrow> 'w \<Rightarrow> pystr
     \<Rightarrow> ((pystr \<rightharpoonup> 'f list) \<times> int option) res" where
  "load_embed_txt G parse_int parse_float w embed_file =
     bindE (read_text G w embed_file) (\<lambda>f.
     bindE (foldE (embed_line parse_int parse_float)
              \<lparr>emb_dict = Map.empty, emb_size = None, is_first_line = True\<rparr> (splitlines_keep f)) (\<lambda>st.
     Inr (emb_dict st, emb_size st)))"

definition bare_word_line :: "pystr \<Rightarrow> bool" where
  "bare_word_line line \<longleftrightarrow> length (split_on 32 (rstrip line)) = 1"

definition embed_sizes :: "pystr list \<Rightarrow> 'f embed_state \<Rightarrow> bool" where
  "embed_sizes lines st \<longleftrightarrow>
     (is_first_line st \<longrightarrow> emb_dict st = Map.empty) \<and>
     (\<forall>word vec. emb_dict st word = Some vec \<longrightarrow>
        (vec \<noteq> [] \<longrightarrow> emb_size st = Some (int (length vec))) \<and>
        (vec = [] \<longrightarrow> (\<exists>line \<in> set lines. bare_word_line line)))"

lemma embed_line_sizes:
  assumes "embed_line parse_int parse_float st line = Inr st'" "embed_sizes lines st" "line \<in> set lines"
  shows "embed_sizes lines st'"
proof -
  let ?tokens = "split_on 32 (rstrip line)"
  show ?thesis
  proof (cases "is_first_line st \<and> length ?tokens = 2")
    case True
    with assms(1,2) show ?thesis
      by (auto simp: embed_line_def embed_sizes_def bindE_Inr_iff Let_def)
  next
    case False
    from assms(1) obtain vec where vec: "mapE parse_float (tl ?tokens) = Inr vec"
      by (auto simp: embed_line_def bindE_Inr_iff Let_def False)
    from mapE_length[OF vec] have len: "length vec = length ?tokens - 1" by simp
    have bare: "vec = [] \<Longrightarrow> \<exists>line \<in> set lines. bare_word_line line"
      using len split_on_nonempty[of 32 "rstrip line"]
      by (intro bexI[OF _ assms(3)]) (cases ?tokens, auto simp: bare_word_line_def)
    consider (first) "emb_size st = None \<or> emb_size st = Some 0"
      | (bad) n where "emb_size st = Some n" "n \<noteq> 0" "n \<noteq> int (length vec)"
      | (good) "emb_size st = Some (int (length vec))" "vec \<noteq> []" by (cases "emb_size st") force+
    then show ?thesis
    proof cases
      case first
      then have "st' = st\<lparr>is_first_line := False, emb_dict := (emb_dict st)(?tokens ! 0 \<mapsto> vec),
          emb_size := Some (int (length vec))\<rparr>"
        using assms(1) vec False by (auto simp: embed_line_def Let_def)
      with first assms(2) bare show ?thesis by (auto simp: embed_sizes_def)
    next
      case bad
      then have "st' = st\<lparr>is_first_line := False, emb_dict := (emb_dict st)(?tokens ! 0 := None)\<rparr>"
        using assms(1) vec False by (auto simp: embed_line_def Let_def)
      with bad assms(2) bare show ?thesis by (auto simp: embed_sizes_def)
    next
      case good
      then have "st' = st\<lparr>is_first_line := False, emb_dict := (emb_dict st)(?tokens ! 0 \<mapsto> vec)\<rparr>"
        using assms(1) vec False by (auto simp: embed_line_def Let_def)
      with good assms(2) bare show ?thesis by (auto simp: embed_sizes_def)
    qed
  qed
qed

lemma embed_file_sizes:
  assumes "read_text G w file = Inr text"
    and "load_embed_txt G parse_int parse_float w file = Inr (emb, dims)"
    and "emb word = Some vec"
  shows "if vec = [] then \<exists>line \<in> set (splitlines_keep text). bare_word_line line
    else dims = Some (int (length vec))"
proof -
  from assms(1,2) obtain st where
    st: "foldE (embed_line parse_int parse_float) \<lparr>emb_dict = Map.empty, emb_size = None, is_first_line = True\<rparr>
           (splitlines_keep text) = Inr st" "emb = emb_dict st" "dims = emb_size st"
    by (auto simp: load_embed_txt_def bindE_Inr_iff)
  have "embed_sizes (splitlines_keep text) st"
    by (rule foldE_invariant[OF st(1)]) (auto simp: embed_line_sizes, simp add: embed_sizes_def)
  with st assms(3) show ?thesis by (auto simp: embed_sizes_def)
qed

text \<open>
  The dictionary that \<open>load_embed_txt\<close> returns fits the size it returns: every vector with
  an entry has exactly the returned number of dimensions, and an empty vector is there only when
  some line of the file holds a word and nothing else (the size 0 it sets counts as unset, so
  the next line sets the size anew without removing the word).
\<close>

theorem load_embed_txt_sizes:
  assumes "read_text G w file = Inr text"
    and "load_embed_txt G parse_int parse_float w file = Inr (emb, dims)"
    and "emb word = Some vec"
  shows "if vec = [] then \<exists>line \<in> set (splitlines_keep text). bare_word_line line
    else dims = Some (int (length vec))"
  by (rule embed_file_sizes[OF assms])

definition digits_sum :: "pystr \<Rightarrow> int res" where
  "digits_sum s = Inr (int (sum_list (map (\<lambda>c. c - 48) s)))"

lemma sample_embed_read:
  "read_text dict_gfile [[101] \<mapsto> utf8_encode [97, 10, 98, 32, 49, 32, 50, 10]] [101]
    = Inr [97, 10, 98, 32, 49, 32, 50, 10]"
  by (rule dict_read_encoded) (simp_all add: encodable_def scalar_def)

lemma sample_embed_lines:
  "splitlines_keep [97, 10, 98, 32, 49, 32, 50, 10] = [[97, 10], [98, 32, 49, 32, 50, 10]]"
  by (simp add: is_eol_def)

theorem load_embed_txt_sizes_witness:
  "if [1, 2] = ([] :: int list) then \<exists>line \<in> set (splitlines_keep [97, 10, 98, 32, 49, 32, 50, 10]). bare_word_line line
    else Some 2 = Some (int (length [1, 2 :: int]))"
proof (rule load_embed_txt_sizes[OF sample_embed_read])
  show "load_embed_txt dict_gfile digits_sum digits_sum [[101] \<mapsto> utf8_encode [97, 10, 98, 32, 49, 32, 50, 10]] [101]
    = Inr ([[97] \<mapsto> [], [98] \<mapsto> [1, 2]], Some 2)"
    by (simp add: load_embed_txt_def sample_embed_read sample_embed_lines embed_line_def Let_def
        rstrip_def is_space_def is_eol_def split_on_def digits_sum_def)
qed simp

section \<open>Words as byte ids\<close>

definition BOS_CHAR_ID :: int where "BOS_CHAR_ID = 256"
definition EOS_CHAR_ID :: int where "EOS_CHAR_ID = 257"
definition BOW_CHAR_ID :: int where "BOW_CHAR_ID = 258"
definition EOW_CHAR_ID :: int where "EOW_CHAR_ID = 259"
definition PAD_CHAR_ID :: int where "PAD_CHAR_ID = 260"
definition DEFAULT_CHAR_MAXLEN :: int where "DEFAULT_CHAR_MAXLEN = 50"

text \<open>
  The TensorFlow operations on one-dimensional \<open>int32\<close> tensors that \<open>_string_to_bytes\<close> calls
  are the parameter \<open>T\<close>; \<open>tensor_laws T view\<close> states their documented effect on the entries
  \<open>view t\<close> of a tensor.
\<close>

record 't tensor_ops =
  tf_decode_raw :: "bytes \<Rightarrow> 't"
  tf_slice_to :: "'t \<Rightarrow> int \<Rightarrow> 't"
  tf_shape0 :: "'t \<Rightarrow> int"
  tf_fill :: "int \<Rightarrow> int \<Rightarrow> 't res"
  tf_const :: "int list \<Rightarrow> 't"
  tf_concat :: "'t list \<Rightarrow> 't"
  tf_reshape :: "'t \<Rightarrow> int \<Rightarrow> 't res"
  tf_add :: "'t \<Rightarrow> int \<Rightarrow> 't"

definition tensor_laws :: "'t tensor_ops \<Rightarrow> ('t \<Rightarrow> int list) \<Rightarrow> bool" where
  "tensor_laws T view \<longleftrightarrow>
     (\<forall>b. view (tf_decode_raw T b) = map of_char b) \<and>
     (\<forall>t n. 0 \<le> n \<longrightarrow> view (tf_slice_to T t n) = take (nat n) (view t)) \<and>
     (\<forall>t. tf_shape0 T t = int (length (view t))) \<and>
     (\<forall>n v. 0 \<le> n \<longrightarrow> (\<exists>t. tf_fill T n v = Inr t \<and> view t = replicate (nat n) v)) \<and>
     (\<forall>xs. view (tf_const T xs) = xs) \<and>
     (\<forall>ts. view (tf_concat T ts) = concat (map view ts)) \<and>
     (\<forall>t n. int (length (view t)) = n \<longrightarrow> (\<exists>t'. tf_reshape T t n = Inr t' \<and> view t' = view t)) \<and>
     (\<forall>t k. view (tf_add T t k) = map (\<lambda>x. x + k) (view t))"

definition string_to_bytes :: "'t tensor_ops \<Rightarrow> bytes \<Rightarrow> int \<Rightarrow> 't res" where
  "string_to_bytes T text max_length =
     (let byte_ids = tf_decode_raw T text;
          byte_ids = tf_slice_to T byte_ids (max_length - 2)
      in bindE (tf_fill T (max_length - tf_shape0 T byte_ids - 2) PAD_CHAR_ID) (\<lambda>padding.
         let byte_ids = tf_concat T [tf_const T [BOW_CHAR_ID], byte_ids, tf_const T [EOW_CHAR_ID], padding]
         in bindE (tf_reshape T byte_ids max_length) (\<lambda>byte_ids.
            Inr (tf_add T byte_ids 1))))"

definition tokens_to_bytes :: "'t tensor_ops \<Rightarrow> bytes list \<Rightarrow> 't list res" where
  "tokens_to_bytes T tokens_flat =
     (let bytes_per_word = DEFAULT_CHAR_MAXLEN
      in mapE (\<lambda>x. string_to_bytes T x bytes_per_word) tokens_flat)"

definition byte_row :: "nat \<Rightarrow> bytes \<Rightarrow> int list" where
  "byte_row n text = map (\<lambda>x. x + 1)
     (BOW_CHAR_ID # map of_char (take (n - 2) text) @ EOW_CHAR_ID
       # replicate (n - 2 - length text) PAD_CHAR_ID)"

lemma string_to_bytes_row:
  assumes "tensor_laws T view" "2 \<le> n"
  shows "\<exists>t. string_to_bytes T text (int n) = Inr t \<and> view t = byte_row n text"
proof -
  note laws = assms(1)[unfolded tensor_laws_def]
  define ids where "ids = tf_slice_to T (tf_decode_raw T text) (int n - 2)"
  have nn: "nat (int n - 2) = n - 2" using assms(2) by simp
  have ids: "view ids = map of_char (take (n - 2) text)"
    using laws assms(2) by (simp add: ids_def nn take_map)
  have shp: "int n - tf_shape0 T ids - 2 = int (n - 2 - length text)"
    using laws ids assms(2) by simp
  from laws obtain pad where pad: "tf_fill T (int n - tf_shape0 T ids - 2) PAD_CHAR_ID = Inr pad"
    "view pad = replicate (n - 2 - length text) PAD_CHAR_ID"
    unfolding shp by (metis nat_int of_nat_0_le_iff)
  define row where "row = tf_concat T [tf_const T [BOW_CHAR_ID], ids, tf_const T [EOW_CHAR_ID], pad]"
  have row: "view row = BOW_CHAR_ID # map of_char (take (n - 2) text) @ EOW_CHAR_ID
       # replicate (n - 2 - length text) PAD_CHAR_ID"
    using laws ids pad(2) by (simp add: row_def)
  then have "int (length (view row)) = int n" using assms(2) by simp
  with laws obtain row' where row': "tf_reshape T row (int n) = Inr row'" "view row' = view row" by metis
  have "string_to_bytes T text (int n) = Inr (tf_add T row' 1)"
    using pad(1) row'(1) by (simp add: string_to_bytes_def Let_def ids_def row_def)
  with laws row row'(2) show ?thesis by (simp add: byte_row_def)
qed

lemma char_int_bounds [simp]:
  fixes c :: char
  shows "of_char c < (256 :: int)" "0 \<le> (of_char c :: int)" "of_char c \<le> (260 :: int)"
proof -
  show l: "of_char c < (256 :: int)"
    using of_char_mod_256[of c] by (metis pos_mod_bound zero_less_numeral)
  show "0 \<le> (of_char c :: int)"
    by (metis of_char_mod_256 pos_mod_sign zero_less_numeral)
  from l show "of_char c \<le> (260 :: int)" by linarith
qed

lemma byte_row_prefix:
  assumes "length a \<le> n - 2" "length b \<le> n - 2" "byte_row n a = byte_row n b"
  shows "a = b"
proof -
  define f where "f = (\<lambda>s :: bytes. map (of_char :: char \<Rightarrow> int) s)"
  have tw: "takeWhile (\<lambda>x. x < 256) (f s @ EOW_CHAR_ID # r) = f s" for s r
    by (induction s) (auto simp: f_def EOW_CHAR_ID_def)
  have "f a @ EOW_CHAR_ID # replicate (n - 2 - length a) PAD_CHAR_ID
      = f b @ EOW_CHAR_ID # replicate (n - 2 - length b) PAD_CHAR_ID"
    using assms by (auto simp: byte_row_def f_def inj_map_eq_map inj_on_def simp del: map_append list.map
        dest!: inj_map_eq_map[THEN iffD1, rotated])
  then have "f a = f b" using tw by metis
  then show ?thesis by (simp add: f_def inj_map_eq_map inj_on_def)
qed

text \<open>
  The byte encoding of the words of a sentence is fixed-width and reversible: with
  TensorFlow's operations behaving as documented, \<open>tokens_to_bytes\<close> succeeds, gives one row per
  word, every row has exactly \<open>DEFAULT_CHAR_MAXLEN\<close> ids between 1 and 261, and two words of at
  most 48 bytes that get the same row are the same word.
\<close>

theorem tokens_to_bytes_rows:
  assumes "tensor_laws T view"
  shows "\<exists>rows. tokens_to_bytes T tokens = Inr rows \<and> length rows = length tokens
    \<and> (\<forall>row \<in> set rows. int (length (view row)) = DEFAULT_CHAR_MAXLEN \<and> set (view row) \<subseteq> {1..261})
    \<and> (\<forall>i < length tokens. \<forall>j < length tokens.
         length (tokens ! i) \<le> 48 \<longrightarrow> length (tokens ! j) \<le> 48 \<longrightarrow>
         view (rows ! i) = view (rows ! j) \<longrightarrow> tokens ! i = tokens ! j)"
proof -
  let ?f = "\<lambda>x. string_to_bytes T x (int 50)"
  have each: "\<exists>t. ?f x = Inr t \<and> view t = byte_row 50 x" for x
    by (rule string_to_bytes_row[OF assms]) simp
  then have "\<forall>x \<in> set tokens. \<exists>t. ?f x = Inr t" by blast
  then obtain rows where rows: "mapE ?f tokens = Inr rows" by (auto simp: mapE_Inr_iff[symmetric])
  have view_row: "view (rows ! i) = byte_row 50 (tokens ! i)" if "i < length tokens" for i
    using mapE_nth[OF rows that] each[of "tokens ! i"] by auto
  have len: "length rows = length tokens" using mapE_length[OF rows] .
  have "int (length (view row)) = DEFAULT_CHAR_MAXLEN \<and> set (view row) \<subseteq> {1..261}"
    if "row \<in> set rows" for row
  proof -
    from that len obtain i where i: "i < length tokens" "row = rows ! i" by (auto simp: in_set_conv_nth)
    have "length (byte_row 50 (tokens ! i)) = 50" by (simp add: byte_row_def)
    moreover have "set (byte_row 50 (tokens ! i)) \<subseteq> {1..261}"
    proof
      fix x assume "x \<in> set (byte_row 50 (tokens ! i))"
      then consider "x = BOW_CHAR_ID + 1" | c where "x = of_char (c :: char) + 1" | "x = EOW_CHAR_ID + 1"
        | "x = PAD_CHAR_ID + 1" by (auto simp: byte_row_def)
      then show "x \<in> {1..261}"
        by cases (simp_all add: BOW_CHAR_ID_def EOW_CHAR_ID_def PAD_CHAR_ID_def)
    qed
    ultimately show ?thesis using view_row i by (simp add: DEFAULT_CHAR_MAXLEN_def)
  qed
  moreover have "tokens ! i = tokens ! j"
    if "i < length tokens" "j < length tokens" "length (tokens ! i) \<le> 48" "length (tokens ! j) \<le> 48"
      "view (rows ! i) = view (rows ! j)" for i j
    by (rule byte_row_prefix[of _ 50]) (use that view_row in auto)
  ultimately show ?thesis
    using rows len by (intro exI[of _ rows]) (auto simp: tokens_to_bytes_def DEFAULT_CHAR_MAXLEN_def)
qed

definition list_tensors :: "int list tensor_ops" where
  "list_tensors =
     \<lparr>tf_decode_raw = map of_char,
      tf_slice_to = (\<lambda>t n. if 0 \<le> n then take (nat n) t else take (length t - nat (- n)) t),
      tf_shape0 = (\<lambda>t. int (length t)),
      tf_fill = (\<lambda>n v. if n < 0 then Inl ValueError else Inr (replicate (nat n) v)),
      tf_const = (\<lambda>xs. xs), tf_concat = concat,
      tf_reshape = (\<lambda>t n. if int (length t) = n then Inr t else Inl ValueError),
      tf_add = (\<lambda>t k. map (\<lambda>x. x + k) t)\<rparr>"

lemma list_tensors_laws: "tensor_laws list_tensors (\<lambda>t. t)"
  by (simp add: tensor_laws_def list_tensors_def)

theorem tokens_to_bytes_rows_witness:
  "\<exists>rows. tokens_to_bytes list_tensors [''the'', ''cat''] = Inr rows \<and> length rows = length [''the'', ''cat'']
    \<and> (\<forall>row \<in> set rows. int (length row) = DEFAULT_CHAR_MAXLEN \<and> set row \<subseteq> {1..261})
    \<and> (\<forall>i < length [''the'', ''cat'']. \<forall>j < length [''the'', ''cat''].
         length ([''the'', ''cat''] ! i) \<le> 48 \<longrightarrow> length ([''the'', ''cat''] ! j) \<le> 48 \<longrightarrow>
         rows ! i = rows ! j \<longrightarrow> [''the'', ''cat''] ! i = [''the'', ''cat''] ! j)"
  by (rule tokens_to_bytes_rows[OF list_tensors_laws])

section \<open>Vocabulary tables\<close>

text \<open>
  \<open>lookup_ops.index_table_from_file\<close> is TensorFlow's; it is the parameter \<open>index_table\<close>, a
  function of the file and of the id of a word that is not in it.
\<close>

definition create_vocab_tables ::
    "(pystr \<Rightarrow> int \<Rightarrow> 'table) \<Rightarrow> pystr \<Rightarrow> pystr \<Rightarrow> bool \<Rightarrow> 'table \<times> 'table" where
  "create_vocab_tables index_table src_vocab_file tgt_vocab_file share_vocab =
     (let src_vocab_table = index_table src_vocab_file UNK_ID;
          tgt_vocab_table =
            (if share_vocab then src_vocab_table else index_table tgt_vocab_file UNK_ID)
      in (src_vocab_table, tgt_vocab_table))"

end
