(* ===== verification/Checker.thy ===== *)
theory Checker
  imports Files
begin

text \<open>
  \<open>asgn1_bash_scripts/shell_scripts/checker.py\<close>: it reads the script named on the command
  line, puts blanks around the shell operators and counts the words. The two \<open>print\<close> calls
  are the two components of the result.
\<close>

definition pad_operators :: "pystr \<Rightarrow> pystr" where
  "pad_operators s =
     replace (u ''>'') (u '' > '') (replace (u ''<'') (u '' < '') (replace (u '','') (u '' , '')
       (replace (u '';'') (u '' ; '') (replace (u ''|'') (u '' | '') (replace (u ''='') (u '' = '') s)))))"

definition checker :: "'w gfile \<Rightarrow> 'w \<Rightarrow> pystr list \<Rightarrow> (pystr \<times> nat) res" where
  "checker G w argv =
     bindE (list_get argv 1) (\<lambda>p.
     bindE (read_text G w p) (\<lambda>s.
     let content = pad_operators s; wordCount = length (split_ws content)
     in Inr (content, wordCount)))"

definition operators :: "pystr" where "operators = u ''=|;,<>''"

lemma pad_operators_eq:
  "pad_operators s = concat (map (\<lambda>x. if x \<in> set operators then [32, x, 32] else [x]) s)"
  by (induction s) (simp_all add: pad_operators_def replace_single operators_def u_def)

lemma split_by_split: "p c \<Longrightarrow> split_by p (a @ c # b) = split_by p a @ split_by p b"
proof (induction a)
  case (Cons x a)
  then show ?case by (cases "split_by p a") auto
qed simp

lemma split_ws_split: "split_ws (a @ 32 # b) = split_ws a @ split_ws b"
  by (simp add: split_ws_def split_by_split)

lemma operator_not_space: "x \<in> set operators \<Longrightarrow> \<not> is_space x \<and> x \<noteq> 32"
  by (auto simp: operators_def u_def is_space_def)

lemma split_ws_operator: "x \<in> set operators \<Longrightarrow> split_ws [x] = [[x]]"
  by (simp add: split_ws_def operator_not_space)

lemma pad_operators_none: "\<forall>x \<in> set s. x \<notin> set operators \<Longrightarrow> pad_operators s = s"
  by (induction s) (auto simp: pad_operators_eq)

lemma pad_operators_words:
  "\<forall>w \<in> set (split_ws (pad_operators s)). w \<noteq> [] \<and>
     ((\<exists>x \<in> set operators. w = [x]) \<or> set w \<inter> set operators = {})"
proof (induction s rule: length_induct)
  case (1 s)
  show ?case
  proof (cases "\<exists>x \<in> set s. x \<in> set operators")
    case False
    then have "pad_operators s = s" by (intro pad_operators_none) blast
    with False show ?thesis
      by (auto simp: split_ws_def dest: split_by_parts)
  next
    case True
    then obtain a x b where s: "s = a @ x # b" "x \<in> set operators" "\<forall>y \<in> set a. y \<notin> set operators"
      using split_list_first_prop[of s "\<lambda>x. x \<in> set operators"] by auto
    from s(3) have "pad_operators a = a" by (rule pad_operators_none)
    with s have "pad_operators s = a @ 32 # [x] @ 32 # pad_operators b"
      by (simp add: pad_operators_eq)
    then have "split_ws (pad_operators s) = split_ws a @ [x] # split_ws (pad_operators b)"
      by (simp only: split_ws_split split_ws_operator[OF s(2)]) simp
    moreover have "\<forall>w \<in> set (split_ws a). w \<noteq> [] \<and> set w \<inter> set operators = {}"
      using s(3) by (auto simp: split_ws_def dest: split_by_parts)
    moreover have "length b < length s" using s(1) by simp
    ultimately show ?thesis using "1.IH"[rule_format, of b] s(2) by (simp add: ball_Un)
  qed
qed

text \<open>
  What the checker counts: when the script named on the command line can be read, every
  counted word is one shell operator on its own or a word without operators, no character
  other than white space is lost or added by the padding, and the padded text that is printed
  has exactly as many words as the printed number.
\<close>

theorem checker_counts_words:
  assumes "length argv \<ge> 2" "read_text G w (argv ! 1) = Inr s"
  shows "\<exists>content n. checker G w argv = Inr (content, n) \<and> n = length (split_ws content)
    \<and> concat (split_ws content) = filter (\<lambda>c. \<not> is_space c) s
    \<and> (\<forall>w \<in> set (split_ws content). w \<noteq> [] \<and>
         ((\<exists>x \<in> set operators. w = [x]) \<or> set w \<inter> set operators = {}))"
proof -
  have "filter (\<lambda>c. \<not> is_space c) (pad_operators s) = filter (\<lambda>c. \<not> is_space c) s"
    by (induction s) (auto simp: pad_operators_eq operator_not_space)
  moreover have "concat (split_ws t) = filter (\<lambda>c. \<not> is_space c) t" for t
  proof -
    have "concat (filter (\<lambda>w. w \<noteq> []) ws) = concat ws" for ws :: "pystr list"
      by (induction ws) auto
    then show ?thesis by (simp add: split_ws_def split_by_concat)
  qed
  ultimately have "concat (split_ws (pad_operators s)) = filter (\<lambda>c. \<not> is_space c) s" by simp
  then show ?thesis
    using assms pad_operators_words[of s] by (simp add: checker_def list_get_def Let_def)
qed

theorem checker_counts_words_witness:
  "\<exists>content n. checker dict_gfile [[102] \<mapsto> utf8_encode [97, 61, 98]] [[112], [102]] = Inr (content, n)
    \<and> n = length (split_ws content)
    \<and> concat (split_ws content) = filter (\<lambda>c. \<not> is_space c) [97, 61, 98]
    \<and> (\<forall>w \<in> set (split_ws content). w \<noteq> [] \<and>
         ((\<exists>x \<in> set operators. w = [x]) \<or> set w \<inter> set operators = {}))"
  by (rule checker_counts_words) (simp_all add: dict_read_encoded encodable_def scalar_def)

end
