(* ===== verification/EvaluationUtils.thy ===== *)
theory EvaluationUtils
  imports Files Formatting Rouge Bleu
begin

text \<open>
  \<open>nmt/utils/evaluation_utils.py\<close>: \<open>evaluate\<close> and the four metrics it dispatches to. A file
  read through \<open>codecs.getreader("utf-8")\<close> is the list of its lines with their ends; \<open>numpy\<close>'s
  mean, which the ROUGE score needs, is the parameter \<open>np_mean\<close>. \<open>_moses_bleu\<close>, which runs an
  external script and is called nowhere, is not modelled.
\<close>

section \<open>The metrics\<close>

definition read_lines :: "'w gfile \<Rightarrow> 'w \<Rightarrow> pystr \<Rightarrow> pystr list res" where
  "read_lines G w p = bindE (read_text G w p) (\<lambda>s. Inr (splitlines_keep s))"

definition bleu_metric :: "'w gfile \<Rightarrow> 'w \<Rightarrow> pystr \<Rightarrow> pystr \<Rightarrow> pystr option \<Rightarrow> real res" where
  "bleu_metric G w ref_file trans_file subword_option =
     (let max_order = 4; smooth = False; ref_files = [ref_file]
      in bindE (mapE (read_lines G w) ref_files) (\<lambda>reference_text.
         let per_segment_references =
               map (\<lambda>reference. [split_on 32 (clean reference subword_option)]) (hd reference_text)
         in bindE (read_lines G w trans_file) (\<lambda>fh.
            let translations = map (\<lambda>line. split_on 32 (clean line None)) fh
            in bindE (compute_bleu per_segment_references translations max_order smooth)
                 (\<lambda>(bleu_score, _). Inr (100 * bleu_score)))))"

definition rouge_metric ::
    "'w gfile \<Rightarrow> (real list \<Rightarrow> real) \<Rightarrow> 'w \<Rightarrow> pystr \<Rightarrow> pystr \<Rightarrow> pystr option \<Rightarrow> real res" where
  "rouge_metric G np_mean w ref_file summarization_file subword_option =
     bindE (read_lines G w ref_file) (\<lambda>fh.
     let references = map (\<lambda>line. clean line subword_option) fh
     in bindE (read_lines G w summarization_file) (\<lambda>fh.
        let hypotheses = map (\<lambda>line. clean line None) fh
        in bindE (rouge np_mean hypotheses references) (\<lambda>rouge_score_map.
           Inr (100 * rouge_l_f_score rouge_score_map))))"

text \<open>\<open>readline()\<close> on the lines that are left: the empty string at the end of the file.\<close>

definition readline :: "pystr list \<Rightarrow> pystr \<times> pystr list" where
  "readline fh = (case fh of [] \<Rightarrow> ([], []) | l # ls \<Rightarrow> (l, ls))"

text \<open>
  TensorFlow opens a file when it is first read, so a missing prediction file is noticed only
  when there is a first label.
\<close>

definition open_second :: "'w gfile \<Rightarrow> 'w \<Rightarrow> pystr list \<Rightarrow> pystr \<Rightarrow> pystr list res" where
  "open_second G w first p = (if first = [] then Inr [] else read_lines G w p)"

definition accuracy_step ::
    "pystr list \<times> real \<times> real \<Rightarrow> pystr \<Rightarrow> pystr list \<times> real \<times> real" where
  "accuracy_step st label =
     (let (pred_fh, match, count) = st;
          label = strip label;
          (l, pred_fh) = readline pred_fh;
          pred = strip l;
          match = (if label = pred then match + 1 else match)
      in (pred_fh, match, count + 1))"

definition accuracy_metric :: "'w gfile \<Rightarrow> 'w \<Rightarrow> pystr \<Rightarrow> pystr \<Rightarrow> real res" where
  "accuracy_metric G w label_file pred_file =
     bindE (read_lines G w label_file) (\<lambda>label_fh.
     bindE (open_second G w label_fh pred_file) (\<lambda>pred_fh.
     let (_, match, count) = foldl accuracy_step (pred_fh, 0, 0) label_fh
     in py_div (100 * match) count))"

definition matching_words :: "pystr list \<Rightarrow> pystr list \<Rightarrow> real" where
  "matching_words labels preds =
     foldl (\<lambda>match pos. if labels ! pos = preds ! pos then match + 1 else match) 0
       [0..<min (length labels) (length preds)]"

definition word_accuracy_step ::
    "pystr list \<times> real \<times> real \<Rightarrow> pystr \<Rightarrow> (pystr list \<times> real \<times> real) res" where
  "word_accuracy_step st sentence =
     (let (pred_fh, total_acc, total_count) = st;
          labels = split_on 32 (strip sentence);
          (l, pred_fh) = readline pred_fh;
          preds = split_on 32 (strip l);
          match = matching_words labels preds
      in bindE (py_div (100 * match) (real (max (length labels) (length preds)))) (\<lambda>a.
         Inr (pred_fh, total_acc + a, total_count + 1)))"

definition word_accuracy_metric :: "'w gfile \<Rightarrow> 'w \<Rightarrow> pystr \<Rightarrow> pystr \<Rightarrow> real res" where
  "word_accuracy_metric G w label_file pred_file =
     bindE (read_lines G w label_file) (\<lambda>label_fh.
     bindE (open_second G w label_fh pred_file) (\<lambda>pred_fh.
     bindE (foldE word_accuracy_step (pred_fh, 0, 0) label_fh) (\<lambda>(_, total_acc, total_count).
     py_div total_acc total_count)))"

section \<open>The dispatch\<close>

text \<open>
  \<open>str.lower()\<close> on ASCII letters. No letter outside ASCII has a lower-case form among the
  letters of the metric names, so the comparisons below come out as in Python.
\<close>

definition lower :: "pystr \<Rightarrow> pystr" where
  "lower s = map (\<lambda>c. if 65 \<le> c \<and> c \<le> 90 then c + 32 else c) s"

definition evaluate ::
    "'w gfile \<Rightarrow> (real list \<Rightarrow> real) \<Rightarrow> 'w \<Rightarrow> pystr \<Rightarrow> pystr \<Rightarrow> pystr \<Rightarrow> pystr option \<Rightarrow> real res" where
  "evaluate G np_mean w ref_file trans_file metric subword_option =
     (if lower metric = u ''bleu'' then bleu_metric G w ref_file trans_file subword_option
      else if lower metric = u ''rouge'' then rouge_metric G np_mean w ref_file trans_file subword_option
      else if lower metric = u ''accuracy'' then accuracy_metric G w ref_file trans_file
      else if lower metric = u ''word_accuracy'' then word_accuracy_metric G w ref_file trans_file
      else Inl ValueError)"

definition known_metric :: "pystr \<Rightarrow> bool" where
  "known_metric m \<longleftrightarrow> lower m \<in> {u ''bleu'', u ''rouge'', u ''accuracy'', u ''word_accuracy''}"

section \<open>Bounds of the metrics\<close>

text \<open>The lines of the second file, matched up with the lines of the first.\<close>

definition line_up :: "'a list \<Rightarrow> pystr list \<Rightarrow> ('a \<times> pystr) list" where
  "line_up ls ps = zip ls (ps @ replicate (length ls) [])"

lemma line_up_simps [simp]:
  "line_up [] ps = []"
  "line_up (l # ls) ps = (l, fst (readline ps)) # line_up ls (snd (readline ps))"
proof -
  show "line_up (l # ls) ps = (l, fst (readline ps)) # line_up ls (snd (readline ps))"
  proof (cases ps)
    case (Cons p ps')
    have "zip ls (ps' @ replicate (Suc (length ls)) []) = zip ls (ps' @ replicate (length ls) [])"
      by (intro nth_equalityI) (auto simp: nth_append simp del: replicate_Suc)
    with Cons show ?thesis by (simp add: line_up_def readline_def)
  qed (simp add: line_up_def readline_def)
qed (simp add: line_up_def)

lemma length_line_up [simp]: "length (line_up ls ps) = length ls"
  by (simp add: line_up_def)

lemma accuracy_loop:
  "\<exists>rest. foldl accuracy_step (ps, m, n) ls =
    (rest, m + real (length (filter (\<lambda>(l, p). strip l = strip p) (line_up ls ps))), n + real (length ls))"
proof (induction ls arbitrary: ps m n)
  case (Cons l ls)
  obtain p ps' where "readline ps = (p, ps')" by (cases "readline ps")
  then show ?case
    using Cons.IH[of ps' "if strip l = strip p then m + 1 else m" "n + 1"]
    by (auto simp: accuracy_step_def)
qed simp

definition word_share :: "pystr \<Rightarrow> pystr \<Rightarrow> real" where
  "word_share l p =
     (let labels = split_on 32 (strip l); preds = split_on 32 (strip p)
      in real (length (filter (\<lambda>(a, b). a = b) (zip labels preds)))
           / real (max (length labels) (length preds)))"

lemma matching_words_eq: "matching_words xs ys = real (length (filter (\<lambda>(a, b). a = b) (zip xs ys)))"
proof -
  have loop: "foldl (\<lambda>m i. if P i then m + 1 else m) a is = a + real (length (filter P is))"
    for P :: "nat \<Rightarrow> bool" and a :: real and "is"
    by (induction "is" arbitrary: a) auto
  have z: "zip xs ys = map (\<lambda>i. (xs ! i, ys ! i)) [0..<min (length xs) (length ys)]"
    by (intro nth_equalityI) auto
  have "length (filter (\<lambda>(a, b). a = b) (zip xs ys))
      = length (filter (\<lambda>i. xs ! i = ys ! i) [0..<min (length xs) (length ys)])"
    unfolding z filter_map length_map by (simp add: o_def)
  then show ?thesis by (simp add: matching_words_def loop)
qed

lemma word_share_unit: "0 \<le> word_share l p \<and> word_share l p \<le> 1"
proof -
  have "length (filter (\<lambda>(a, b). a = b) (zip xs ys)) \<le> max (length xs) (length ys)"
    for xs ys :: "pystr list"
    by (rule le_trans[OF length_filter_le]) simp
  then show ?thesis unfolding word_share_def Let_def by (intro unit_interval_div) simp_all
qed

lemma word_accuracy_loop:
  "\<exists>rest. foldE word_accuracy_step (ps, a, n) ls =
    Inr (rest, a + 100 * (\<Sum>(l, p)\<leftarrow>line_up ls ps. word_share l p), n + real (length ls))"
proof (induction ls arbitrary: ps a n)
  case (Cons l ls)
  obtain p ps' where r: "readline ps = (p, ps')" by (cases "readline ps")
  have "real (max (length (split_on 32 (strip l))) (length (split_on 32 (strip p)))) \<noteq> 0"
    using split_on_nonempty[of 32 "strip l"] by (simp add: max_def)
  with r have "word_accuracy_step (ps, a, n) l = Inr (ps', a + 100 * word_share l p, n + 1)"
    by (simp add: word_accuracy_step_def word_share_def matching_words_eq Let_def)
  with r Cons.IH[of ps' "a + 100 * word_share l p" "n + 1"] show ?case
    by (auto simp: algebra_simps)
qed simp

lemma accuracy_metric_eq:
  assumes "read_lines G w ref = Inr ls" "read_lines G w out = Inr ps" "ls \<noteq> []"
  shows "accuracy_metric G w ref out =
    Inr (100 * (real (length (filter (\<lambda>(l, p). strip l = strip p) (line_up ls ps))) / real (length ls)))"
  using accuracy_loop[of ps 0 0 ls] assms by (auto simp: accuracy_metric_def open_second_def)

lemma word_accuracy_metric_eq:
  assumes "read_lines G w ref = Inr ls" "read_lines G w out = Inr ps" "ls \<noteq> []"
  shows "word_accuracy_metric G w ref out =
    Inr (100 * ((\<Sum>(l, p)\<leftarrow>line_up ls ps. word_share l p) / real (length ls)))"
  using word_accuracy_loop[of ps 0 0 ls] assms
  by (auto simp: word_accuracy_metric_def open_second_def)

lemma sum_list_unit:
  "\<forall>x \<in> set xs. 0 \<le> f x \<and> f x \<le> 1 \<Longrightarrow> 0 \<le> sum_list (map f xs) \<and> sum_list (map f xs) \<le> real (length xs)"
  by (induction xs) auto

lemma sum_list_positive: "zs \<noteq> [] \<Longrightarrow> \<forall>x \<in> set zs. 0 < f x \<Longrightarrow> 0 < (\<Sum>x\<leftarrow>zs. f x :: nat)"
  by (cases zs) auto

lemma percentage:
  "0 \<le> x \<Longrightarrow> x \<le> n \<Longrightarrow> \<exists>s. Inr (100 * (x / n)) = (Inr s :: real res) \<and> 0 \<le> s \<and> s \<le> 100"
  using unit_interval_div[of x n] by auto

lemma bleu_metric_range:
  assumes "read_lines G w ref = Inr ls" "read_lines G w out = Inr ps" "ls \<noteq> []" "ps \<noteq> []"
  shows "\<exists>s. bleu_metric G w ref out opt = Inr s \<and> 0 \<le> s \<and> s \<le> 100"
proof -
  let ?R = "map (\<lambda>l. [split_on 32 (clean l opt)]) ls"
  let ?T = "map (\<lambda>p. split_on 32 (clean p None)) ps"
  have segs: "\<forall>(refs, t) \<in> set (zip ?R ?T). refs \<noteq> [] \<and> t \<noteq> [] \<and> (\<forall>r \<in> set refs. r \<noteq> [])"
    by (auto simp: zip_map_map) (metis split_on_nonempty)+
  have z: "zip ?R ?T \<noteq> []" using assms(3,4) by (cases ls; cases ps) auto
  have "0 < total_ref (zip ?R ?T)"
    unfolding total_ref_def by (rule sum_list_positive[OF z]) (use segs in \<open>fastforce\<close>)
  moreover have "0 < total_trans (zip ?R ?T)"
    unfolding total_trans_def by (rule sum_list_positive[OF z]) (use segs in \<open>fastforce\<close>)
  moreover have "\<forall>(refs, t) \<in> set (zip ?R ?T). refs \<noteq> []" using segs by auto
  ultimately obtain b psn bp r where
    b: "compute_bleu ?R ?T 4 False = Inr (b, psn, bp, r, total_trans (zip ?R ?T), total_ref (zip ?R ?T))"
    "bp \<le> 1" "0 \<le> b" "b \<le> bp"
    using compute_bleu_unit[of ?R ?T 4 False] by auto
  then have "bleu_metric G w ref out opt = Inr (100 * b)"
    using assms by (simp add: bleu_metric_def Let_def)
  with b show ?thesis by auto
qed

lemma rouge_metric_range:
  assumes "read_lines G w ref = Inr ls" "read_lines G w out = Inr ps" "ls \<noteq> []" "ps \<noteq> []"
    and "\<And>xs. xs \<noteq> [] \<Longrightarrow> np_mean xs = sum_list xs / real (length xs)"
  shows "\<exists>s. rouge_metric G np_mean w ref out opt = Inr s \<and> 0 \<le> s \<and> s \<le> 100"
proof -
  let ?R = "map (\<lambda>l. clean l opt) ls"
  let ?T = "map (\<lambda>p. clean p None) ps"
  from rouge_unit[OF assms(5), of ?T ?R] assms(3,4) obtain S where
    "rouge np_mean ?T ?R = Inr S" "unit_score (rouge_l_f_score S, rouge_l_p_score S, rouge_l_r_score S)"
    by auto
  then show ?thesis using assms(1,2) by (auto simp: rouge_metric_def unit_score_def Let_def)
qed

lemma evaluate_percentage:
  assumes "known_metric metric"
    and "read_lines G w ref_file = Inr ls" "ls \<noteq> []" "read_lines G w trans_file = Inr ps" "ps \<noteq> []"
    and "\<And>xs. xs \<noteq> [] \<Longrightarrow> np_mean xs = sum_list xs / real (length xs)"
  shows "\<exists>s. evaluate G np_mean w ref_file trans_file metric opt = Inr s \<and> 0 \<le> s \<and> s \<le> 100"
proof -
  have "\<exists>s. accuracy_metric G w ref_file trans_file = Inr s \<and> 0 \<le> s \<and> s \<le> 100"
    unfolding accuracy_metric_eq[OF assms(2,4,3)]
    by (rule percentage) (use length_filter_le[of "\<lambda>(l, p). strip l = strip p" "line_up ls ps"] in simp_all)
  moreover have "0 \<le> (\<Sum>(l, p)\<leftarrow>line_up ls ps. word_share l p)
      \<and> (\<Sum>(l, p)\<leftarrow>line_up ls ps. word_share l p) \<le> real (length ls)"
  proof -
    have "\<forall>x \<in> set (line_up ls ps). 0 \<le> (case x of (l, p) \<Rightarrow> word_share l p) \<and> (case x of (l, p) \<Rightarrow> word_share l p) \<le> 1"
      by (simp add: word_share_unit split_beta)
    from sum_list_unit[OF this] show ?thesis by simp
  qed
  then have "\<exists>s. word_accuracy_metric G w ref_file trans_file = Inr s \<and> 0 \<le> s \<and> s \<le> 100"
    unfolding word_accuracy_metric_eq[OF assms(2,4,3)]
    by (intro percentage) simp_all
  ultimately show ?thesis
    using assms(1) bleu_metric_range[OF assms(2,4,3,5)] rouge_metric_range[OF assms(2,4,3,5,6)]
    by (auto simp: known_metric_def evaluate_def)
qed

section \<open>Properties\<close>

text \<open>
  Every metric gives a percentage: for each of the four known metrics, whatever the case
  of its name, and two readable files with at least one line each, \<open>evaluate\<close> returns a score
  between 0 and 100. In particular none of the divisions inside fails, although
  \<open>compute_bleu\<close> can divide by zero on other inputs.
\<close>

theorem evaluate_score_range:
  assumes "known_metric metric"
    and "read_lines G w ref_file = Inr ls" "ls \<noteq> []" "read_lines G w trans_file = Inr ps" "ps \<noteq> []"
    and "\<And>xs. xs \<noteq> [] \<Longrightarrow> np_mean xs = sum_list xs / real (length xs)"
  shows "\<exists>s. evaluate G np_mean w ref_file trans_file metric opt = Inr s \<and> 0 \<le> s \<and> s \<le> 100"
  using assms by (rule evaluate_percentage)

text \<open>
  The accuracy is the percentage of lines that agree up to surrounding white space, a
  missing prediction line counting as the empty line: it is 100 exactly when all lines agree,
  and an empty label file raises \<open>ZeroDivisionError\<close>, whether the prediction file exists or not.
\<close>

theorem accuracy_counts_matching_lines:
  assumes "read_lines G w label_file = Inr ls"
    and "ls \<noteq> [] \<Longrightarrow> read_lines G w pred_file = Inr ps"
  shows "if ls = [] then accuracy_metric G w label_file pred_file = Inl ZeroDivisionError
    else accuracy_metric G w label_file pred_file =
        Inr (100 * real (length (filter (\<lambda>(l, p). strip l = strip p) (line_up ls ps))) / real (length ls))
      \<and> (accuracy_metric G w label_file pred_file = Inr 100
          \<longleftrightarrow> (\<forall>(l, p) \<in> set (line_up ls ps). strip l = strip p))"
proof (cases "ls = []")
  case True
  with assms(1) show ?thesis by (simp add: accuracy_metric_def open_second_def)
next
  case False
  have "length (filter P xs) = length xs \<longleftrightarrow> (\<forall>x \<in> set xs. P x)" for P :: "'b \<Rightarrow> bool" and xs
    using sum_length_filter_compl[of P xs] by (auto simp: filter_empty_conv)
  from this[of "\<lambda>(l, p). strip l = strip p" "line_up ls ps"]
  have "length (filter (\<lambda>(l, p). strip l = strip p) (line_up ls ps)) = length ls
      \<longleftrightarrow> (\<forall>(l, p) \<in> set (line_up ls ps). strip l = strip p)" by simp
  moreover have "100 * (real k / real (length ls)) = 100 \<longleftrightarrow> k = length ls" for k
    using False by (simp add: field_simps)
  ultimately show ?thesis
    using False by (simp only: accuracy_metric_eq[OF assms(1) assms(2)[OF False] False] if_False sum.inject) simp
qed

definition sample_eval_fs :: dict_fs where
  "sample_eval_fs = [[114] \<mapsto> utf8_encode [97, 32, 98, 10, 99, 10], [116] \<mapsto> utf8_encode [97, 10]]"

lemma sample_eval_read:
  "read_lines dict_gfile sample_eval_fs [114] = Inr [[97, 32, 98, 10], [99, 10]]"
  "read_lines dict_gfile sample_eval_fs [116] = Inr [[97, 10]]"
  by (simp_all add: read_lines_def sample_eval_fs_def dict_read_encoded encodable_def scalar_def is_eol_def)

theorem evaluate_score_range_witness:
  "\<exists>s. evaluate dict_gfile list_mean sample_eval_fs [114] [116] (u ''BLEU'') None = Inr s
    \<and> 0 \<le> s \<and> s \<le> 100"
  by (rule evaluate_score_range[OF _ sample_eval_read(1) _ sample_eval_read(2)])
    (simp_all add: known_metric_def lower_def u_def list_mean_def)

theorem accuracy_counts_matching_lines_witness:
  "if [[97, 32, 98, 10], [99, 10 :: nat]] = []
    then accuracy_metric dict_gfile sample_eval_fs [114] [116] = Inl ZeroDivisionError
    else accuracy_metric dict_gfile sample_eval_fs [114] [116] =
        Inr (100 * real (length (filter (\<lambda>(l, p). strip l = strip p)
          (line_up [[97, 32, 98, 10], [99, 10]] [[97, 10]]))) / real (length [[97, 32, 98, 10], [99, 10 :: nat]]))
      \<and> (accuracy_metric dict_gfile sample_eval_fs [114] [116] = Inr 100
          \<longleftrightarrow> (\<forall>(l, p) \<in> set (line_up [[97, 32, 98, 10], [99, 10]] [[97, 10]]). strip l = strip p))"
  by (rule accuracy_counts_matching_lines[OF sample_eval_read(1) sample_eval_read(2)])

end
