(* ===== verification/NmtUtils.thy ===== *)
theory NmtUtils
  imports EvaluationUtils
begin

text \<open>
  \<open>decode_and_evaluate\<close> of \<open>nmt/utils/nmt_utils.py\<close>. The call \<open>model.decode(sess)\<close> runs a
  TensorFlow session and is the parameter \<open>decode\<close>, a function of the session state: it gives
  the next batch or the end of the data (\<open>OutOfRangeError\<close>). The loop around it is not bounded
  by the code, so it is a partial function into \<open>option\<close>: \<open>None\<close> would be a run that never
  returns, and the property below shows a result for every session whose data end.
\<close>

section \<open>Decoding to a file\<close>

text \<open>
  The array of a batch: sentences by time outside beam search, beams by sentences by time in
  beam search.
\<close>

datatype nmt_outputs = Rows "bytes list list" | Beams "bytes list list list"

datatype 's decoded = Batch nmt_outputs 's | OutOfRange 's

text \<open>
  The array with the beam dimension in front. An array of the wrong rank fails at its first
  access.
\<close>

definition with_beams :: "pystr \<Rightarrow> nmt_outputs \<Rightarrow> bytes list list list res" where
  "with_beams infer_mode outputs =
     (if infer_mode \<noteq> u ''beam_search''
      then case outputs of Rows r \<Rightarrow> Inr [r] | Beams _ \<Rightarrow> Inl TypeError
      else case outputs of Beams b \<Rightarrow> Inr b | Rows _ \<Rightarrow> Inl IndexError)"

definition translations_per_input :: "pystr \<Rightarrow> int \<Rightarrow> int \<Rightarrow> int" where
  "translations_per_input infer_mode num_translations_per_input beam_width =
     (if infer_mode = u ''greedy'' then 1
      else if infer_mode = u ''beam_search'' then min num_translations_per_input beam_width
      else num_translations_per_input)"

definition batch_size_of :: "bytes list list list \<Rightarrow> nat" where
  "batch_size_of nmt_outputs = (case nmt_outputs of [] \<Rightarrow> 0 | b # _ \<Rightarrow> length b)"

definition translation_line ::
    "bytes list list list \<Rightarrow> pystr option \<Rightarrow> pystr option \<Rightarrow> nat \<Rightarrow> nat \<Rightarrow> pystr res" where
  "translation_line nmt_outputs tgt_eos subword_option sent_id beam_id =
     bindE (list_get nmt_outputs (int beam_id)) (\<lambda>beam.
     bindE (get_translation beam (int sent_id) tgt_eos subword_option) (\<lambda>translation.
     utf8_decode (translation @ [char_of (10 :: nat)])))"

definition batch_text ::
    "bytes list list list \<Rightarrow> int \<Rightarrow> pystr option \<Rightarrow> pystr option \<Rightarrow> pystr res" where
  "batch_text nmt_outputs n tgt_eos subword_option =
     foldE (\<lambda>text sent_id.
       foldE (\<lambda>text beam_id.
           bindE (translation_line nmt_outputs tgt_eos subword_option sent_id beam_id) (\<lambda>line.
           Inr (text @ line)))
         text [0..<nat n])
       [] [0..<batch_size_of nmt_outputs]"

partial_function (option) decode_loop ::
    "('s \<Rightarrow> 's decoded) \<Rightarrow> pystr \<Rightarrow> int \<Rightarrow> pystr option \<Rightarrow> pystr option \<Rightarrow> 's \<Rightarrow> pystr \<Rightarrow> nat
     \<Rightarrow> (pystr \<times> nat \<times> 's) res option" where
  "decode_loop decode infer_mode n tgt_eos subword_option sess trans_f num_sentences =
     (case decode sess of
        OutOfRange sess' \<Rightarrow> Some (Inr (trans_f, num_sentences, sess'))
      | Batch outputs sess' \<Rightarrow>
          (case bindE (with_beams infer_mode outputs) (\<lambda>nmt_outputs.
                bindE (batch_text nmt_outputs n tgt_eos subword_option) (\<lambda>text.
                Inr (text, batch_size_of nmt_outputs))) of
             Inl e \<Rightarrow> Some (Inl e)
           | Inr (text, batch_size) \<Rightarrow>
               decode_loop decode infer_mode n tgt_eos subword_option sess'
                 (trans_f @ text) (num_sentences + batch_size)))"

definition decode_file ::
    "'w gfile \<Rightarrow> ('s \<Rightarrow> 's decoded) \<Rightarrow> 'w \<Rightarrow> 's \<Rightarrow> pystr \<Rightarrow> pystr option \<Rightarrow> int \<Rightarrow> pystr option
     \<Rightarrow> int \<Rightarrow> pystr \<Rightarrow> (nat \<times> 'w \<times> 's) res option" where
  "decode_file G decode w sess trans_file subword_option beam_width tgt_eos
       num_translations_per_input infer_mode =
     (let n = translations_per_input infer_mode num_translations_per_input beam_width
      in case decode_loop decode infer_mode n tgt_eos subword_option sess [] 0 of
           None \<Rightarrow> None
         | Some r \<Rightarrow> Some (bindE r (\<lambda>(text, num_sentences, sess).
             bindE (write_text G w trans_file text) (\<lambda>w. Inr (num_sentences, w, sess)))))"

section \<open>Scoring the file\<close>

definition evaluate_file ::
    "'w gfile \<Rightarrow> (real list \<Rightarrow> real) \<Rightarrow> 'w \<Rightarrow> pystr \<Rightarrow> pystr option \<Rightarrow> pystr list \<Rightarrow> pystr option
     \<Rightarrow> (pystr \<rightharpoonup> real) res" where
  "evaluate_file G np_mean w trans_file ref_file metrics subword_option =
     (if truthy ref_file \<and> gf_exists G w trans_file
      then foldE (\<lambda>evaluation_scores metric.
             bindE (evaluate G np_mean w (the ref_file) trans_file metric subword_option) (\<lambda>score.
             Inr (evaluation_scores(metric \<mapsto> score)))) Map.empty metrics
      else Inr Map.empty)"

definition decode_and_evaluate ::
    "'w gfile \<Rightarrow> (real list \<Rightarrow> real) \<Rightarrow> ('s \<Rightarrow> 's decoded) \<Rightarrow> 'w \<Rightarrow> 's \<Rightarrow> pystr \<Rightarrow> pystr option
     \<Rightarrow> pystr list \<Rightarrow> pystr option \<Rightarrow> int \<Rightarrow> pystr option \<Rightarrow> int \<Rightarrow> bool \<Rightarrow> pystr
     \<Rightarrow> ((pystr \<rightharpoonup> real) \<times> 'w \<times> 's) res option" where
  "decode_and_evaluate G np_mean decode w sess trans_file ref_file metrics subword_option
       beam_width tgt_eos num_translations_per_input do_decode infer_mode =
     (case (if do_decode
            then decode_file G decode w sess trans_file subword_option beam_width tgt_eos
                   num_translations_per_input infer_mode
            else Some (Inr (0, w, sess))) of
        None \<Rightarrow> None
      | Some r \<Rightarrow> Some (bindE r (\<lambda>(_, w, sess).
          bindE (evaluate_file G np_mean w trans_file ref_file metrics subword_option)
            (\<lambda>scores. Inr (scores, w, sess)))))"

section \<open>Sessions whose data end\<close>

fun yields :: "('s \<Rightarrow> 's decoded) \<Rightarrow> 's \<Rightarrow> nmt_outputs list \<Rightarrow> 's \<Rightarrow> bool" where
  "yields decode s [] s' \<longleftrightarrow> decode s = OutOfRange s'"
| "yields decode s (b # bs) s' \<longleftrightarrow> (\<exists>t. decode s = Batch b t \<and> yields decode t bs s')"

definition batch_lines :: "(nat \<Rightarrow> nat \<Rightarrow> pystr) \<Rightarrow> nat \<Rightarrow> nat \<Rightarrow> pystr list" where
  "batch_lines line m n = concat (map (\<lambda>s. map (line s) [0..<n]) [0..<m])"

text \<open>
  The translations of a batch when every sentence and beam can be formatted: the text of the
  sentence \<open>s\<close> in the beam \<open>b\<close> is \<open>t s b\<close>.
\<close>

definition translates ::
    "pystr \<Rightarrow> int \<Rightarrow> pystr option \<Rightarrow> pystr option \<Rightarrow> nmt_outputs \<Rightarrow> pystr list \<Rightarrow> bool" where
  "translates infer_mode n tgt_eos subword_option outputs texts \<longleftrightarrow>
     (\<exists>beams t. with_beams infer_mode outputs = Inr beams \<and>
        texts = batch_lines t (batch_size_of beams) (nat n) \<and>
        (\<forall>s < batch_size_of beams. \<forall>b < nat n.
           b < length beams \<and> encodable (t s b) \<and> (\<forall>c \<in> set (t s b). \<not> is_eol c) \<and>
           get_translation (beams ! b) (int s) tgt_eos subword_option = Inr (utf8_encode (t s b))))"

lemma translation_line_eq:
  assumes "b < length beams" "encodable t"
    and "get_translation (beams ! b) (int s) tgt_eos subword_option = Inr (utf8_encode t)"
  shows "translation_line beams tgt_eos subword_option s b = Inr (t @ [10])"
proof -
  have "utf8_encode t @ [char_of (10 :: nat)] = utf8_encode (t @ [10])"
    by (simp add: utf8_encode_snoc enc1_def)
  moreover have "encodable (t @ [10])" using assms(2) by (simp add: encodable_def scalar_def)
  ultimately show ?thesis
    using assms by (simp add: translation_line_def list_get_def utf8.decode_encode)
qed

lemma batch_text_eq:
  assumes "\<And>s b. s < batch_size_of beams \<Longrightarrow> b < nat n \<Longrightarrow>
    translation_line beams tgt_eos subword_option s b = Inr (t s b @ [10])"
  shows "batch_text beams n tgt_eos subword_option
    = Inr (concat (map (\<lambda>l. l @ [10]) (batch_lines t (batch_size_of beams) (nat n))))"
proof -
  let ?inner = "\<lambda>s text b. bindE (translation_line beams tgt_eos subword_option s b) (\<lambda>l. Inr (text @ l))"
  have inner: "foldE (?inner s) tx bs = Inr (tx @ concat (map (\<lambda>b. t s b @ [10]) bs))"
    if "s < batch_size_of beams" "\<forall>b \<in> set bs. b < nat n" for s tx bs
    using that by (induction bs arbitrary: tx) (simp_all add: assms)
  have "foldE (\<lambda>tx s. foldE (?inner s) tx [0..<nat n]) tx ss
      = Inr (tx @ concat (map (\<lambda>l. l @ [10]) (concat (map (\<lambda>s. map (t s) [0..<nat n]) ss))))"
    if "\<forall>s \<in> set ss. s < batch_size_of beams" for tx ss
    using that by (induction ss arbitrary: tx) (simp_all add: inner o_def)
  from this[of "[0..<batch_size_of beams]" "[]"] show ?thesis
    by (simp add: batch_text_def batch_lines_def)
qed

lemma translates_texts:
  "translates infer_mode n tgt_eos opt b ls \<Longrightarrow> l \<in> set ls \<Longrightarrow> encodable l \<and> (\<forall>c \<in> set l. \<not> is_eol c)"
  by (auto simp: translates_def batch_lines_def)

lemma list_all2_right: "list_all2 P xs ys \<Longrightarrow> y \<in> set ys \<Longrightarrow> \<exists>x. P x y"
  by (induction rule: list_all2_induct) auto

lemma length_batch_lines: "length (batch_lines t m n) = m * n"
  by (simp add: batch_lines_def length_concat o_def sum_list_triv)

definition batch_count :: "pystr \<Rightarrow> nmt_outputs \<Rightarrow> nat" where
  "batch_count infer_mode outputs =
     (case with_beams infer_mode outputs of Inl _ \<Rightarrow> 0 | Inr beams \<Rightarrow> batch_size_of beams)"

lemma decode_loop_yields:
  assumes "yields decode s bs s'"
    and "list_all2 (translates infer_mode n tgt_eos subword_option) bs texts"
  shows "decode_loop decode infer_mode n tgt_eos subword_option s acc k
    = Some (Inr (acc @ concat (map (\<lambda>l. l @ [10]) (concat texts)),
                 k + sum_list (map (batch_count infer_mode) bs), s'))"
  using assms
proof (induction bs arbitrary: s acc k texts)
  case Nil
  then show ?case by (simp add: decode_loop.simps)
next
  case (Cons b bs)
  then obtain t ls texts' where t: "decode s = Batch b t" "yields decode t bs s'"
    and ls: "texts = ls # texts'" "translates infer_mode n tgt_eos subword_option b ls"
    "list_all2 (translates infer_mode n tgt_eos subword_option) bs texts'"
    by (auto simp: list_all2_Cons1)
  from ls(2) obtain beams f where f: "with_beams infer_mode b = Inr beams"
    "ls = batch_lines f (batch_size_of beams) (nat n)"
    "\<And>s b. s < batch_size_of beams \<Longrightarrow> b < nat n \<Longrightarrow>
       translation_line beams tgt_eos subword_option s b = Inr (f s b @ [10])"
    unfolding translates_def by (metis translation_line_eq)
  have "batch_text beams n tgt_eos subword_option = Inr (concat (map (\<lambda>l. l @ [10]) ls))"
    using batch_text_eq[of beams n, OF f(3)] f(2) by simp
  with t(1) f(1) show ?case
    by (subst decode_loop.simps)
      (simp add: Cons.IH[OF t(2) ls(3)] ls(1) batch_count_def[of infer_mode b])
qed

lemma decode_file_run:
  assumes "yields decode sess bs sess'"
    and "list_all2 (translates infer_mode (translations_per_input infer_mode k beam_width) tgt_eos opt) bs texts"
    and "\<And>s. encodable s \<Longrightarrow> \<exists>w'. write_text G w trans_file s = Inr w'"
  shows "\<exists>w'. decode_file G decode w sess trans_file opt beam_width tgt_eos k infer_mode
      = Some (Inr (sum_list (map (batch_count infer_mode) bs), w', sess'))
    \<and> write_text G w trans_file (concat (map (\<lambda>l. l @ [10]) (concat texts))) = Inr w'
    \<and> splitlines_keep (concat (map (\<lambda>l. l @ [10]) (concat texts))) = map (\<lambda>l. l @ [10]) (concat texts)"
proof -
  let ?text = "concat (map (\<lambda>l. l @ [10]) (concat texts))"
  have lines: "\<forall>l \<in> set (concat texts). encodable l \<and> (\<forall>c \<in> set l. \<not> is_eol c)"
    using list_all2_right[OF assms(2)] translates_texts by fastforce
  then have "encodable ?text" by (auto simp: encodable_def scalar_def)
  from assms(3)[OF this] obtain w' where w': "write_text G w trans_file ?text = Inr w'" by blast
  have "splitlines_keep ?text = map (\<lambda>l. l @ [10]) (concat texts)"
    by (rule splitlines_keep_lines) (use lines in blast)
  moreover have "decode_file G decode w sess trans_file opt beam_width tgt_eos k infer_mode
      = Some (Inr (sum_list (map (batch_count infer_mode) bs), w', sess'))"
    using decode_loop_yields[OF assms(1,2), of "[]" 0] w' by (simp add: decode_file_def Let_def)
  ultimately show ?thesis using w' by blast
qed

section \<open>Properties\<close>

text \<open>
  C15. Decoding writes every translation once and in order: for a session that yields the
  batches \<open>bs\<close> and then ends, with every selected sentence translatable to a text without line
  ends, \<open>decode_file\<close> returns, the number of sentences is the sum of the batch sizes, and the
  file read back consists of exactly the lines of the batches, sentence by sentence and, within
  a sentence, beam by beam.
\<close>

theorem decode_file_writes_translations:
  assumes "gfile_laws G"
    and "yields decode sess bs sess'"
    and "list_all2 (translates infer_mode (translations_per_input infer_mode k beam_width) tgt_eos opt) bs texts"
    and "\<And>s. encodable s \<Longrightarrow> \<exists>w'. write_text G w trans_file s = Inr w'"
  shows "\<exists>w'. decode_file G decode w sess trans_file opt beam_width tgt_eos k infer_mode
      = Some (Inr (sum_list (map (batch_count infer_mode) bs), w', sess'))
    \<and> read_lines G w' trans_file = Inr (map (\<lambda>l. l @ [10]) (concat texts))"
  using decode_file_run[OF assms(2-4)] gfile_laws.text_written[OF assms(1)]
  by (fastforce simp: read_lines_def)

text \<open>
  Scoring an existing file covers every metric: with known metrics and two readable,
  non-empty files, \<open>evaluate_file\<close> returns a dictionary whose keys are exactly the given
  metrics and whose values are percentages; without a reference file, or when the translation
  file does not exist, the dictionary is empty and nothing is read.
\<close>

theorem evaluate_file_scores_all:
  assumes "\<forall>m \<in> set metrics. known_metric m" and "truthy (Some ref)"
    and "gf_exists G w trans_file \<Longrightarrow>
           read_lines G w ref = Inr ls \<and> ls \<noteq> [] \<and> read_lines G w trans_file = Inr ps \<and> ps \<noteq> []"
    and "\<And>xs. xs \<noteq> [] \<Longrightarrow> np_mean xs = sum_list xs / real (length xs)"
  shows "\<exists>scores. evaluate_file G np_mean w trans_file (Some ref) metrics opt = Inr scores
    \<and> dom scores = (if gf_exists G w trans_file then set metrics else {})
    \<and> ran scores \<subseteq> {0..100}
    \<and> evaluate_file G np_mean w trans_file None metrics opt = Inr Map.empty"
proof (cases "gf_exists G w trans_file")
  case True
  let ?step = "\<lambda>sc m. bindE (evaluate G np_mean w ref trans_file m opt) (\<lambda>s. Inr (sc(m \<mapsto> s)))"
  have each: "\<exists>s. evaluate G np_mean w ref trans_file m opt = Inr s \<and> 0 \<le> s \<and> s \<le> 100"
    if "m \<in> set metrics" for m
    using assms(1,3,4) True that by (intro evaluate_percentage[of m G w ref ls trans_file ps]) auto
  have "\<exists>sc'. foldE ?step sc ms = Inr sc' \<and> dom sc' = dom sc \<union> set ms \<and> ran sc' \<subseteq> ran sc \<union> {0..100}"
    if "set ms \<subseteq> set metrics" for sc ms
    using that
  proof (induction ms arbitrary: sc)
    case (Cons m ms)
    then obtain s where s: "evaluate G np_mean w ref trans_file m opt = Inr s" "0 \<le> s" "s \<le> 100"
      using each[of m] by (auto simp del: fun_upd_apply)
    have "set ms \<subseteq> set metrics" using Cons.prems by simp
    from Cons.IH[OF this, of "sc(m \<mapsto> s)"] obtain sc' where
      sc': "foldE ?step (sc(m \<mapsto> s)) ms = Inr sc'" "dom sc' = dom (sc(m \<mapsto> s)) \<union> set ms"
      "ran sc' \<subseteq> ran (sc(m \<mapsto> s)) \<union> {0..100}" by (elim exE conjE)
    have "ran (sc(m \<mapsto> s)) \<subseteq> ran sc \<union> {s}" by (auto simp: ran_def)
    moreover have "s \<in> {0..100}" using s by simp
    ultimately have "ran sc' \<subseteq> ran sc \<union> {0..100}" using sc'(3) by blast
    moreover have "dom sc' = dom sc \<union> set (m # ms)" using sc'(2) by (auto simp: dom_def)
    moreover have "foldE ?step sc (m # ms) = Inr sc'" using s(1) sc'(1) by simp
    ultimately show ?case by blast
  qed simp
  from this[of metrics Map.empty] assms(2) True show ?thesis
    by (auto simp: evaluate_file_def truthy_def)
next
  case False
  then show ?thesis by (simp add: evaluate_file_def truthy_def)
qed

definition sample_decode :: "nat \<Rightarrow> nat decoded" where
  "sample_decode s = (if s = 0 then Batch (Rows [[''a'', ''b''], [''c'']]) 1 else OutOfRange 2)"

lemma sample_yields: "yields sample_decode 0 [Rows [[''a'', ''b''], [''c'']]] 2"
  by (simp add: sample_decode_def)

lemma sample_translates:
  "translates (u ''greedy'') 1 None None (Rows [[''a'', ''b''], [''c'']]) [u ''a b'', u ''c'']"
proof -
  let ?t = "\<lambda>(s :: nat) (b :: nat). if s = 0 then u ''a b'' else u ''c''"
  have enc: "utf8_encode (u ''a b'') = ''a b''" "utf8_encode (u ''c'') = ''c''"
    by code_simp+
  have chars: "set (u ''a b'') = {97, 32, 98}" "set (u ''c'') = {99}" by (simp_all add: u_def)
  have "\<forall>s < 2. \<forall>b < Suc 0. b < length [[[''a'', ''b''], [''c'']]] \<and> encodable (?t s b) \<and>
      (\<forall>c \<in> set (?t s b). \<not> is_eol c) \<and>
      get_translation ([[[''a'', ''b''], [''c'']]] ! b) (int s) None None = Inr (utf8_encode (?t s b))"
    by (auto simp: less_2_cases_iff get_translation_def list_get_def truthy_def format_text_def enc
        encodable_def scalar_def chars is_eol_def)
  moreover have "[u ''a b'', u ''c''] = batch_lines ?t 2 1"
    by (simp add: batch_lines_def upt_rec numeral_2_eq_2)
  ultimately show ?thesis
    unfolding translates_def
    by (intro exI[of _ "[[[''a'', ''b''], [''c'']]]"] exI[of _ ?t])
      (simp add: with_beams_def batch_size_of_def numeral_2_eq_2)
qed

theorem decode_file_writes_translations_witness:
  "\<exists>w'. decode_file dict_gfile sample_decode Map.empty 0 [116] None 0 None 5 (u ''greedy'')
      = Some (Inr (sum_list (map (batch_count (u ''greedy'')) [Rows [[''a'', ''b''], [''c'']]]), w', 2))
    \<and> read_lines dict_gfile w' [116] = Inr (map (\<lambda>l. l @ [10]) (concat [[u ''a b'', u ''c'']]))"
  by (rule decode_file_writes_translations[OF dict_files.gfile_laws_axioms sample_yields])
    (simp_all add: translations_per_input_def sample_translates dict_gfile_text)

theorem evaluate_file_scores_all_witness:
  "\<exists>scores. evaluate_file dict_gfile list_mean sample_eval_fs [116] (Some [114]) [u ''bleu'', u ''accuracy''] None = Inr scores
    \<and> dom scores = (if gf_exists dict_gfile sample_eval_fs [116] then set [u ''bleu'', u ''accuracy''] else {})
    \<and> ran scores \<subseteq> {0..100}
    \<and> evaluate_file dict_gfile list_mean sample_eval_fs [116] None [u ''bleu'', u ''accuracy''] None = Inr Map.empty"
  by (rule evaluate_file_scores_all[where ls = "[[97, 32, 98, 10], [99, 10]]" and ps = "[[97, 10]]"])
    (simp_all add: sample_eval_read truthy_def list_mean_def known_metric_def lower_def u_def)

end
