(* ===== verification/Schedule.thy ===== *)
theory Schedule
  imports PyText
begin

text \<open>
  The learning rate of \<open>nmt/model.py\<close>: \<open>_get_learning_rate_warmup\<close>, \<open>_get_decay_info\<close> and
  \<open>_get_learning_rate_decay\<close>. The code builds a graph whose value depends on the global step;
  the model is that value as a function of the step, with the scalar TensorFlow operations as
  the parameter \<open>F\<close>. \<open>int(a / b)\<close> is \<open>int_of_div\<close>.
\<close>

record lr_hparams =
  learning_rate :: real
  warmup_steps :: int
  warmup_scheme :: pystr
  decay_scheme :: pystr
  num_train_steps :: int

record float_ops =
  tf_exp :: "real \<Rightarrow> real"
  tf_log :: "real \<Rightarrow> real"
  tf_pow :: "real \<Rightarrow> int \<Rightarrow> real"
  exponential_decay :: "real \<Rightarrow> int \<Rightarrow> int \<Rightarrow> real \<Rightarrow> real"

text \<open>
  The documented behaviour the schedule relies on. \<open>exponential_decay\<close> is called with
  \<open>staircase=True\<close>: the exponent is the integer part of the quotient; nothing is stated
  for a quotient by zero (which the code only asks for without a decay scheme, at the steps after
  the last one of training).
\<close>

definition float_laws :: "float_ops \<Rightarrow> bool" where
  "float_laws F \<longleftrightarrow>
     (\<forall>x. tf_exp F x = exp x) \<and> (\<forall>x > 0. tf_log F x = ln x) \<and>
     (\<forall>x n. 0 < x \<longrightarrow> 0 \<le> n \<longrightarrow> tf_pow F x n = x ^ nat n) \<and>
     (\<forall>lr step decay_steps factor. 0 \<le> step \<longrightarrow> 0 < decay_steps \<longrightarrow>
        exponential_decay F lr step decay_steps factor = lr * factor ^ nat (step div decay_steps))"

definition get_learning_rate_warmup :: "float_ops \<Rightarrow> lr_hparams \<Rightarrow> int \<Rightarrow> real res" where
  "get_learning_rate_warmup F hparams global_step =
     (if warmup_scheme hparams = u ''t2t''
      then let warmup_factor = tf_exp F (tf_log F 0.01 / real_of_int (warmup_steps hparams));
               inv_decay = tf_pow F warmup_factor (warmup_steps hparams - global_step)
           in Inr (if global_step < warmup_steps hparams
                   then inv_decay * learning_rate hparams else learning_rate hparams)
      else Inl ValueError)"

definition get_decay_info :: "lr_hparams \<Rightarrow> (int \<times> int \<times> real) res" where
  "get_decay_info hparams =
     (let n = num_train_steps hparams; scheme = decay_scheme hparams
      in if scheme \<in> {u ''luong5'', u ''luong10'', u ''luong234''}
         then let decay_factor = 0.5;
                  (start_decay_step, decay_times) =
                    (if scheme = u ''luong5'' then (int_of_div n 2, 5)
                     else if scheme = u ''luong10'' then (int_of_div n 2, 10)
                     else (int_of_div (n * 2) 3, 4));
                  remain_steps = n - start_decay_step;
                  decay_steps = int_of_div remain_steps decay_times
              in Inr (start_decay_step, decay_steps, decay_factor)
         else if scheme = [] then Inr (n, 0, 1)
         else Inl ValueError)"

definition get_learning_rate_decay :: "float_ops \<Rightarrow> lr_hparams \<Rightarrow> real \<Rightarrow> int \<Rightarrow> real res" where
  "get_learning_rate_decay F hparams rate global_step =
     bindE (get_decay_info hparams) (\<lambda>(start_decay_step, decay_steps, decay_factor).
     Inr (if global_step < start_decay_step then rate
          else exponential_decay F rate (global_step - start_decay_step) decay_steps decay_factor))"

text \<open>The rate \<open>_set_train_or_infer\<close> hands to the optimizer: warm-up, then decay.\<close>

definition rate_at :: "float_ops \<Rightarrow> lr_hparams \<Rightarrow> int \<Rightarrow> real res" where
  "rate_at F hparams global_step =
     bindE (get_learning_rate_warmup F hparams global_step) (\<lambda>rate.
     get_learning_rate_decay F hparams rate global_step)"

section \<open>The decay schemes\<close>

definition decay_times_of :: "pystr \<Rightarrow> int" where
  "decay_times_of scheme = (if scheme = u ''luong5'' then 5 else if scheme = u ''luong10'' then 10 else 4)"

definition decay_start_of :: "pystr \<Rightarrow> int \<Rightarrow> int" where
  "decay_start_of scheme n =
     (if scheme = [] then n else if scheme = u ''luong234'' then n * 2 div 3 else n div 2)"

definition luong_scheme :: "pystr \<Rightarrow> bool" where
  "luong_scheme scheme \<longleftrightarrow> scheme \<in> {u ''luong5'', u ''luong10'', u ''luong234''}"

lemma decay_times_pos [simp]: "0 < decay_times_of scheme"
  by (simp add: decay_times_of_def)

lemma decay_start_bounds:
  assumes "0 \<le> n"
  shows "0 \<le> decay_start_of scheme n" "decay_start_of scheme n \<le> n"
  using assms by (auto simp: decay_start_of_def)

lemma get_decay_info_luong:
  assumes "luong_scheme (decay_scheme h)" "0 \<le> num_train_steps h"
  shows "get_decay_info h = Inr (decay_start_of (decay_scheme h) (num_train_steps h),
    (num_train_steps h - decay_start_of (decay_scheme h) (num_train_steps h)) div decay_times_of (decay_scheme h), 0.5)"
proof -
  have "0 \<le> n - n div 2" "0 \<le> n - n * 2 div 3" if "0 \<le> n" for n :: int using that by auto
  from this[OF assms(2)] assms show ?thesis
    by (auto simp: get_decay_info_def luong_scheme_def decay_start_of_def decay_times_of_def Let_def)
qed

text \<open>How often the rate has been halved when an update at \<open>global_step\<close> is computed.\<close>

definition halvings :: "lr_hparams \<Rightarrow> int \<Rightarrow> nat" where
  "halvings h global_step =
     (case get_decay_info h of
        Inl _ \<Rightarrow> 0
      | Inr (start, decay_steps, factor) \<Rightarrow>
          if global_step < start \<or> decay_steps = 0 then 0 else nat ((global_step - start) div decay_steps))"

definition warm_rate :: "lr_hparams \<Rightarrow> int \<Rightarrow> real" where
  "warm_rate h step =
     (if step < warmup_steps h
      then (exp (ln 0.01 / real_of_int (warmup_steps h))) ^ nat (warmup_steps h - step) * learning_rate h
      else learning_rate h)"

lemma warmup_eq:
  assumes "float_laws F" "warmup_scheme h = u ''t2t''"
  shows "get_learning_rate_warmup F h step = Inr (warm_rate h step)"
proof -
  have F: "tf_exp F x = exp x" "0 < x \<Longrightarrow> tf_log F x = ln x"
    "0 < y \<Longrightarrow> 0 \<le> n \<Longrightarrow> tf_pow F y n = y ^ nat n" for x y n
    using assms(1) by (auto simp: float_laws_def)
  show ?thesis
    using assms(2) by (auto simp: get_learning_rate_warmup_def warm_rate_def F Let_def)
qed

text \<open>A training job that decays: enough steps for each halving to have at least one.\<close>

definition decays :: "lr_hparams \<Rightarrow> bool" where
  "decays h \<longleftrightarrow> luong_scheme (decay_scheme h) \<and> warmup_scheme h = u ''t2t'' \<and> 0 < learning_rate h
     \<and> 0 \<le> warmup_steps h
     \<and> decay_times_of (decay_scheme h)
         \<le> num_train_steps h - decay_start_of (decay_scheme h) (num_train_steps h)"

lemma decays_steps:
  assumes "decays h"
  shows "0 \<le> num_train_steps h"
    and "0 < (num_train_steps h - decay_start_of (decay_scheme h) (num_train_steps h)) div decay_times_of (decay_scheme h)"
proof -
  let ?n = "num_train_steps h"
  show n: "0 \<le> ?n"
    using assms unfolding decays_def decay_start_of_def decay_times_of_def by (auto split: if_splits)
  show "0 < (?n - decay_start_of (decay_scheme h) ?n) div decay_times_of (decay_scheme h)"
    using assms by (simp add: decays_def pos_imp_zdiv_pos_iff)
qed

lemma rate_at_eq:
  assumes "float_laws F" "decays h" "0 \<le> step"
  shows "rate_at F h step = Inr (warm_rate h step * 0.5 ^ halvings h step)"
proof -
  let ?n = "num_train_steps h"
  let ?s = "decay_start_of (decay_scheme h) ?n"
  let ?d = "(?n - ?s) div decay_times_of (decay_scheme h)"
  have F: "0 \<le> k \<Longrightarrow> 0 < d \<Longrightarrow> exponential_decay F lr k d f = lr * f ^ nat (k div d)" for lr k d f
    using assms(1) by (simp add: float_laws_def)
  have luong: "luong_scheme (decay_scheme h)" and w: "warmup_scheme h = u ''t2t''"
    using assms(2) by (auto simp: decays_def)
  note info = get_decay_info_luong[OF luong decays_steps(1)[OF assms(2)]]
  note d = decays_steps(2)[OF assms(2)]
  have hv: "halvings h step = (if step < ?s then 0 else nat ((step - ?s) div ?d))"
    using d by (simp add: halvings_def info)
  have "get_learning_rate_decay F h r step = Inr (r * 0.5 ^ halvings h step)" for r
    unfolding hv using d by (simp add: get_learning_rate_decay_def info F)
  then show ?thesis by (simp add: rate_at_def warmup_eq[OF assms(1) w])
qed

lemma warm_rate_bounds:
  assumes "0 < learning_rate h" "0 \<le> warmup_steps h" "0 \<le> step"
  shows "learning_rate h / 100 \<le> warm_rate h step" "warm_rate h step \<le> learning_rate h" "0 < warm_rate h step"
proof -
  let ?w = "warmup_steps h"
  let ?f = "exp (ln 0.01 / real_of_int ?w) :: real"
  have "learning_rate h / 100 \<le> warm_rate h step \<and> warm_rate h step \<le> learning_rate h"
  proof (cases "step < ?w")
    case True
    then have w: "0 < ?w" using assms(3) by simp
    have f: "0 < ?f" "?f \<le> 1" using w by (auto simp: divide_le_0_iff)
    have "?f ^ nat ?w = 0.01"
    proof -
      have "?f ^ nat ?w = exp (real (nat ?w) * (ln 0.01 / real_of_int ?w))"
        by (simp only: exp_of_nat_mult)
      also have "real (nat ?w) * (ln 0.01 / real_of_int ?w) = ln 0.01" using w by simp
      finally show ?thesis by simp
    qed
    moreover have "?f ^ nat ?w \<le> ?f ^ nat (?w - step)"
      using f assms(3) by (intro power_decreasing) auto
    moreover have "?f ^ nat (?w - step) \<le> 1" using f by (simp add: power_le_one)
    ultimately have "0.01 \<le> ?f ^ nat (?w - step)" "?f ^ nat (?w - step) \<le> 1" by simp_all
    with assms(1) True show ?thesis
      using mult_right_mono[of "0.01" "?f ^ nat (?w - step)" "learning_rate h"]
        mult_right_mono[of "?f ^ nat (?w - step)" 1 "learning_rate h"]
      by (simp add: warm_rate_def)
  next
    case False
    with assms show ?thesis by (simp add: warm_rate_def)
  qed
  then show "learning_rate h / 100 \<le> warm_rate h step" "warm_rate h step \<le> learning_rate h" "0 < warm_rate h step"
    using assms(1) by auto
qed

lemma halvings_mono: "decays h \<Longrightarrow> step \<le> step' \<Longrightarrow> halvings h step \<le> halvings h step'"
  using decays_steps[of h] by (auto simp: halvings_def get_decay_info_luong decays_def intro!: nat_mono zdiv_mono1)

text \<open>Schedules that give a rate at a step: a decay, or none and a step of the training.\<close>

definition scheduled :: "lr_hparams \<Rightarrow> int \<Rightarrow> bool" where
  "scheduled h step \<longleftrightarrow> 0 \<le> step \<and>
     (decays h \<or> decay_scheme h = [] \<and> step < num_train_steps h
        \<and> warmup_scheme h = u ''t2t'' \<and> 0 < learning_rate h \<and> 0 \<le> warmup_steps h)"

lemma scheduled_rate:
  assumes "float_laws F" "scheduled h step"
  shows "rate_at F h step = Inr (warm_rate h step * 0.5 ^ halvings h step)"
proof (cases "decays h")
  case True
  with assms show ?thesis by (simp add: scheduled_def rate_at_eq)
next
  case False
  with assms(2) have h: "decay_scheme h = []" "step < num_train_steps h" "warmup_scheme h = u ''t2t''"
    by (auto simp: scheduled_def)
  have "[] \<notin> {u ''luong5'', u ''luong10'', u ''luong234''}" by (simp add: u_def)
  with h(1) have info: "get_decay_info h = Inr (num_train_steps h, 0, 1)" by (simp add: get_decay_info_def)
  with h(2) show ?thesis
    by (simp add: rate_at_def warmup_eq[OF assms(1) h(3)] get_learning_rate_decay_def halvings_def info)
qed

lemma scheduled_settings:
  "scheduled h step \<Longrightarrow> 0 < learning_rate h \<and> 0 \<le> warmup_steps h \<and> 0 \<le> step"
  by (auto simp: scheduled_def decays_def)

lemma halvings_none: "decay_scheme h = [] \<Longrightarrow> halvings h step = 0"
  by (simp add: halvings_def get_decay_info_def u_def)

lemma halvings_before_start:
  assumes "scheduled h step" "step < decay_start_of (decay_scheme h) (num_train_steps h)"
  shows "halvings h step = 0"
proof (cases "decays h")
  case True
  with assms(2) decays_steps(1)[OF True] show ?thesis
    by (simp add: halvings_def get_decay_info_luong decays_def)
qed (use assms(1) in \<open>auto simp: scheduled_def halvings_none\<close>)

lemma scheduled_halvings_mono:
  "scheduled h step \<Longrightarrow> step \<le> step' \<Longrightarrow> halvings h step \<le> halvings h step'"
  using halvings_mono[of h step step'] by (auto simp: scheduled_def halvings_none)

lemma warm_rate_start:
  assumes "0 < warmup_steps h"
  shows "warm_rate h 0 = learning_rate h / 100"
proof -
  have "exp (ln 0.01 / real_of_int (warmup_steps h)) ^ nat (warmup_steps h)
      = exp (real (nat (warmup_steps h)) * (ln 0.01 / real_of_int (warmup_steps h)))"
    by (simp only: exp_of_nat_mult)
  also have "real (nat (warmup_steps h)) * (ln 0.01 / real_of_int (warmup_steps h)) = ln 0.01" using assms by simp
  finally show ?thesis using assms by (simp add: warm_rate_def)
qed

section \<open>Properties\<close>

text \<open>
  C23. The learning rate stays in its range, for a decay scheme with enough steps and, at the
  steps of the training, without a scheme (the default of the flags). The rate is defined,
  positive and at most the configured rate; with a warm-up, and if the decay does not start at
  step 0, it is a hundredth of the configured rate at step 0; between the end of the warm-up and
  the start of the decay (two thirds of the steps for \<open>luong234\<close>, half of them for the other
  schemes, the end of training without one) it is the configured rate itself; and from the end of
  the warm-up on it never grows.
\<close>

theorem learning_rate_range:
  assumes "float_laws F" "scheduled h step" "scheduled h step'" "step \<le> step'"
  shows "\<exists>r r'. rate_at F h step = Inr r \<and> rate_at F h step' = Inr r'
    \<and> 0 < r \<and> r \<le> learning_rate h
    \<and> (step = 0 \<and> 0 < warmup_steps h \<and> 0 < decay_start_of (decay_scheme h) (num_train_steps h) \<longrightarrow>
         r = learning_rate h / 100)
    \<and> (warmup_steps h \<le> step \<and> step < decay_start_of (decay_scheme h) (num_train_steps h) \<longrightarrow>
         r = learning_rate h)
    \<and> (warmup_steps h \<le> step \<longrightarrow> r' \<le> r)"
proof -
  have lr: "0 < learning_rate h" "0 \<le> warmup_steps h" "0 \<le> step"
    using scheduled_settings[OF assms(2)] by simp_all
  note w = warm_rate_bounds[OF lr]
  have half: "0 < (0.5 :: real) ^ k" "(0.5 :: real) ^ k \<le> 1" for k by (simp_all add: power_le_one)
  note r = scheduled_rate[OF assms(1,2)] scheduled_rate[OF assms(1,3)]
  have "warm_rate h step * 0.5 ^ halvings h step \<le> learning_rate h * 1"
    using w(2,3) half(2) lr by (intro mult_mono) auto
  moreover have "0 < warm_rate h step * 0.5 ^ halvings h step" using w(3) by simp
  moreover have "warm_rate h step * 0.5 ^ halvings h step = learning_rate h / 100"
    if "step = 0" "0 < warmup_steps h" "0 < decay_start_of (decay_scheme h) (num_train_steps h)"
    using that halvings_before_start[OF assms(2)] by (simp add: warm_rate_start)
  moreover have "warm_rate h step * 0.5 ^ halvings h step = learning_rate h"
    if "warmup_steps h \<le> step" "step < decay_start_of (decay_scheme h) (num_train_steps h)"
    using that halvings_before_start[OF assms(2)] by (simp add: warm_rate_def)
  moreover have "warm_rate h step' * 0.5 ^ halvings h step' \<le> warm_rate h step * 0.5 ^ halvings h step"
    if "warmup_steps h \<le> step"
  proof -
    have "(0.5 :: real) ^ halvings h step' \<le> 0.5 ^ halvings h step"
      using scheduled_halvings_mono[OF assms(2,4)] by (intro power_decreasing) auto
    with that assms(4) lr show ?thesis by (simp add: warm_rate_def)
  qed
  ultimately show ?thesis using r by auto
qed

text \<open>
  How often the rate is halved: the scheme names promise 5, 10 and 4 halvings before the
  end. When the steps that remain after the start of the decay divide evenly, the last halving
  takes effect exactly at the step \<open>num_train_steps\<close>, which is never trained: every update of
  the training loop sees at most one halving less, and the last update sees exactly that many.
\<close>

theorem luong_halvings:
  assumes "decays h"
    and "decay_times_of (decay_scheme h) dvd num_train_steps h - decay_start_of (decay_scheme h) (num_train_steps h)"
  shows "halvings h (num_train_steps h) = nat (decay_times_of (decay_scheme h))
    \<and> halvings h (num_train_steps h - 1) = nat (decay_times_of (decay_scheme h) - 1)
    \<and> (\<forall>step < num_train_steps h. halvings h step \<le> nat (decay_times_of (decay_scheme h) - 1))"
proof -
  let ?n = "num_train_steps h" and ?t = "decay_times_of (decay_scheme h)"
  let ?s = "decay_start_of (decay_scheme h) ?n"
  let ?d = "(?n - ?s) div ?t"
  note d = decays_steps(2)[OF assms(1)]
  have n: "0 \<le> ?n" by (rule decays_steps(1)[OF assms(1)])
  have hv: "halvings h step = (if step < ?s then 0 else nat ((step - ?s) div ?d))" for step
    using assms(1) n d by (simp add: halvings_def get_decay_info_luong decays_def)
  have rem: "?n - ?s = ?t * ?d" using assms(2) by simp
  have t: "0 < ?t" by simp
  have "a div e = b" if "a = b * e" "0 < e" for a b e :: int using that by simp
  from this[OF rem d] have "(?n - ?s) div ?d = ?t" .
  then have 1: "halvings h ?n = nat ?t"
    using hv[of ?n] decay_start_bounds[OF n, of "decay_scheme h"] by simp
  have "(?n - 1 - ?s) div ?d = ?t - 1"
  proof (rule int_div_pos_eq)
    show "?n - 1 - ?s = ?d * (?t - 1) + (?d - 1)" using rem by (simp add: algebra_simps)
  qed (use d in auto)
  moreover have "?s \<le> ?n - 1"
    using rem mult_pos_pos[OF t d] by linarith
  ultimately have 2: "halvings h (?n - 1) = nat (?t - 1)" using hv[of "?n - 1"] by simp
  have "halvings h step \<le> nat (?t - 1)" if "step < ?n" for step
    using halvings_mono[OF assms(1), of step "?n - 1"] that 2 by simp
  with 1 2 show ?thesis by blast
qed

definition sample_lr :: lr_hparams where
  "sample_lr = \<lparr>learning_rate = 1, warmup_steps = 100, warmup_scheme = u ''t2t'',
     decay_scheme = u ''luong5'', num_train_steps = 12000\<rparr>"

definition real_ops :: float_ops where
  "real_ops = \<lparr>tf_exp = exp, tf_log = ln, tf_pow = (\<lambda>x n. x ^ nat n),
     exponential_decay = (\<lambda>lr step d f. lr * f ^ nat (step div d))\<rparr>"

lemma real_ops_laws: "float_laws real_ops"
  by (simp add: float_laws_def real_ops_def)

lemma sample_lr_decays: "decays sample_lr"
  by (simp add: decays_def sample_lr_def luong_scheme_def decay_times_of_def decay_start_of_def)

text \<open>The defaults of the flags: no warm-up, no decay.\<close>

definition default_lr :: lr_hparams where
  "default_lr = \<lparr>learning_rate = 1, warmup_steps = 0, warmup_scheme = u ''t2t'', decay_scheme = [],
     num_train_steps = 12000\<rparr>"

theorem learning_rate_range_witness:
  "(\<exists>r'. rate_at real_ops sample_lr 0 = Inr (1 / 100) \<and> rate_at real_ops sample_lr 9000 = Inr r')
    \<and> (\<exists>r r'. rate_at real_ops sample_lr 100 = Inr r \<and> rate_at real_ops sample_lr 9000 = Inr r' \<and> r = 1 \<and> r' \<le> r)
    \<and> (\<exists>r'. rate_at real_ops default_lr 0 = Inr 1 \<and> rate_at real_ops default_lr 11999 = Inr r' \<and> r' \<le> 1)"
proof -
  have s: "scheduled sample_lr 0" "scheduled sample_lr 100" "scheduled sample_lr 9000"
      "scheduled default_lr 0" "scheduled default_lr 11999"
    by (simp_all add: scheduled_def sample_lr_decays default_lr_def)
  note l = learning_rate_range[OF real_ops_laws]
  show ?thesis
    using l[OF s(1,3)] l[OF s(2,3)] l[OF s(4,5)]
    by (auto simp: sample_lr_def default_lr_def decay_start_of_def u_def)
qed

theorem luong_halvings_witness:
  "halvings sample_lr (num_train_steps sample_lr) = nat (decay_times_of (decay_scheme sample_lr))
    \<and> halvings sample_lr (num_train_steps sample_lr - 1) = nat (decay_times_of (decay_scheme sample_lr) - 1)
    \<and> halvings sample_lr 1 \<le> nat (decay_times_of (decay_scheme sample_lr) - 1)"
proof -
  have "1 < num_train_steps sample_lr"
    and "decay_times_of (decay_scheme sample_lr)
      dvd num_train_steps sample_lr - decay_start_of (decay_scheme sample_lr) (num_train_steps sample_lr)"
    by (simp_all add: sample_lr_def decay_times_of_def decay_start_of_def)
  with luong_halvings[OF sample_lr_decays] show ?thesis by blast
qed

end
