(* ===== verification/Floats.thy ===== *)
theory Floats
  imports PyText
begin

text \<open>
  Python's floats as far as the programs look at them: exact reals with the two infinities and
  the undefined value (NaN), the arithmetic on them, \<open>math.exp\<close> and \<open>safe_exp\<close> of
  \<open>nmt/utils/misc_utils.py\<close>, the tests of \<open>math\<close>, and the fixed-point format \<open>"%.2f"\<close>. No
  rounding is modelled; the largest double only decides when \<open>math.exp\<close> overflows.
\<close>

datatype py_float = Finite real | Infinite | MinusInfinite | NaN

definition largest_double :: real where
  "largest_double = (2 - 1 / 2 ^ 52) * 2 ^ 1023"

text \<open>
  The sum: infinities of different signs give NaN, and NaN stays. With exact reals the floats are
  a commutative monoid, so that the facts on sums of lists apply to losses that are added up.
\<close>

instantiation py_float :: comm_monoid_add
begin

definition zero_py_float :: py_float where
  "0 = Finite 0"

fun plus_py_float :: "py_float \<Rightarrow> py_float \<Rightarrow> py_float" where
  "Finite x + Finite y = Finite (x + y)"
| "NaN + y = NaN"
| "x + NaN = NaN"
| "Finite x + y = y"
| "x + Finite y = x"
| "Infinite + Infinite = Infinite"
| "MinusInfinite + MinusInfinite = MinusInfinite"
| "(x :: py_float) + y = NaN"

instance
proof
  fix a b c :: py_float
  show "a + b + c = a + (b + c)" by (cases a; cases b; cases c) (simp_all add: add.assoc)
  show "a + b = b + a" by (cases a; cases b) (simp_all add: add.commute)
  show "0 + a = a" by (cases a) (simp_all add: zero_py_float_def)
qed

end

text \<open>Python's comparisons, false as soon as one side is NaN.\<close>

instantiation py_float :: ord
begin

fun less_py_float :: "py_float \<Rightarrow> py_float \<Rightarrow> bool" where
  "Finite x < Finite y \<longleftrightarrow> x < y"
| "x < NaN \<longleftrightarrow> False"
| "NaN < y \<longleftrightarrow> False"
| "MinusInfinite < y \<longleftrightarrow> y \<noteq> MinusInfinite"
| "x < Infinite \<longleftrightarrow> x \<noteq> Infinite"
| "(x :: py_float) < y \<longleftrightarrow> False"

definition less_eq_py_float :: "py_float \<Rightarrow> py_float \<Rightarrow> bool" where
  "x \<le> y \<longleftrightarrow> x < y \<or> x = y \<and> x \<noteq> NaN"

instance ..

end

lemma add_NaN [simp]: "x + NaN = NaN"
  by (cases x) auto

lemma sum_list_NaN: "NaN \<in> set xs \<Longrightarrow> sum_list xs = NaN"
  by (induction xs) auto

lemma sum_list_Finite: "(\<Sum>x\<leftarrow>xs. Finite (f x)) = Finite (\<Sum>x\<leftarrow>xs. f x)"
  by (induction xs) (simp_all add: zero_py_float_def)

text \<open>An infinity with the sign of a number, and the product with a finite factor.\<close>

definition signed_infinity :: "real \<Rightarrow> py_float" where
  "signed_infinity s = (if s > 0 then Infinite else if s < 0 then MinusInfinite else NaN)"

fun fscale :: "py_float \<Rightarrow> real \<Rightarrow> py_float" where
  "fscale (Finite x) y = Finite (x * y)"
| "fscale Infinite y = signed_infinity y"
| "fscale MinusInfinite y = signed_infinity (- y)"
| "fscale NaN y = NaN"

text \<open>Numpy's division by a finite number: a zero divisor gives an infinity or NaN.\<close>

fun np_div :: "py_float \<Rightarrow> real \<Rightarrow> py_float" where
  "np_div (Finite x) y = (if y = 0 then signed_infinity x else Finite (x / y))"
| "np_div v y = (if y = 0 then v else fscale v (1 / y))"

fun is_finite :: "py_float \<Rightarrow> bool" where
  "is_finite (Finite x) = True"
| "is_finite _ = False"

fun math_exp :: "py_float \<Rightarrow> py_float res" where
  "math_exp (Finite v) = (if exp v > largest_double then Inl OverflowError else Inr (Finite (exp v)))"
| "math_exp Infinite = Inr Infinite"
| "math_exp MinusInfinite = Inr (Finite 0)"
| "math_exp NaN = Inr NaN"

definition safe_exp :: "py_float \<Rightarrow> py_float" where
  "safe_exp value = (case math_exp value of Inl _ \<Rightarrow> Infinite | Inr ans \<Rightarrow> ans)"

lemma safe_exp_ge_1: "0 \<le> v \<Longrightarrow> safe_exp (Finite v) = Finite p \<Longrightarrow> 1 \<le> p"
  by (auto simp: safe_exp_def split: if_splits)

lemma safe_exp_Finite: "is_finite (safe_exp v) \<Longrightarrow> is_finite v \<or> v = MinusInfinite"
  by (cases v) (auto simp: safe_exp_def)

section \<open>Fixed-point format\<close>

text \<open>The nearest integer, the even one of two.\<close>

definition round_half_even :: "real \<Rightarrow> int" where
  "round_half_even x =
     (let n = \<lfloor>x\<rfloor>; r = x - of_int n
      in if r < 1 / 2 then n else if r > 1 / 2 then n + 1 else if even n then n else n + 1)"

text \<open>The last \<open>k\<close> digits of a number, with leading zeros.\<close>

fun last_digits :: "nat \<Rightarrow> nat \<Rightarrow> pystr" where
  "last_digits 0 n = []"
| "last_digits (Suc k) n = last_digits k (n div 10) @ [48 + n mod 10]"

definition fixed_point :: "nat \<Rightarrow> real \<Rightarrow> pystr" where
  "fixed_point k x =
     (let n = nat (round_half_even (\<bar>x\<bar> * 10 ^ k))
      in (if x < 0 then [45] else []) @ nat_str (n div 10 ^ k) @ (if k = 0 then [] else 46 # last_digits k n))"

fun format_float :: "nat \<Rightarrow> py_float \<Rightarrow> pystr" where
  "format_float k (Finite x) = fixed_point k x"
| "format_float k Infinite = u ''inf''"
| "format_float k MinusInfinite = u ''-inf''"
| "format_float k NaN = u ''nan''"

lemma round_half_even_close: "\<bar>of_int (round_half_even x) - x\<bar> \<le> 1 / 2"
proof -
  have "of_int \<lfloor>x\<rfloor> \<le> x" "x < of_int \<lfloor>x\<rfloor> + 1" by linarith+
  then show ?thesis by (simp add: round_half_even_def Let_def abs_le_iff; linarith)
qed

lemma round_half_even_int [simp]: "round_half_even (of_int n) = n"
  by (simp add: round_half_even_def)

lemma length_last_digits [simp]: "length (last_digits k n) = k"
  by (induction k arbitrary: n) simp_all

lemma last_digits_value: "foldl (\<lambda>a d. 10 * a + (d - 48)) a (last_digits k n) = a * 10 ^ k + n mod 10 ^ k"
proof (induction k arbitrary: a n)
  case (Suc k)
  have "n mod (10 * 10 ^ k) = 10 * (n div 10 mod 10 ^ k) + n mod 10" by (rule mod_mult2_eq)
  with Suc show ?case by (simp add: algebra_simps)
qed simp

end
