(* ===== verification/Checkpoints.thy ===== *)
theory Checkpoints
  imports Files Floats
begin

text \<open>
  The checkpoint functions of \<open>nmt/model_helper.py\<close> (\<open>load_model\<close>, \<open>create_or_load_model\<close>,
  \<open>avg_checkpoints\<close>) and \<open>compute_perplexity\<close>.
  Sessions, checkpoint files and numpy arrays are parameters: records of the operations the
  code calls, with predicates stating their documented behaviour.
\<close>

section \<open>Perplexity\<close>

record eval_output =
  eval_loss :: py_float
  predict_count :: nat
  eval_batch_size :: nat

datatype 's evaluated = EvalBatch eval_output 's | EvalEnd 's

text \<open>
  The loop of \<open>compute_perplexity\<close>; \<open>None\<close> is a session that never ends. The first component
  of the result counts the batches: the division below is Python's on the initial integers
  when there was none, and numpy's afterwards.
\<close>

partial_function (option) perplexity_loop ::
    "('s \<Rightarrow> 's evaluated) \<Rightarrow> 's \<Rightarrow> nat \<Rightarrow> py_float \<Rightarrow> nat \<Rightarrow> (nat \<times> py_float \<times> nat \<times> 's) option" where
  "perplexity_loop eval sess batches total_loss total_predict_count =
     (case eval sess of
        EvalEnd sess' \<Rightarrow> Some (batches, total_loss, total_predict_count, sess')
      | EvalBatch out sess' \<Rightarrow>
          perplexity_loop eval sess' (batches + 1)
            (total_loss + fscale (eval_loss out) (real (eval_batch_size out)))
            (total_predict_count + predict_count out))"

definition compute_perplexity :: "('s \<Rightarrow> 's evaluated) \<Rightarrow> 's \<Rightarrow> (py_float \<times> 's) prog" where
  "compute_perplexity eval sess =
     (case perplexity_loop eval sess 0 (Finite 0) 0 of
        None \<Rightarrow> None
      | Some (batches, total_loss, total_predict_count, sess) \<Rightarrow> Some
          (bindE (if batches = 0 then Inl ZeroDivisionError
                  else Inr (np_div total_loss (real total_predict_count))) (\<lambda>q.
           Inr (safe_exp q, sess))))"

fun eval_yields :: "('s \<Rightarrow> 's evaluated) \<Rightarrow> 's \<Rightarrow> eval_output list \<Rightarrow> 's \<Rightarrow> bool" where
  "eval_yields eval s [] s' \<longleftrightarrow> eval s = EvalEnd s'"
| "eval_yields eval s (b # bs) s' \<longleftrightarrow> (\<exists>t. eval s = EvalBatch b t \<and> eval_yields eval t bs s')"

definition total_loss_of :: "py_float \<Rightarrow> eval_output list \<Rightarrow> py_float" where
  "total_loss_of l bs = l + (\<Sum>b\<leftarrow>bs. fscale (eval_loss b) (real (eval_batch_size b)))"

definition total_count_of :: "eval_output list \<Rightarrow> nat" where
  "total_count_of bs = (\<Sum>b\<leftarrow>bs. predict_count b)"

lemma perplexity_loop_yields:
  "eval_yields eval s bs s' \<Longrightarrow>
   perplexity_loop eval s k l c = Some (k + length bs, total_loss_of l bs, c + total_count_of bs, s')"
proof (induction bs arbitrary: s k l c)
  case Nil
  then show ?case by (simp add: perplexity_loop.simps total_loss_of_def total_count_of_def)
next
  case (Cons b bs)
  then obtain t where "eval s = EvalBatch b t" "eval_yields eval t bs s'" by auto
  with Cons.IH[of t] show ?case
    by (subst perplexity_loop.simps) (simp add: total_loss_of_def total_count_of_def add.assoc)
qed

lemma total_loss_finite:
  "\<forall>b \<in> set bs. eval_loss b = Finite (l b) \<Longrightarrow>
   total_loss_of (Finite a) bs = Finite (a + (\<Sum>b\<leftarrow>bs. l b * real (eval_batch_size b)))"
  by (simp add: total_loss_of_def sum_list_Finite cong: map_cong)

lemma total_loss_NaN: "x = NaN \<or> (\<exists>b \<in> set bs. eval_loss b = NaN) \<Longrightarrow> total_loss_of x bs = NaN"
  using sum_list_NaN[of "map (\<lambda>b. fscale (eval_loss b) (real (eval_batch_size b))) bs"]
  by (force simp: total_loss_of_def)

section \<open>Loading a model\<close>

record ('w, 's) model_ops =
  mo_restore :: "'w \<Rightarrow> 's \<Rightarrow> pystr \<Rightarrow> 's res"
  mo_print_variables :: "'w \<Rightarrow> pystr \<Rightarrow> unit res"
  mo_init_tables :: "'s \<Rightarrow> 's res"
  mo_init_variables :: "'s \<Rightarrow> 's res"
  mo_global_step :: "'s \<Rightarrow> int res"
  mo_latest_checkpoint :: "'w \<Rightarrow> pystr \<Rightarrow> pystr option"

definition load_model :: "('w, 's) model_ops \<Rightarrow> 'w \<Rightarrow> pystr \<Rightarrow> 's \<Rightarrow> 's res" where
  "load_model M w ckpt_path session =
     bindE (case mo_restore M w session ckpt_path of
              Inl NotFoundError \<Rightarrow> bindE (mo_print_variables M w ckpt_path) (\<lambda>_. Inr session)
            | Inl e \<Rightarrow> Inl e
            | Inr session \<Rightarrow> Inr session) (\<lambda>session.
     mo_init_tables M session)"

definition create_or_load_model :: "('w, 's) model_ops \<Rightarrow> 'w \<Rightarrow> pystr \<Rightarrow> 's \<Rightarrow> ('s \<times> int) res" where
  "create_or_load_model M w model_dir session =
     (let latest_ckpt = mo_latest_checkpoint M w model_dir
      in bindE (case latest_ckpt of
                  Some p \<Rightarrow> if p \<noteq> [] then load_model M w p session
                            else bindE (mo_init_variables M session) (mo_init_tables M)
                | None \<Rightarrow> bindE (mo_init_variables M session) (mo_init_tables M)) (\<lambda>session.
         bindE (mo_global_step M session) (\<lambda>global_step.
         Inr (session, global_step))))"

text \<open>
  Loading a checkpoint that is not there does not stop the program: when a model directory
  names a latest checkpoint whose restoration fails with \<open>NotFoundError\<close> while its variables
  can still be listed, \<open>create_or_load_model\<close> goes on with the session as it was, without
  initialising its variables, and returns that session's global step.
\<close>

lemma load_model_swallows_not_found:
  assumes "mo_latest_checkpoint M w model_dir = Some ckpt" "ckpt \<noteq> []"
    and "mo_restore M w session ckpt = Inl NotFoundError" "mo_print_variables M w ckpt = Inr ()"
    and "mo_init_tables M session = Inr session'" "mo_global_step M session' = Inr step"
  shows "create_or_load_model M w model_dir session = Inr (session', step)"
  using assms by (simp add: create_or_load_model_def load_model_def)

section \<open>Averaging checkpoints\<close>

record 'a array_ops =
  np_zeros :: "nat list \<Rightarrow> 'a"
  np_iadd :: "'a \<Rightarrow> 'a \<Rightarrow> 'a res"
  np_idiv :: "'a \<Rightarrow> nat \<Rightarrow> 'a"

record ('w, 'a, 'd) ckpt_ops =
  ck_state :: "'w \<Rightarrow> pystr \<Rightarrow> pystr list option"
  ck_list_variables :: "'w \<Rightarrow> pystr \<Rightarrow> (pystr \<times> nat list) list res"
  ck_get_tensor :: "'w \<Rightarrow> pystr \<Rightarrow> pystr \<Rightarrow> ('a \<times> 'd) res"
  ck_save :: "'w \<Rightarrow> pystr \<Rightarrow> (pystr \<times> 'd \<times> 'a) list \<Rightarrow> pystr \<times> int \<Rightarrow> 'w res"

text \<open>\<open>xs[-n:]\<close>: the last \<open>n\<close> for a positive \<open>n\<close>, everything from \<open>-n\<close> on otherwise.\<close>

definition slice_last :: "int \<Rightarrow> 'b list \<Rightarrow> 'b list" where
  "slice_last n xs = (if 0 < n then drop (length xs - nat n) xs else drop (nat (- n)) xs)"

definition add_checkpoint ::
    "'a array_ops \<Rightarrow> ('w, 'a, 'd) ckpt_ops \<Rightarrow> 'w \<Rightarrow> (pystr \<times> 'a) list \<times> (pystr \<rightharpoonup> 'd) \<Rightarrow> pystr
     \<Rightarrow> ((pystr \<times> 'a) list \<times> (pystr \<rightharpoonup> 'd)) res" where
  "add_checkpoint N K w st checkpoint =
     (let (var_values, var_dtypes) = st
      in bindE (mapE (\<lambda>(name, value).
             bindE (ck_get_tensor K w checkpoint name) (\<lambda>(tensor, dtype).
             bindE (np_iadd N value tensor) (\<lambda>value. Inr (name, value, dtype)))) var_values) (\<lambda>rows.
         Inr (map (\<lambda>(name, value, dtype). (name, value)) rows,
              foldl (\<lambda>m (name, value, dtype). m(name \<mapsto> dtype)) var_dtypes rows)))"

text \<open>
  The averaged variables. Every one of them is created with \<open>var_dtypes[name]\<close> where \<open>name\<close> is
  left over from the last loop over the variables.
\<close>

definition averaged_variables ::
    "'a array_ops \<Rightarrow> nat \<Rightarrow> (pystr \<times> 'a) list \<times> (pystr \<rightharpoonup> 'd) \<Rightarrow> (pystr \<times> 'd \<times> 'a) list res" where
  "averaged_variables N n st =
     (let (var_values, var_dtypes) = st;
          var_values = map (\<lambda>(name, value). (name, np_idiv N value n)) var_values
      in mapE (\<lambda>(v, value). bindE (dict_get var_dtypes (fst (last var_values))) (\<lambda>dtype.
           Inr (v, dtype, value))) var_values)"

definition avg_checkpoints ::
    "'w gfile \<Rightarrow> 'a array_ops \<Rightarrow> ('w, 'a, 'd) ckpt_ops \<Rightarrow> 'w \<Rightarrow> pystr \<Rightarrow> int \<Rightarrow> int \<Rightarrow> pystr
     \<Rightarrow> (pystr option \<times> 'w) res" where
  "avg_checkpoints G N K w model_dir num_last_checkpoints global_step global_step_name =
     (case ck_state K w model_dir of
        None \<Rightarrow> Inr (None, w)
      | Some all_model_checkpoint_paths \<Rightarrow>
          let checkpoints = slice_last num_last_checkpoints all_model_checkpoint_paths
          in if int (length checkpoints) < num_last_checkpoints then Inr (None, w)
             else let avg_model_dir = path_join model_dir (u ''avg_checkpoints'')
             in bindE (if gf_exists G w avg_model_dir then Inr w else gf_makedirs G w avg_model_dir) (\<lambda>w.
                bindE (list_get checkpoints 0) (\<lambda>first.
                bindE (ck_list_variables K w first) (\<lambda>var_list.
                let var_values = map (\<lambda>(name, shape). (name, np_zeros N shape))
                      (filter (\<lambda>(name, shape). name \<noteq> global_step_name) var_list)
                in bindE (foldE (add_checkpoint N K w) (var_values, Map.empty) checkpoints) (\<lambda>st.
                   bindE (averaged_variables N (length checkpoints) st) (\<lambda>tf_vars.
                   bindE (ck_save K w (path_join avg_model_dir (u ''translate.ckpt'')) tf_vars
                            (global_step_name, global_step)) (\<lambda>w.
                   Inr (Some avg_model_dir, w))))))))"

text \<open>
  Numpy arrays through their shape and their entries: \<open>+=\<close> of equal shapes and \<open>/=\<close> by a
  positive number work entry by entry.
\<close>

definition array_laws :: "'a array_ops \<Rightarrow> ('a \<Rightarrow> nat list) \<Rightarrow> ('a \<Rightarrow> nat \<Rightarrow> real) \<Rightarrow> bool" where
  "array_laws N shp ent \<longleftrightarrow>
     (\<forall>s. shp (np_zeros N s) = s \<and> (\<forall>i. ent (np_zeros N s) i = 0)) \<and>
     (\<forall>a b. shp a = shp b \<longrightarrow>
        (\<exists>c. np_iadd N a b = Inr c \<and> shp c = shp a \<and> (\<forall>i. ent c i = ent a i + ent b i))) \<and>
     (\<forall>a n. shp (np_idiv N a n) = shp a \<and> (0 < n \<longrightarrow> (\<forall>i. ent (np_idiv N a n) i = ent a i / real n)))"

text \<open>
  A list of checkpoints of one model: each has every variable, with the shape and the type it
  has in the others. \<open>T c v\<close> is the tensor of the variable \<open>v\<close> in the checkpoint \<open>c\<close>.
\<close>

definition uniform_checkpoints ::
    "('w, 'a, 'd) ckpt_ops \<Rightarrow> ('a \<Rightarrow> nat list) \<Rightarrow> 'w \<Rightarrow> pystr list \<Rightarrow> (pystr \<times> nat list) list
     \<Rightarrow> (pystr \<Rightarrow> 'd) \<Rightarrow> (pystr \<Rightarrow> pystr \<Rightarrow> 'a) \<Rightarrow> bool" where
  "uniform_checkpoints K shp w cks vars dt T \<longleftrightarrow>
     distinct (map fst vars) \<and>
     (\<forall>c \<in> set cks. \<forall>(v, s) \<in> set vars. ck_get_tensor K w c v = Inr (T c v, dt v) \<and> shp (T c v) = s)"

definition sums_up ::
    "('a \<Rightarrow> nat list) \<Rightarrow> ('a \<Rightarrow> nat \<Rightarrow> real) \<Rightarrow> (pystr \<times> nat list) list \<Rightarrow> (pystr \<Rightarrow> pystr \<Rightarrow> 'a)
     \<Rightarrow> pystr list \<Rightarrow> (pystr \<times> 'a) list \<Rightarrow> bool" where
  "sums_up shp ent vars T cks values \<longleftrightarrow>
     list_all2 (\<lambda>(v, s) (v', a). v' = v \<and> shp a = s \<and> (\<forall>i. ent a i = (\<Sum>c\<leftarrow>cks. ent (T c v) i))) vars values"

lemma add_checkpoint_rows:
  assumes "array_laws N shp ent" "sums_up shp ent vars T ds vals"
    and "\<forall>(v, s) \<in> set vars. ck_get_tensor K w c v = Inr (T c v, dt v) \<and> shp (T c v) = s"
  shows "\<exists>rows. mapE (\<lambda>(name, value).
             bindE (ck_get_tensor K w c name) (\<lambda>(tensor, dtype).
             bindE (np_iadd N value tensor) (\<lambda>value. Inr (name, value, dtype)))) vals = Inr rows
    \<and> sums_up shp ent vars T (ds @ [c]) (map (\<lambda>(name, value, dtype). (name, value)) rows)
    \<and> map (\<lambda>(name, value, dtype). (name, dtype)) rows = map (\<lambda>(v, s). (v, dt v)) vars"
  using assms(2,3) unfolding sums_up_def
proof (induction vars vals rule: list_all2_induct)
  case (Cons v vs x xs)
  obtain n s where v: "v = (n, s)" by (cases v)
  obtain a where x: "x = (n, a)" "shp a = s" "\<forall>i. ent a i = (\<Sum>c\<leftarrow>ds. ent (T c n) i)"
    using Cons.hyps(1) v by (cases x) auto
  have t: "ck_get_tensor K w c n = Inr (T c n, dt n)" "shp (T c n) = s" using Cons.prems v by auto
  with assms(1) x(2) obtain b where b: "np_iadd N a (T c n) = Inr b" "shp b = s"
    "\<forall>i. ent b i = ent a i + ent (T c n) i" unfolding array_laws_def by metis
  from Cons.IH Cons.prems obtain rows where rows:
    "mapE (\<lambda>(name, value).
             bindE (ck_get_tensor K w c name) (\<lambda>(tensor, dtype).
             bindE (np_iadd N value tensor) (\<lambda>value. Inr (name, value, dtype)))) xs = Inr rows"
    "list_all2 (\<lambda>(v, s) (v', a). v' = v \<and> shp a = s \<and> (\<forall>i. ent a i = (\<Sum>c\<leftarrow>ds @ [c]. ent (T c v) i))) vs
       (map (\<lambda>(name, value, dtype). (name, value)) rows)"
    "map (\<lambda>(name, value, dtype). (name, dtype)) rows = map (\<lambda>(v, s). (v, dt v)) vs" by auto
  show ?case
    using rows t x b v by (auto intro!: exI[of _ "(n, b, dt n) # rows"])
qed simp

lemma dtypes_of_rows:
  assumes "map (\<lambda>(name, value, dtype). (name, dtype)) rows = map (\<lambda>(v, s). (v, dt v)) vars"
  shows "foldl (\<lambda>m (name, value, dtype). m(name \<mapsto> dtype)) m rows v
    = (if v \<in> fst ` set vars then Some (dt v) else m v)"
  using assms
proof (induction rows arbitrary: m vars)
  case (Cons r rows)
  obtain n x d where r: "r = (n, x, d)" by (cases r)
  from Cons.prems r obtain s vs where vs: "vars = (n, s) # vs" "d = dt n"
    "map (\<lambda>(name, value, dtype). (name, dtype)) rows = map (\<lambda>(v, s). (v, dt v)) vs"
    by (cases vars) auto
  show ?case using Cons.IH[OF vs(3), of "m(n \<mapsto> d)"] r vs by auto
qed simp

lemma add_checkpoints_loop:
  assumes laws: "array_laws N shp ent"
    and "sums_up shp ent vars T ds vals" and "uniform_checkpoints K shp w cks vars dt T"
  shows "\<exists>vals' m'. foldE (add_checkpoint N K w) (vals, m) cks = Inr (vals', m')
    \<and> sums_up shp ent vars T (ds @ cks) vals'
    \<and> (\<forall>v. m' v = (if cks \<noteq> [] \<and> v \<in> fst ` set vars then Some (dt v) else m v))"
  using assms(2,3)
proof (induction cks arbitrary: ds vals m)
  case (Cons c cks)
  have c: "\<forall>(v, s) \<in> set vars. ck_get_tensor K w c v = Inr (T c v, dt v) \<and> shp (T c v) = s"
    and u: "uniform_checkpoints K shp w cks vars dt T"
    using Cons.prems(2) by (auto simp: uniform_checkpoints_def)
  from add_checkpoint_rows[OF laws Cons.prems(1) c] obtain rows where rows:
    "mapE (\<lambda>(name, value).
             bindE (ck_get_tensor K w c name) (\<lambda>(tensor, dtype).
             bindE (np_iadd N value tensor) (\<lambda>value. Inr (name, value, dtype)))) vals = Inr rows"
    "sums_up shp ent vars T (ds @ [c]) (map (\<lambda>(name, value, dtype). (name, value)) rows)"
    "map (\<lambda>(name, value, dtype). (name, dtype)) rows = map (\<lambda>(v, s). (v, dt v)) vars"
    by (elim exE conjE)
  define m1 where "m1 = foldl (\<lambda>m (name, value, dtype). m(name \<mapsto> dtype)) m rows"
  have m1: "m1 v = (if v \<in> fst ` set vars then Some (dt v) else m v)" for v
    unfolding m1_def by (rule dtypes_of_rows[OF rows(3)])
  have step: "add_checkpoint N K w (vals, m) c
      = Inr (map (\<lambda>(name, value, dtype). (name, value)) rows, m1)"
    using rows(1) by (simp add: add_checkpoint_def m1_def)
  from Cons.IH[OF rows(2) u, of m1] obtain vals' m' where
    "foldE (add_checkpoint N K w) (map (\<lambda>(name, value, dtype). (name, value)) rows, m1) cks = Inr (vals', m')"
    "sums_up shp ent vars T ((ds @ [c]) @ cks) vals'"
    "\<forall>v. m' v = (if cks \<noteq> [] \<and> v \<in> fst ` set vars then Some (dt v) else m1 v)"
    by (elim exE conjE)
  with step m1 show ?case by (intro exI[of _ vals'] exI[of _ m']) auto
qed auto

text \<open>The values of the saved variables: means over the checkpoints.\<close>

definition means_up ::
    "('a \<Rightarrow> nat list) \<Rightarrow> ('a \<Rightarrow> nat \<Rightarrow> real) \<Rightarrow> (pystr \<times> nat list) list \<Rightarrow> (pystr \<Rightarrow> pystr \<Rightarrow> 'a)
     \<Rightarrow> pystr list \<Rightarrow> 'd \<Rightarrow> (pystr \<times> 'd \<times> 'a) list \<Rightarrow> bool" where
  "means_up shp ent vars T cks d saved \<longleftrightarrow>
     list_all2 (\<lambda>(v, s) (v', d', a). v' = v \<and> d' = d \<and> shp a = s \<and>
       (\<forall>i. ent a i = (\<Sum>c\<leftarrow>cks. ent (T c v) i) / real (length cks))) vars saved"

lemma averaged_variables_means:
  assumes "array_laws N shp ent" "sums_up shp ent vars T cks vals" "cks \<noteq> []" "vars \<noteq> []"
    and "m (fst (last vars)) = Some d"
  shows "\<exists>saved. averaged_variables N (length cks) (vals, m) = Inr saved
    \<and> means_up shp ent vars T cks d saved"
proof -
  let ?avg = "map (\<lambda>(name, value). (name, np_idiv N value (length cks))) vals"
  have l2: "list_all2 (\<lambda>(v, s) (v', a). v' = v \<and> shp a = s \<and>
      (\<forall>i. ent a i = (\<Sum>c\<leftarrow>cks. ent (T c v) i) / real (length cks))) vars ?avg"
    using assms(2) unfolding sums_up_def list_all2_map2
    by (rule list_all2_mono) (use assms(1,3) in \<open>auto simp: array_laws_def\<close>)
  have "fst (last ?avg) = fst (last vars)"
  proof -
    have len: "length ?avg = length vars" by (rule list_all2_lengthD[OF l2, symmetric])
    then have "?avg \<noteq> []" using assms(4) by (cases vars) auto
    moreover have "fst (?avg ! (length vars - 1)) = fst (vars ! (length vars - 1))"
      using list_all2_nthD[OF l2, of "length vars - 1"] assms(4) by (auto simp: split_beta)
    moreover have "last ?avg = ?avg ! (length vars - 1)" "last vars = vars ! (length vars - 1)"
      by (simp_all only: last_conv_nth[OF calculation(1)] last_conv_nth[OF assms(4)] len)
    ultimately show ?thesis by (simp only:)
  qed
  with assms(5) have "averaged_variables N (length cks) (vals, m)
      = mapE (\<lambda>(v, value). Inr (v, d, value)) ?avg"
    by (simp add: averaged_variables_def Let_def dict_get_def)
  also have "\<dots> = Inr (map (\<lambda>(v, value). (v, d, value)) ?avg)"
    by (rule mapE_Inr) auto
  finally show ?thesis
    using l2 by (intro exI[of _ "map (\<lambda>(v, value). (v, d, value)) ?avg"])
      (auto simp: means_up_def list_all2_map2 elim!: list_all2_mono)
qed

lemma sums_up_zeros:
  "array_laws N shp ent \<Longrightarrow> sums_up shp ent vars T [] (map (\<lambda>(name, shape). (name, np_zeros N shape)) vars)"
  by (auto simp: sums_up_def array_laws_def list_all2_map2 intro!: list_all2_refl)

section \<open>Properties\<close>

text \<open>
  C27. Averaging the last checkpoints: with at least \<open>n > 0\<close> checkpoints of one model, every
  variable but the global step is saved under its name and shape with the mean of its values
  over exactly the last \<open>n\<close> checkpoints, together with the given global step. The element type
  of every saved variable is that of the last variable of the list, so a model with variables
  of several types is saved with the wrong types.
\<close>

theorem avg_checkpoints_means:
  fixes K :: "('w, 'a, 'd) ckpt_ops" and all_cks :: "pystr list" and n :: nat
    and var_list :: "(pystr \<times> nat list) list" and step_name model_dir :: pystr
  defines "cks \<equiv> drop (length all_cks - n) all_cks"
    and "vars \<equiv> filter (\<lambda>(name, shape). name \<noteq> step_name) var_list"
    and "dir \<equiv> path_join model_dir (u ''avg_checkpoints'')"
  assumes "array_laws N shp ent" "0 < n" "n \<le> length all_cks" "vars \<noteq> []"
    and "ck_state K w model_dir = Some all_cks" "gf_exists G w dir"
    and "ck_list_variables K w (hd cks) = Inr var_list"
    and "uniform_checkpoints K shp w cks vars dt T"
    and "\<And>saved. \<exists>w'. ck_save K w (path_join dir (u ''translate.ckpt'')) saved (step_name, step) = Inr w'"
  shows "\<exists>saved w'. avg_checkpoints G N K w model_dir (int n) step step_name = Inr (Some dir, w')
    \<and> ck_save K w (path_join dir (u ''translate.ckpt'')) saved (step_name, step) = Inr w'
    \<and> length cks = n \<and> means_up shp ent vars T cks (dt (fst (last vars))) saved"
proof -
  have len: "length cks = n" using assms(6) by (simp add: cks_def)
  with assms(5) have ne: "cks \<noteq> []" by auto
  have sl: "slice_last (int n) all_cks = cks" using assms(5) by (simp add: slice_last_def cks_def)
  have first: "list_get cks 0 = Inr (hd cks)" using ne by (simp add: list_get_def hd_conv_nth)
  from add_checkpoints_loop[OF assms(4) sums_up_zeros[OF assms(4)] assms(11), of Map.empty]
  obtain vals m where loop:
    "foldE (add_checkpoint N K w) (map (\<lambda>(name, shape). (name, np_zeros N shape)) vars, Map.empty) cks = Inr (vals, m)"
    "sums_up shp ent vars T cks vals"
    "\<forall>v. m v = (if cks \<noteq> [] \<and> v \<in> fst ` set vars then Some (dt v) else None)"
    by auto
  have "m (fst (last vars)) = Some (dt (fst (last vars)))"
    using loop(3) ne assms(7) by simp
  from averaged_variables_means[where m = m, OF assms(4) loop(2) ne assms(7) this] obtain saved where
    saved: "averaged_variables N (length cks) (vals, m) = Inr saved"
    "means_up shp ent vars T cks (dt (fst (last vars))) saved" by (elim exE conjE)
  from assms(12)[of saved] obtain w' where
    w': "ck_save K w (path_join dir (u ''translate.ckpt'')) saved (step_name, step) = Inr w'" ..
  have "avg_checkpoints G N K w model_dir (int n) step step_name = Inr (Some dir, w')"
    using assms(8-10) sl len first loop(1) saved(1) w'
    by (simp add: avg_checkpoints_def Let_def dir_def[symmetric] vars_def[symmetric])
  with w' len saved(2) show ?thesis by blast
qed


text \<open>Arrays as a shape with entries, and a directory with two checkpoints.\<close>

definition vector_arrays :: "(nat list \<times> (nat \<Rightarrow> real)) array_ops" where
  "vector_arrays =
     \<lparr>np_zeros = (\<lambda>s. (s, \<lambda>i. 0)),
      np_iadd = (\<lambda>a b. if fst a = fst b then Inr (fst a, \<lambda>i. snd a i + snd b i) else Inl ValueError),
      np_idiv = (\<lambda>a n. (fst a, \<lambda>i. snd a i / real n))\<rparr>"

lemma vector_arrays_laws: "array_laws vector_arrays fst snd"
  by (auto simp: array_laws_def vector_arrays_def)

definition two_paths :: "pystr list" where "two_paths = [[1], [2]]"

definition two_vars :: "(pystr \<times> nat list) list" where "two_vars = [([118], []), ([115], [])]"

definition two_values :: "pystr \<Rightarrow> pystr \<Rightarrow> nat list \<times> (nat \<Rightarrow> real)" where
  "two_values c v = ([], \<lambda>i. if c = [1] then 4 else 6)"

definition two_types :: "pystr \<Rightarrow> nat" where "two_types v = 32"

definition two_fs :: dict_fs where "two_fs = [path_join [109] (u ''avg_checkpoints'') \<mapsto> []]"

definition two_ckpts :: "(dict_fs, nat list \<times> (nat \<Rightarrow> real), nat) ckpt_ops" where
  "two_ckpts =
     \<lparr>ck_state = (\<lambda>w d. Some two_paths), ck_list_variables = (\<lambda>w c. Inr two_vars),
      ck_get_tensor = (\<lambda>w c v. Inr (two_values c v, two_types v)),
      ck_save = (\<lambda>w p vars step. Inr (w(p \<mapsto> [])))\<rparr>"

theorem avg_checkpoints_means_witness:
  "\<exists>saved w'. avg_checkpoints dict_gfile vector_arrays two_ckpts two_fs [109] (int 2) 7 [115]
        = Inr (Some (path_join [109] (u ''avg_checkpoints'')), w')
    \<and> ck_save two_ckpts two_fs (path_join (path_join [109] (u ''avg_checkpoints'')) (u ''translate.ckpt''))
        saved ([115], 7) = Inr w'
    \<and> length (drop (length two_paths - 2) two_paths) = 2
    \<and> means_up fst snd (filter (\<lambda>(name, shape). name \<noteq> [115]) two_vars) two_values
        (drop (length two_paths - 2) two_paths)
        (two_types (fst (last (filter (\<lambda>(name, shape). name \<noteq> [115]) two_vars)))) saved"
  by (rule avg_checkpoints_means[OF vector_arrays_laws])
    (simp_all add: two_ckpts_def two_paths_def two_vars_def two_values_def two_fs_def dict_gfile_text
      uniform_checkpoints_def)

definition sample_batch :: eval_output where
  "sample_batch = \<lparr>eval_loss = Finite 2, predict_count = 4, eval_batch_size = 3\<rparr>"

definition sample_eval :: "nat \<Rightarrow> nat evaluated" where
  "sample_eval s = (if s = 0 then EvalBatch sample_batch 1 else EvalEnd s)"


end
