(* ===== verification/Params.thy ===== *)
theory Params
  imports PyText "HOL-Library.AList"
begin

text \<open>
  The object \<open>hparams\<close> that every part of \<open>nmt/\<close> reads its settings from. The class
  \<open>tf.contrib.training.HParams\<close> belongs to TensorFlow: its operations are the record
  \<open>'h hparams_api\<close>, the parameter \<open>A\<close> of the definitions, and the locale \<open>hparams_laws\<close> states
  what the code relies on. It is interpreted on an association list with extra attributes. The
  choice of the model class, which \<open>train.py\<close> and \<open>inference.py\<close> each make from the
  settings, is here too.
\<close>

section \<open>Values and attributes\<close>

datatype py_value =
    PNone | PBool bool | PInt int | PFloat real | PStr pystr | PList "py_value list"

fun is_true :: "py_value \<Rightarrow> bool" where
  "is_true PNone = False"
| "is_true (PBool b) = b"
| "is_true (PInt n) = (n \<noteq> 0)"
| "is_true (PFloat x) = (x \<noteq> 0)"
| "is_true (PStr s) = (s \<noteq> [])"
| "is_true (PList vs) = (vs \<noteq> [])"

fun int_value :: "py_value \<Rightarrow> int res" where
  "int_value (PInt n) = Inr n"
| "int_value (PBool b) = Inr (if b then 1 else 0)"
| "int_value _ = Inl TypeError"

fun float_value :: "py_value \<Rightarrow> real res" where
  "float_value (PFloat x) = Inr x"
| "float_value (PInt n) = Inr (real_of_int n)"
| "float_value (PBool b) = Inr (if b then 1 else 0)"
| "float_value _ = Inl TypeError"

fun str_value :: "py_value \<Rightarrow> pystr res" where
  "str_value (PStr s) = Inr s"
| "str_value _ = Inl TypeError"

fun str_list_value :: "py_value \<Rightarrow> pystr list res" where
  "str_list_value (PList vs) = mapE str_value vs"
| "str_list_value _ = Inl TypeError"

fun opt_str_value :: "py_value \<Rightarrow> pystr option res" where
  "opt_str_value PNone = Inr None"
| "opt_str_value (PStr s) = Inr (Some s)"
| "opt_str_value _ = Inl TypeError"

record 'h hparams_api =
  hp_new :: "(pystr \<times> py_value) list \<Rightarrow> 'h res"
  hp_get :: "'h \<Rightarrow> pystr \<Rightarrow> py_value option"
  hp_set :: "'h \<Rightarrow> pystr \<Rightarrow> py_value \<Rightarrow> 'h"
  hp_add :: "'h \<Rightarrow> pystr \<Rightarrow> py_value \<Rightarrow> 'h res"
  hp_names :: "'h \<Rightarrow> pystr list"
  hp_parse_json :: "'h \<Rightarrow> pystr \<Rightarrow> 'h res"
  hp_to_json :: "'h \<Rightarrow> pystr"
  json_load :: "pystr \<Rightarrow> (pystr \<times> py_value) list res"

text \<open>\<open>hparams.key\<close>, \<open>getattr(hparams, key, default)\<close> and \<open>hparams.values()\<close>.\<close>

definition attr :: "'h hparams_api \<Rightarrow> 'h \<Rightarrow> pystr \<Rightarrow> py_value res" where
  "attr A h key = (case hp_get A h key of None \<Rightarrow> Inl AttributeError | Some v \<Rightarrow> Inr v)"

definition attr_or :: "'h hparams_api \<Rightarrow> 'h \<Rightarrow> pystr \<Rightarrow> py_value \<Rightarrow> py_value" where
  "attr_or A h key d = (case hp_get A h key of None \<Rightarrow> d | Some v \<Rightarrow> v)"

definition attr_int :: "'h hparams_api \<Rightarrow> 'h \<Rightarrow> pystr \<Rightarrow> int res" where
  "attr_int A h key = bindE (attr A h key) int_value"

definition attr_str :: "'h hparams_api \<Rightarrow> 'h \<Rightarrow> pystr \<Rightarrow> pystr res" where
  "attr_str A h key = bindE (attr A h key) str_value"

definition values_of :: "'h hparams_api \<Rightarrow> 'h \<Rightarrow> (pystr \<times> py_value) list res" where
  "values_of A h = mapE (\<lambda>n. bindE (attr A h n) (\<lambda>v. Inr (n, v))) (hp_names A h)"

section \<open>The laws of the attributes\<close>

locale hparams_laws =
  fixes A :: "'h hparams_api"
  assumes get_set: "hp_get A (hp_set A h k v) = (hp_get A h)(k \<mapsto> v)"
    and get_add: "hp_add A h k v = Inr h' \<Longrightarrow> hp_get A h' = (hp_get A h)(k \<mapsto> v)"
    and names_add: "hp_add A h k v = Inr h' \<Longrightarrow> set (hp_names A h') = insert k (set (hp_names A h))"
    and names_get: "k \<in> set (hp_names A h) \<Longrightarrow> hp_get A h k \<noteq> None"
    and get_new: "hp_new A kvs = Inr h \<Longrightarrow> hp_get A h = map_of kvs \<and> set (hp_names A h) = fst ` set kvs"
begin

lemma values_of_total: "\<exists>kvs. values_of A h = Inr kvs \<and> map fst kvs = hp_names A h
    \<and> (\<forall>(k, v) \<in> set kvs. hp_get A h k = Some v)"
proof -
  have "\<exists>v. hp_get A h n = Some v" if "n \<in> set (hp_names A h)" for n
    using names_get[OF that] by auto
  then have "mapE (\<lambda>n. bindE (attr A h n) (\<lambda>v. Inr (n, v))) (hp_names A h)
      = Inr (map (\<lambda>n. (n, the (hp_get A h n))) (hp_names A h))"
    by (intro mapE_Inr) (auto simp: attr_def split: option.splits)
  moreover have "\<forall>n \<in> set (hp_names A h). hp_get A h n = Some (the (hp_get A h n))"
    using names_get by auto
  ultimately show ?thesis
    by (intro exI[of _ "map (\<lambda>n. (n, the (hp_get A h n))) (hp_names A h)"]) (auto simp: values_of_def o_def)
qed

text \<open>\<open>only ks h h'\<close>: going from \<open>h\<close> to \<open>h'\<close>, no attribute outside \<open>ks\<close> has changed.\<close>

definition only :: "pystr set \<Rightarrow> 'h \<Rightarrow> 'h \<Rightarrow> bool" where
  "only ks h h' \<longleftrightarrow> (\<forall>k. k \<notin> ks \<longrightarrow> hp_get A h' k = hp_get A h k)"

lemma only_refl: "only ks h h"
  by (simp add: only_def)

lemma only_set: "only ks h h' \<Longrightarrow> k \<in> ks \<Longrightarrow> only ks h (hp_set A h' k v)"
  by (auto simp: only_def get_set)

lemma only_trans: "only ks h h' \<Longrightarrow> only ls h' h'' \<Longrightarrow> only (ks \<union> ls) h h''"
  by (simp add: only_def)

end

text \<open>
  The store of the witnesses: the declared hyper-parameters as an association list, plain
  attributes beside them. JSON is a pair of functions.
\<close>

type_synonym dict_hp = "(pystr \<times> py_value) list \<times> (pystr \<rightharpoonup> py_value)"

definition dict_get_attr :: "dict_hp \<Rightarrow> pystr \<Rightarrow> py_value option" where
  "dict_get_attr h k = (case map_of (fst h) k of Some v \<Rightarrow> Some v | None \<Rightarrow> snd h k)"

definition dict_set_attr :: "dict_hp \<Rightarrow> pystr \<Rightarrow> py_value \<Rightarrow> dict_hp" where
  "dict_set_attr h k v =
     (if map_of (fst h) k \<noteq> None then (AList.update k v (fst h), snd h) else (fst h, (snd h)(k \<mapsto> v)))"

definition dict_add_hparam :: "dict_hp \<Rightarrow> pystr \<Rightarrow> py_value \<Rightarrow> dict_hp res" where
  "dict_add_hparam h k v =
     (if dict_get_attr h k \<in> {None, Some PNone} then Inr (AList.update k v (fst h), snd h) else Inl ValueError)"

definition dict_hparams ::
    "(pystr \<Rightarrow> (pystr \<times> py_value) list res) \<Rightarrow> ((pystr \<times> py_value) list \<Rightarrow> pystr) \<Rightarrow> dict_hp hparams_api" where
  "dict_hparams load dump =
     \<lparr>hp_new = (\<lambda>kvs. Inr (kvs, Map.empty)), hp_get = dict_get_attr, hp_set = dict_set_attr,
      hp_add = dict_add_hparam, hp_names = (\<lambda>h. map fst (fst h)),
      hp_parse_json = (\<lambda>h s. bindE (load s) (foldE (\<lambda>h (k, v).
         if k \<in> fst ` set (fst h) then Inr (dict_set_attr h k v) else Inl ValueError) h)),
      hp_to_json = (\<lambda>h. dump (fst h)), json_load = load\<rparr>"

lemma map_of_fst_None: "map_of kvs k = None \<longleftrightarrow> k \<notin> fst ` set kvs"
  by (rule map_of_eq_None_iff)

interpretation dict_store: hparams_laws "dict_hparams load dump" for load dump
proof unfold_locales
  fix h h' :: dict_hp and k v kvs
  let ?A = "dict_hparams load dump"
  show "hp_get ?A (hp_set ?A h k v) = (hp_get ?A h)(k \<mapsto> v)"
    by (rule ext) (auto simp: dict_hparams_def dict_get_attr_def dict_set_attr_def update_conv' split: option.splits)
  show "hp_get ?A h' = (hp_get ?A h)(k \<mapsto> v)" if "hp_add ?A h k v = Inr h'"
    by (rule ext) (use that in \<open>auto simp: dict_hparams_def dict_get_attr_def dict_add_hparam_def update_conv'
      split: option.splits if_splits\<close>)
  show "set (hp_names ?A h') = insert k (set (hp_names ?A h))" if "hp_add ?A h k v = Inr h'"
  proof -
    have "fst h' = AList.update k v (fst h)"
      using that by (auto simp: dict_hparams_def dict_add_hparam_def split: if_splits)
    then show ?thesis using dom_update[of k v "fst h"] by (simp add: dict_hparams_def)
  qed
  show "k \<in> set (hp_names ?A h) \<Longrightarrow> hp_get ?A h k \<noteq> None"
    using map_of_fst_None[of "fst h" k] by (auto simp: dict_hparams_def dict_get_attr_def split: option.splits)
  show "hp_get ?A h = map_of kvs \<and> set (hp_names ?A h) = fst ` set kvs" if "hp_new ?A kvs = Inr h"
    using that by (auto simp: dict_hparams_def dict_get_attr_def fun_eq_iff split: option.splits)
qed

section \<open>The model class\<close>

datatype model_class = Model | AttentionModel | GNMTModel

definition wants_gnmt :: "'h hparams_api \<Rightarrow> 'h \<Rightarrow> bool res" where
  "wants_gnmt A h =
     bindE (attr A h (u ''encoder_type'')) (\<lambda>encoder_type.
     if encoder_type = PStr (u ''gnmt'') then Inr True
     else bindE (attr A h (u ''attention_architecture'')) (\<lambda>arch.
          Inr (arch = PStr (u ''gnmt'') \<or> arch = PStr (u ''gnmt_v2''))))"

text \<open>\<open>get_model_creator\<close> of \<open>train.py\<close>, which asks for an attention mechanism, and of
  \<open>inference.py\<close>, which does not.\<close>

definition train_model_creator :: "'h hparams_api \<Rightarrow> 'h \<Rightarrow> model_class res" where
  "train_model_creator A h =
     bindE (wants_gnmt A h) (\<lambda>gnmt.
     if gnmt then Inr GNMTModel
     else bindE (attr A h (u ''attention'')) (\<lambda>attention.
          bindE (if is_true attention
                 then bindE (attr A h (u ''attention_architecture'')) (\<lambda>arch. Inr (arch = PStr (u ''standard'')))
                 else Inr False) (\<lambda>standard.
          if standard then Inr AttentionModel
          else if \<not> is_true attention then Inr Model
          else Inl ValueError)))"

definition infer_model_creator :: "'h hparams_api \<Rightarrow> 'h \<Rightarrow> model_class res" where
  "infer_model_creator A h =
     bindE (wants_gnmt A h) (\<lambda>gnmt.
     if gnmt then Inr GNMTModel
     else bindE (attr A h (u ''attention_architecture'')) (\<lambda>arch.
          if arch = PStr (u ''standard'') then Inr AttentionModel
          else bindE (attr A h (u ''attention'')) (\<lambda>attention.
               if \<not> is_true attention then Inr Model else Inl ValueError)))"

text \<open>
  The two choices of the model class differ in one case only: training and inference agree on
  every hyper-parameters whose three settings exist, unless no attention mechanism is asked for,
  the architecture is the standard one and nothing asks for GNMT; there (and this is the default
  of the flags) training builds the plain model and inference the attention model.
\<close>

theorem model_creators_differ:
  assumes "hp_get A h (u ''encoder_type'') = Some t"
    and "hp_get A h (u ''attention_architecture'') = Some arch"
    and "hp_get A h (u ''attention'') = Some att"
  shows "train_model_creator A h =
    (if \<not> is_true att \<and> arch = PStr (u ''standard'') \<and> t \<noteq> PStr (u ''gnmt'')
     then Inr Model else infer_model_creator A h)
    \<and> (\<not> is_true att \<and> arch = PStr (u ''standard'') \<and> t \<noteq> PStr (u ''gnmt'')
       \<longrightarrow> infer_model_creator A h = Inr AttentionModel)"
  using assms by (auto simp: train_model_creator_def infer_model_creator_def wants_gnmt_def attr_def)

definition sample_plain :: dict_hp where
  "sample_plain = ([(u ''encoder_type'', PStr (u ''uni'')), (u ''attention'', PStr []),
     (u ''attention_architecture'', PStr (u ''standard''))], Map.empty)"

theorem model_creators_differ_witness:
  "train_model_creator (dict_hparams (\<lambda>_. Inl ValueError) (\<lambda>_. [])) sample_plain = Inr Model
    \<and> infer_model_creator (dict_hparams (\<lambda>_. Inl ValueError) (\<lambda>_. [])) sample_plain = Inr AttentionModel"
proof -
  let ?A = "dict_hparams (\<lambda>_. Inl ValueError) (\<lambda>_. [])"
  have "hp_get ?A sample_plain (u ''encoder_type'') = Some (PStr (u ''uni''))"
    "hp_get ?A sample_plain (u ''attention_architecture'') = Some (PStr (u ''standard''))"
    "hp_get ?A sample_plain (u ''attention'') = Some (PStr [])"
    by (simp_all add: dict_hparams_def dict_get_attr_def sample_plain_def)
  from model_creators_differ[OF this] show ?thesis by simp
qed

end
