(* ===== verification/Flags.thy ===== *)
theory Flags
  imports Params VocabUtils
begin

text \<open>
  The command line of \<open>nmt/nmt.py\<close>: the declared flags (\<open>add_arguments\<close>), the hyper-parameters
  made of the parsed flags (\<open>create_hparams\<close>), and the fixed ones of
  \<open>create_standard_hparams\<close> in \<open>nmt/utils/standard_hparams_utils.py\<close>.
\<close>

section \<open>Command-line flags\<close>

datatype arg_type = IntArg | FloatArg | StrArg | BoolArg

record argument =
  arg_name :: string
  arg_type :: arg_type
  arg_const_true :: bool
  arg_default :: py_value
  arg_choices :: "string list"

definition arg :: "string \<Rightarrow> arg_type \<Rightarrow> py_value \<Rightarrow> argument" where
  "arg n t d = \<lparr>arg_name = n, arg_type = t, arg_const_true = False, arg_default = d, arg_choices = []\<rparr>"

definition bool_arg :: "string \<Rightarrow> bool \<Rightarrow> argument" where
  "bool_arg n d = (arg n BoolArg (PBool d))\<lparr>arg_const_true := True\<rparr>"

definition str_arg :: "string \<Rightarrow> string \<Rightarrow> argument" where
  "str_arg n d = arg n StrArg (PStr (u d))"

definition network_arguments :: "argument list" where
  "network_arguments =
    [arg ''num_units'' IntArg (PInt 32),
     arg ''num_layers'' IntArg (PInt 2),
     arg ''num_encoder_layers'' IntArg PNone,
     arg ''num_decoder_layers'' IntArg PNone,
     str_arg ''encoder_type'' ''uni'',
     bool_arg ''residual'' False,
     bool_arg ''time_major'' True,
     arg ''num_embeddings_partitions'' IntArg (PInt 0),
     str_arg ''attention'' '''',
     str_arg ''attention_architecture'' ''standard'',
     bool_arg ''output_attention'' True,
     bool_arg ''pass_hidden_state'' True]"

definition optimizer_arguments :: "argument list" where
  "optimizer_arguments =
    [str_arg ''optimizer'' ''sgd'',
     arg ''learning_rate'' FloatArg (PFloat 1),
     arg ''warmup_steps'' IntArg (PInt 0),
     str_arg ''warmup_scheme'' ''t2t'',
     str_arg ''decay_scheme'' '''',
     arg ''num_train_steps'' IntArg (PInt 12000),
     bool_arg ''colocate_gradients_with_ops'' True,
     str_arg ''init_op'' ''uniform'',
     arg ''init_weight'' FloatArg (PFloat 0.1)]"

definition data_arguments :: "argument list" where
  "data_arguments =
    [arg ''src'' StrArg PNone,
     arg ''tgt'' StrArg PNone,
     arg ''train_prefix'' StrArg PNone,
     arg ''dev_prefix'' StrArg PNone,
     arg ''test_prefix'' StrArg PNone,
     arg ''out_dir'' StrArg PNone,
     arg ''vocab_prefix'' StrArg PNone,
     arg ''embed_prefix'' StrArg PNone,
     str_arg ''sos'' ''<s>'',
     str_arg ''eos'' ''</s>'',
     bool_arg ''share_vocab'' False,
     arg ''check_special_token'' BoolArg (PBool True),
     arg ''src_max_len'' IntArg (PInt 50),
     arg ''tgt_max_len'' IntArg (PInt 50),
     arg ''src_max_len_infer'' IntArg PNone,
     arg ''tgt_max_len_infer'' IntArg PNone]"

definition default_arguments :: "argument list" where
  "default_arguments =
    [str_arg ''unit_type'' ''lstm'',
     arg ''forget_bias'' FloatArg (PFloat 1),
     arg ''dropout'' FloatArg (PFloat 0.2),
     arg ''max_gradient_norm'' FloatArg (PFloat 5),
     arg ''batch_size'' IntArg (PInt 128),
     arg ''steps_per_stats'' IntArg (PInt 100),
     arg ''max_train'' IntArg (PInt 0),
     arg ''num_buckets'' IntArg (PInt 5),
     arg ''num_sampled_softmax'' IntArg (PInt 0),
     (str_arg ''subword_option'' '''')\<lparr>arg_choices := ['''', ''bpe'', ''spm'']\<rparr>,
     arg ''use_char_encode'' BoolArg (PBool False)]"

definition misc_arguments :: "argument list" where
  "misc_arguments =
    [arg ''num_gpus'' IntArg (PInt 1),
     bool_arg ''log_device_placement'' False,
     str_arg ''metrics'' ''bleu'',
     arg ''steps_per_external_eval'' IntArg PNone,
     arg ''scope'' StrArg PNone,
     arg ''hparams_path'' StrArg PNone,
     arg ''random_seed'' IntArg PNone,
     bool_arg ''override_loaded_hparams'' False,
     arg ''num_keep_ckpts'' IntArg (PInt 5),
     bool_arg ''avg_ckpts'' False,
     bool_arg ''language_model'' False]"

definition inference_arguments :: "argument list" where
  "inference_arguments =
    [str_arg ''ckpt'' '''',
     arg ''inference_input_file'' StrArg PNone,
     arg ''inference_list'' StrArg PNone,
     arg ''infer_batch_size'' IntArg (PInt 32),
     arg ''inference_output_file'' StrArg PNone,
     arg ''inference_ref_file'' StrArg PNone,
     (str_arg ''infer_mode'' ''greedy'')\<lparr>arg_choices := [''greedy'', ''sample'', ''beam_search'']\<rparr>,
     arg ''beam_width'' IntArg (PInt 0),
     arg ''length_penalty_weight'' FloatArg (PFloat 0),
     arg ''coverage_penalty_weight'' FloatArg (PFloat 0),
     arg ''sampling_temperature'' FloatArg (PFloat 0),
     arg ''num_translations_per_input'' IntArg (PInt 1),
     arg ''jobid'' IntArg (PInt 0),
     arg ''num_workers'' IntArg (PInt 1),
     arg ''num_inter_threads'' IntArg (PInt 0),
     arg ''num_intra_threads'' IntArg (PInt 0)]"

definition add_arguments :: "argument list" where
  "add_arguments =
     network_arguments @ optimizer_arguments @ data_arguments @ default_arguments @ misc_arguments
       @ inference_arguments"

lemmas add_arguments_defs = add_arguments_def network_arguments_def optimizer_arguments_def data_arguments_def
  default_arguments_def misc_arguments_def inference_arguments_def

text \<open>The attributes of the parsed flags when nothing is given on the command line.\<close>

definition default_flags :: "pystr \<rightharpoonup> py_value" where
  "default_flags = map_of (map (\<lambda>a. (u (arg_name a), arg_default a)) add_arguments)"

section \<open>Creating hyper-parameters\<close>

type_synonym flags = "pystr \<rightharpoonup> py_value"

definition flag :: "flags \<Rightarrow> string \<Rightarrow> py_value res" where
  "flag fl name = (case fl (u name) of None \<Rightarrow> Inl AttributeError | Some v \<Rightarrow> Inr v)"

definition flag_or :: "flags \<Rightarrow> string \<Rightarrow> string \<Rightarrow> py_value res" where
  "flag_or fl a b = bindE (flag fl a) (\<lambda>v. if is_true v then Inr v else flag fl b)"

definition flag_or_const :: "flags \<Rightarrow> string \<Rightarrow> pystr \<Rightarrow> py_value res" where
  "flag_or_const fl a d = bindE (flag fl a) (\<lambda>v. Inr (if is_true v then v else PStr d))"

definition flag_split :: "flags \<Rightarrow> string \<Rightarrow> py_value res" where
  "flag_split fl a = bindE (flag fl a) (\<lambda>v. bindE (str_value v) (\<lambda>s.
     Inr (PList (map PStr (split_on 44 s)))))"

definition copied_data :: "string list" where
  "copied_data = [''src'', ''tgt'', ''train_prefix'', ''dev_prefix'', ''test_prefix'', ''vocab_prefix'',
     ''embed_prefix'', ''out_dir'', ''num_units'']"

definition copied_model :: "string list" where
  "copied_model = [''dropout'', ''unit_type'', ''encoder_type'', ''residual'', ''time_major'',
     ''num_embeddings_partitions'', ''attention'', ''attention_architecture'', ''output_attention'',
     ''pass_hidden_state'', ''optimizer'', ''num_train_steps'', ''batch_size'', ''init_op'',
     ''init_weight'', ''max_gradient_norm'', ''learning_rate'', ''warmup_steps'', ''warmup_scheme'',
     ''decay_scheme'', ''colocate_gradients_with_ops'', ''num_sampled_softmax'', ''num_buckets'',
     ''max_train'', ''src_max_len'', ''tgt_max_len'', ''src_max_len_infer'', ''tgt_max_len_infer'',
     ''infer_batch_size'', ''infer_mode'', ''beam_width'', ''length_penalty_weight'',
     ''coverage_penalty_weight'', ''sampling_temperature'', ''num_translations_per_input'']"

definition copied_vocab :: "string list" where
  "copied_vocab = [''subword_option'', ''check_special_token'', ''use_char_encode'', ''forget_bias'', ''num_gpus'']"

definition copied_misc :: "string list" where
  "copied_misc = [''log_device_placement'', ''random_seed'', ''override_loaded_hparams'', ''num_keep_ckpts'',
     ''avg_ckpts'', ''language_model'', ''num_intra_threads'', ''num_inter_threads'']"

definition flag_items :: "flags \<Rightarrow> (string \<times> py_value res) list" where
  "flag_items fl =
     map (\<lambda>k. (k, flag fl k)) copied_data
     @ [(''num_encoder_layers'', flag_or fl ''num_encoder_layers'' ''num_layers''),
        (''num_decoder_layers'', flag_or fl ''num_decoder_layers'' ''num_layers'')]
     @ map (\<lambda>k. (k, flag fl k)) copied_model
     @ [(''sos'', flag_or_const fl ''sos'' SOS), (''eos'', flag_or_const fl ''eos'' EOS)]
     @ map (\<lambda>k. (k, flag fl k)) copied_vocab
     @ [(''epoch_step'', Inr (PInt 0)), (''steps_per_stats'', flag fl ''steps_per_stats''),
        (''steps_per_external_eval'', flag fl ''steps_per_external_eval''),
        (''share_vocab'', flag fl ''share_vocab''), (''metrics'', flag_split fl ''metrics'')]
     @ map (\<lambda>k. (k, flag fl k)) copied_misc"

definition create_hparams :: "'h hparams_api \<Rightarrow> flags \<Rightarrow> 'h res" where
  "create_hparams A fl =
     bindE (mapE (\<lambda>(k, r). bindE r (\<lambda>v. Inr (u k, v))) (flag_items fl)) (hp_new A)"

definition create_standard_hparams :: "'h hparams_api \<Rightarrow> 'h res" where
  "create_standard_hparams A = hp_new A (map (\<lambda>(k, v). (u k, v))
    [(''src'', PStr []), (''tgt'', PStr []), (''train_prefix'', PStr []), (''dev_prefix'', PStr []),
     (''test_prefix'', PStr []), (''vocab_prefix'', PStr []), (''embed_prefix'', PStr []), (''out_dir'', PStr []),
     (''num_units'', PInt 512), (''num_encoder_layers'', PInt 2), (''num_decoder_layers'', PInt 2),
     (''dropout'', PFloat 0.2), (''unit_type'', PStr (u ''lstm'')), (''encoder_type'', PStr (u ''bi'')),
     (''residual'', PBool False), (''time_major'', PBool True), (''num_embeddings_partitions'', PInt 0),
     (''num_enc_emb_partitions'', PInt 0), (''num_dec_emb_partitions'', PInt 0),
     (''attention'', PStr (u ''scaled_luong'')), (''attention_architecture'', PStr (u ''standard'')),
     (''output_attention'', PBool True), (''pass_hidden_state'', PBool True),
     (''optimizer'', PStr (u ''sgd'')), (''batch_size'', PInt 128), (''init_op'', PStr (u ''uniform'')),
     (''init_weight'', PFloat 0.1), (''max_gradient_norm'', PFloat 5), (''learning_rate'', PFloat 1),
     (''warmup_steps'', PInt 0), (''warmup_scheme'', PStr (u ''t2t'')), (''decay_scheme'', PStr (u ''luong234'')),
     (''colocate_gradients_with_ops'', PBool True), (''num_train_steps'', PInt 12000),
     (''num_sampled_softmax'', PInt 0),
     (''num_buckets'', PInt 5), (''max_train'', PInt 0), (''src_max_len'', PInt 50), (''tgt_max_len'', PInt 50),
     (''src_max_len_infer'', PInt 0), (''tgt_max_len_infer'', PInt 0),
     (''sos'', PStr (u ''<s>'')), (''eos'', PStr (u ''</s>'')), (''subword_option'', PStr []),
     (''use_char_encode'', PBool False), (''check_special_token'', PBool True),
     (''forget_bias'', PFloat 1), (''num_gpus'', PInt 1), (''epoch_step'', PInt 0), (''steps_per_stats'', PInt 100),
     (''steps_per_external_eval'', PInt 0), (''share_vocab'', PBool False), (''metrics'', PList [PStr (u ''bleu'')]),
     (''log_device_placement'', PBool False), (''random_seed'', PNone),
     (''beam_width'', PInt 0), (''length_penalty_weight'', PFloat 0), (''coverage_penalty_weight'', PFloat 0),
     (''override_loaded_hparams'', PBool True), (''num_keep_ckpts'', PInt 5), (''avg_ckpts'', PBool False),
     (''inference_indices'', PNone), (''infer_batch_size'', PInt 32), (''sampling_temperature'', PFloat 0),
     (''num_translations_per_input'', PInt 1), (''infer_mode'', PStr (u ''greedy'')),
     (''language_model'', PBool False)])"

definition INFERENCE_KEYS :: "string list" where
  "INFERENCE_KEYS = [''src_max_len_infer'', ''tgt_max_len_infer'', ''subword_option'', ''infer_batch_size'',
     ''beam_width'', ''length_penalty_weight'', ''coverage_penalty_weight'', ''sampling_temperature'',
     ''num_translations_per_input'', ''infer_mode'']"

section \<open>Flags and hyper-parameters\<close>

text \<open>Every flag that \<open>create_hparams\<close> reads is declared by \<open>add_arguments\<close>.\<close>

definition declared_flags :: "string list" where
  "declared_flags =
    [''num_units'', ''num_layers'', ''num_encoder_layers'', ''num_decoder_layers'', ''encoder_type'',
     ''residual'', ''time_major'', ''num_embeddings_partitions'', ''attention'', ''attention_architecture'',
     ''output_attention'', ''pass_hidden_state'', ''optimizer'', ''learning_rate'', ''warmup_steps'',
     ''warmup_scheme'', ''decay_scheme'', ''num_train_steps'', ''colocate_gradients_with_ops'', ''init_op'',
     ''init_weight'', ''src'', ''tgt'', ''train_prefix'', ''dev_prefix'',
     ''test_prefix'', ''out_dir'', ''vocab_prefix'', ''embed_prefix'', ''sos'',
     ''eos'', ''share_vocab'', ''check_special_token'', ''src_max_len'', ''tgt_max_len'',
     ''src_max_len_infer'', ''tgt_max_len_infer'', ''unit_type'', ''forget_bias'', ''dropout'',
     ''max_gradient_norm'', ''batch_size'', ''steps_per_stats'', ''max_train'', ''num_buckets'',
     ''num_sampled_softmax'', ''subword_option'', ''use_char_encode'', ''num_gpus'', ''log_device_placement'',
     ''metrics'', ''steps_per_external_eval'', ''scope'', ''hparams_path'', ''random_seed'',
     ''override_loaded_hparams'', ''num_keep_ckpts'', ''avg_ckpts'', ''language_model'', ''ckpt'',
     ''inference_input_file'', ''inference_list'', ''infer_batch_size'', ''inference_output_file'', ''inference_ref_file'',
     ''infer_mode'', ''beam_width'', ''length_penalty_weight'', ''coverage_penalty_weight'', ''sampling_temperature'',
     ''num_translations_per_input'', ''jobid'', ''num_workers'', ''num_inter_threads'', ''num_intra_threads'']"

lemma declared_flags_eq: "map arg_name add_arguments = declared_flags"
  by (simp add: add_arguments_defs arg_def bool_arg_def str_arg_def declared_flags_def)

lemma flags_declared:
  "list_all (\<lambda>k. k \<in> set declared_flags) (copied_data @ copied_model @ copied_vocab @ copied_misc
    @ [''num_encoder_layers'', ''num_decoder_layers'', ''num_layers'', ''sos'', ''eos'', ''steps_per_stats'',
       ''steps_per_external_eval'', ''share_vocab'', ''metrics''])"
  by code_simp

lemma inference_keys_copied: "list_all (\<lambda>k. k \<in> set (''subword_option'' # copied_model)) INFERENCE_KEYS"
  by code_simp

lemma distinct_names:
  "distinct (copied_data @ [''num_encoder_layers'', ''num_decoder_layers''] @ copied_model @ [''sos'', ''eos'']
    @ copied_vocab @ [''epoch_step'', ''steps_per_stats'', ''steps_per_external_eval'', ''share_vocab'', ''metrics'']
    @ copied_misc)"
  by code_simp

lemma flag_item_names: "distinct (map fst (flag_items fl))"
proof -
  have "map fst (flag_items fl) = copied_data @ [''num_encoder_layers'', ''num_decoder_layers''] @ copied_model
    @ [''sos'', ''eos''] @ copied_vocab
    @ [''epoch_step'', ''steps_per_stats'', ''steps_per_external_eval'', ''share_vocab'', ''metrics''] @ copied_misc"
    by (simp add: flag_items_def o_def)
  with distinct_names show ?thesis by (simp only:)
qed

lemma flag_items_inference:
  assumes "k \<in> set INFERENCE_KEYS"
  shows "(k, flag fl k) \<in> set (flag_items fl)"
proof -
  have "\<forall>k \<in> set INFERENCE_KEYS. k = ''subword_option'' \<or> k \<in> set copied_model"
    using inference_keys_copied by (simp only: list_all_iff set_simps insert_iff)
  from bspec[OF this assms] show ?thesis
  proof
    assume "k = ''subword_option''"
    then have "k \<in> set copied_vocab" by (simp only: copied_vocab_def set_simps insert_iff simp_thms)
    then have "(k, flag fl k) \<in> set (map (\<lambda>k. (k, flag fl k)) copied_vocab)" by (simp only: set_map) (rule imageI)
    then show ?thesis unfolding flag_items_def set_append by (rule UnI1[THEN UnI2[THEN UnI2[THEN UnI2[THEN UnI2]]]])
  next
    assume "k \<in> set copied_model"
    then have "(k, flag fl k) \<in> set (map (\<lambda>k. (k, flag fl k)) copied_model)" by (simp only: set_map) (rule imageI)
    then show ?thesis unfolding flag_items_def set_append by (rule UnI1[THEN UnI2[THEN UnI2]])
  qed
qed

lemma flag_items_total:
  assumes "\<forall>a \<in> set add_arguments. fl (u (arg_name a)) \<noteq> None" "fl (u ''metrics'') = Some (PStr s)"
    and "(k, r) \<in> set (flag_items fl)"
  shows "\<exists>v. r = Inr v"
proof -
  have ok: "\<exists>v. flag fl n = Inr v" if "n \<in> set declared_flags" for n
    using assms(1) that unfolding declared_flags_eq[symmetric] by (auto simp: flag_def split: option.splits)
  have declared: "n \<in> set declared_flags"
    if "n \<in> set (copied_data @ copied_model @ copied_vocab @ copied_misc
      @ [''num_encoder_layers'', ''num_decoder_layers'', ''num_layers'', ''sos'', ''eos'', ''steps_per_stats'',
         ''steps_per_external_eval'', ''share_vocab'', ''metrics''])" for n
    using that flags_declared unfolding list_all_iff by blast
  have item: "\<exists>v. flag fl n = Inr v"
    if "n \<in> set (copied_data @ copied_model @ copied_vocab @ copied_misc)
      \<or> n \<in> {''num_encoder_layers'', ''num_decoder_layers'', ''num_layers'', ''sos'', ''eos'', ''steps_per_stats'',
         ''steps_per_external_eval'', ''share_vocab'', ''metrics''}" for n
    by (rule ok, rule declared) (use that in auto)
  obtain e d l s' e' where flags: "flag fl ''num_encoder_layers'' = Inr e" "flag fl ''num_decoder_layers'' = Inr d"
    "flag fl ''num_layers'' = Inr l" "flag fl ''sos'' = Inr s'" "flag fl ''eos'' = Inr e'"
    using item[of "''num_encoder_layers''"] item[of "''num_decoder_layers''"] item[of "''num_layers''"]
      item[of "''sos''"] item[of "''eos''"] by auto
  have "flag fl ''metrics'' = Inr (PStr s)" using assms(2) by (simp add: flag_def)
  with flags have special: "\<exists>v. flag_or fl ''num_encoder_layers'' ''num_layers'' = Inr v"
    "\<exists>v. flag_or fl ''num_decoder_layers'' ''num_layers'' = Inr v" "\<exists>v. flag_or_const fl ''sos'' SOS = Inr v"
    "\<exists>v. flag_or_const fl ''eos'' EOS = Inr v" "\<exists>v. flag_split fl ''metrics'' = Inr v"
    by (simp_all add: flag_or_def flag_or_const_def flag_split_def)
  from assms(3) consider
      n where "n \<in> set (copied_data @ copied_model @ copied_vocab @ copied_misc)" "r = flag fl n"
    | "r = Inr (PInt 0)"
    | n where "n \<in> {''steps_per_stats'', ''steps_per_external_eval'', ''share_vocab''}" "r = flag fl n"
    | "r \<in> {flag_or fl ''num_encoder_layers'' ''num_layers'', flag_or fl ''num_decoder_layers'' ''num_layers'',
        flag_or_const fl ''sos'' SOS, flag_or_const fl ''eos'' EOS, flag_split fl ''metrics''}"
    unfolding flag_items_def by auto
  then show ?thesis
  proof cases
    case 1
    with item show ?thesis by blast
  next
    case 2
    then show ?thesis by simp
  next
    case 3
    with item show ?thesis by blast
  next
    case 4
    with special show ?thesis by auto
  qed
qed

text \<open>
  The flags and the saved hyper-parameters fit together: on any parsed command line,
  \<open>create_hparams\<close> reads only declared flags, so it fails at most in the constructor, and the
  hyper-parameters it creates contain every inference key with the value of the flag of the same
  name. The lookups of \<open>ensure_compatible_hparams\<close> in the defaults therefore cannot fail.
\<close>

theorem create_hparams_inference_keys:
  assumes "hparams_laws A" "\<And>kvs. \<exists>h. hp_new A kvs = Inr h"
    and "\<forall>a \<in> set add_arguments. fl (u (arg_name a)) \<noteq> None" "fl (u ''metrics'') = Some (PStr s)"
  shows "\<exists>h. create_hparams A fl = Inr h
    \<and> (\<forall>k \<in> set INFERENCE_KEYS. u k \<in> set (hp_names A h) \<and> hp_get A h (u k) = fl (u k))"
proof -
  let ?f = "\<lambda>(k, r). bindE r (\<lambda>v. Inr (u k, v))"
  have "\<exists>kvs. mapE ?f (flag_items fl) = Inr kvs"
    unfolding mapE_Inr_iff using flag_items_total[OF assms(3,4)] by fastforce
  then obtain kvs where kvs: "mapE ?f (flag_items fl) = Inr kvs" ..
  from assms(2)[of kvs] obtain h where h: "hp_new A kvs = Inr h" by (elim exE)
  note new = hparams_laws.get_new[OF assms(1) h]
  have names: "map fst kvs = map (u \<circ> fst) (flag_items fl)"
  proof (rule nth_equalityI)
    show "length (map fst kvs) = length (map (u \<circ> fst) (flag_items fl))" using mapE_length[OF kvs] by simp
    show "map fst kvs ! i = map (u \<circ> fst) (flag_items fl) ! i" if "i < length (map fst kvs)" for i
      using mapE_nth[OF kvs, of i] that mapE_length[OF kvs]
      by (cases "kvs ! i") (auto simp: split_beta bindE_Inr_iff)
  qed
  have dist: "distinct (map fst kvs)"
    unfolding names using flag_item_names[of fl] by (simp add: distinct_map inj_on_def u_def)
  have "u k \<in> set (hp_names A h) \<and> hp_get A h (u k) = fl (u k)" if "k \<in> set INFERENCE_KEYS" for k
  proof -
    from flag_items_inference[OF that, of fl] obtain i where
      i: "i < length (flag_items fl)" "flag_items fl ! i = (k, flag fl k)" by (auto simp: in_set_conv_nth)
    from mapE_nth[OF kvs i(1)] i(2) obtain v where v: "flag fl k = Inr v" "kvs ! i = (u k, v)"
      by (auto simp: bindE_Inr_iff)
    have "(u k, v) \<in> set kvs" using v(2) i(1) mapE_length[OF kvs] by (metis nth_mem)
    then have "map_of kvs (u k) = Some v" "u k \<in> fst ` set kvs" using dist by (auto intro: rev_image_eqI)
    moreover have "fl (u k) = Some v" using v(1) by (simp add: flag_def split: option.splits)
    ultimately show ?thesis using new by simp
  qed
  with kvs h show ?thesis by (auto simp: create_hparams_def)
qed

abbreviation sample_store :: "dict_hp hparams_api" where
  "sample_store \<equiv> dict_hparams (\<lambda>s. Inl ValueError) (\<lambda>kvs. [])"

theorem create_hparams_inference_keys_witness:
  "\<exists>h. create_hparams sample_store default_flags = Inr h
    \<and> (\<forall>k \<in> set INFERENCE_KEYS. u k \<in> set (hp_names sample_store h) \<and> hp_get sample_store h (u k) = default_flags (u k))"
proof (rule create_hparams_inference_keys[OF dict_store.hparams_laws_axioms])
  show "\<exists>h. hp_new sample_store kvs = Inr h" for kvs by (simp add: dict_hparams_def)
  show "\<forall>a \<in> set add_arguments. default_flags (u (arg_name a)) \<noteq> None"
  proof
    fix a assume "a \<in> set add_arguments"
    then have "u (arg_name a) \<in> fst ` set (map (\<lambda>a. (u (arg_name a), arg_default a)) add_arguments)"
      unfolding set_map image_image fst_conv by (rule imageI)
    then show "default_flags (u (arg_name a)) \<noteq> None"
      unfolding default_flags_def map_of_fst_None[THEN arg_cong[where f = Not]] by simp
  qed
  have "map_of (map (\<lambda>a. (arg_name a, arg_default a)) add_arguments) ''metrics'' = Some (PStr (u ''bleu''))"
    by (simp add: add_arguments_defs arg_def bool_arg_def str_arg_def)
  moreover have "map_of (map (\<lambda>a. (u (arg_name a), arg_default a)) as) (u k) = map_of (map (\<lambda>a. (arg_name a, arg_default a)) as) k"
    for as :: "argument list" and k by (induction as) auto
  ultimately show "default_flags (u ''metrics'') = Some (PStr (u ''bleu''))"
    by (simp only: default_flags_def)
qed

end
