(* ===== verification/HParams.thy ===== *)
theory HParams
  imports Flags
begin

text \<open>
  The hyper-parameters of \<open>nmt/nmt.py\<close> after they are made of the flags (\<open>Flags\<close>):
  \<open>_add_argument\<close>, \<open>extend_hparams\<close>, \<open>ensure_compatible_hparams\<close> and
  \<open>create_or_load_hparams\<close>; and the file functions on them in \<open>nmt/utils/misc_utils.py\<close>. The
  class \<open>tf.contrib.training.HParams\<close> belongs to TensorFlow: its operations are the parameter
  \<open>A\<close> of the definitions (\<open>Params\<close>).
\<close>

section \<open>Files of hyper-parameters\<close>

definition load_hparams :: "'w gfile \<Rightarrow> 'h hparams_api \<Rightarrow> 'w \<Rightarrow> pystr \<Rightarrow> 'h option res" where
  "load_hparams G A w model_dir =
     (let hparams_file = path_join model_dir (u ''hparams'')
      in if gf_exists G w hparams_file
         then case bindE (read_text G w hparams_file) (\<lambda>f. bindE (json_load A f) (hp_new A)) of
                Inr hparams \<Rightarrow> Inr (Some hparams)
              | Inl e \<Rightarrow> if e = ValueError \<or> e = UnicodeDecodeError then Inr None else Inl e
         else Inr None)"

definition maybe_parse_standard_hparams ::
    "'w gfile \<Rightarrow> 'h hparams_api \<Rightarrow> 'w \<Rightarrow> 'h \<Rightarrow> pystr option \<Rightarrow> 'h res" where
  "maybe_parse_standard_hparams G A w hparams hparams_path =
     (if truthy hparams_path \<and> gf_exists G w (the hparams_path)
      then bindE (read_text G w (the hparams_path)) (hp_parse_json A hparams)
      else Inr hparams)"

definition save_hparams :: "'w gfile \<Rightarrow> 'h hparams_api \<Rightarrow> 'w \<Rightarrow> pystr \<Rightarrow> 'h \<Rightarrow> 'w res" where
  "save_hparams G A w out_dir hparams =
     write_text G w (path_join out_dir (u ''hparams'')) (hp_to_json A hparams)"

section \<open>Extending hyper-parameters\<close>

definition add_argument :: "'h hparams_api \<Rightarrow> 'h \<Rightarrow> pystr \<Rightarrow> py_value \<Rightarrow> bool \<Rightarrow> 'h res" where
  "add_argument A hparams key value update =
     (if hp_get A hparams key \<noteq> None
      then Inr (if update then hp_set A hparams key value else hparams)
      else hp_add A hparams key value)"

definition sanity_checks :: "'h hparams_api \<Rightarrow> 'h \<Rightarrow> unit res" where
  "sanity_checks A h =
     bindE (attr A h (u ''encoder_type'')) (\<lambda>encoder_type.
     bindE (if encoder_type = PStr (u ''bi'')
            then bindE (attr_int A h (u ''num_encoder_layers'')) (\<lambda>n. raise_if (n mod 2 \<noteq> 0) ValueError)
            else Inr ()) (\<lambda>_.
     bindE (attr A h (u ''attention_architecture'')) (\<lambda>arch.
     bindE (if arch = PStr (u ''gnmt'')
            then bindE (attr_int A h (u ''num_encoder_layers'')) (\<lambda>n. raise_if (n < 2) ValueError)
            else Inr ()) (\<lambda>_.
     bindE (attr A h (u ''subword_option'')) (\<lambda>subword_option.
     bindE (raise_if (is_true subword_option \<and>
              subword_option \<notin> {PStr (u ''spm''), PStr (u ''bpe'')}) ValueError) (\<lambda>_.
     bindE (attr A h (u ''infer_mode'')) (\<lambda>infer_mode.
     bindE (if infer_mode = PStr (u ''beam_search'')
            then bindE (attr_int A h (u ''beam_width'')) (\<lambda>n. raise_if (n \<le> 0) ValueError)
            else Inr ()) (\<lambda>_.
     if infer_mode = PStr (u ''sample'')
     then bindE (attr A h (u ''sampling_temperature'')) (\<lambda>v.
          bindE (float_value v) (\<lambda>t. raise_if (t \<le> 0) ValueError))
     else Inr ()))))))))"

definition residual_layers :: "bool \<Rightarrow> bool \<Rightarrow> int \<Rightarrow> int \<Rightarrow> int \<times> int" where
  "residual_layers residual gnmt num_encoder_layers num_decoder_layers =
     (if residual
      then let enc = (if num_encoder_layers > 1 then num_encoder_layers - 1 else 0);
               dec = (if num_decoder_layers > 1 then num_decoder_layers - 1 else 0)
           in if gnmt
              then let enc = num_encoder_layers - 2
                   in (enc, if num_encoder_layers = num_decoder_layers then enc else dec)
              else (enc, dec)
      else (0, 0))"

definition record_residual_layers :: "'h hparams_api \<Rightarrow> int \<times> int \<Rightarrow> 'h \<Rightarrow> 'h res" where
  "record_residual_layers A layers h =
     bindE (add_argument A h (u ''num_encoder_residual_layers'') (PInt (fst layers)) True) (\<lambda>h.
     add_argument A h (u ''num_decoder_residual_layers'') (PInt (snd layers)) True)"

definition set_layers :: "'h hparams_api \<Rightarrow> 'h \<Rightarrow> 'h res" where
  "set_layers A h =
     bindE (attr_int A h (u ''num_encoder_layers'')) (\<lambda>enc.
     bindE (attr_int A h (u ''num_decoder_layers'')) (\<lambda>dec.
     bindE (assertE (enc \<noteq> 0 \<and> dec \<noteq> 0)) (\<lambda>_.
     let h = (if enc \<noteq> dec then hp_set A h (u ''pass_hidden_state'') (PBool False) else h)
     in bindE (attr A h (u ''residual'')) (\<lambda>residual.
        bindE (attr A h (u ''encoder_type'')) (\<lambda>encoder_type.
        record_residual_layers A
          (residual_layers (is_true residual) (encoder_type = PStr (u ''gnmt'')) enc dec) h)))))"

definition set_language_model :: "'h hparams_api \<Rightarrow> 'h \<Rightarrow> 'h res" where
  "set_language_model A h =
     (if is_true (attr_or A h (u ''language_model'') PNone)
      then let h = hp_set A h (u ''attention'') (PStr []);
               h = hp_set A h (u ''attention_architecture'') (PStr []);
               h = hp_set A h (u ''pass_hidden_state'') (PBool False);
               h = hp_set A h (u ''share_vocab'') (PBool True)
           in bindE (attr A h (u ''tgt'')) (\<lambda>tgt. Inr (hp_set A h (u ''src'') tgt))
      else Inr h)"

definition check_vocab_of ::
    "'w gfile \<Rightarrow> 'h hparams_api \<Rightarrow> 'h \<Rightarrow> 'w \<Rightarrow> pystr \<Rightarrow> ((nat \<times> pystr) \<times> 'w) res" where
  "check_vocab_of G A h w vocab_file =
     bindE (attr_str A h (u ''out_dir'')) (\<lambda>out_dir.
     bindE (bindE (attr A h (u ''sos'')) opt_str_value) (\<lambda>sos.
     bindE (bindE (attr A h (u ''eos'')) opt_str_value) (\<lambda>eos.
     check_vocab G w vocab_file out_dir
       (is_true (attr_or A h (u ''check_special_token'') (PBool True))) sos eos (Some UNK))))"

definition record_vocab :: "'h hparams_api \<Rightarrow> nat \<Rightarrow> nat \<Rightarrow> pystr \<Rightarrow> pystr \<Rightarrow> 'h \<Rightarrow> 'h res" where
  "record_vocab A src_vocab_size tgt_vocab_size src_vocab_file tgt_vocab_file h =
     bindE (add_argument A h (u ''src_vocab_size'') (PInt (int src_vocab_size)) True) (\<lambda>h.
     bindE (add_argument A h (u ''tgt_vocab_size'') (PInt (int tgt_vocab_size)) True) (\<lambda>h.
     bindE (add_argument A h (u ''src_vocab_file'') (PStr src_vocab_file) True) (\<lambda>h.
     add_argument A h (u ''tgt_vocab_file'') (PStr tgt_vocab_file) True)))"

definition set_vocab :: "'w gfile \<Rightarrow> 'h hparams_api \<Rightarrow> 'h \<Rightarrow> 'w \<Rightarrow> ('h \<times> 'w) res" where
  "set_vocab G A h w =
     bindE (attr A h (u ''vocab_prefix'')) (\<lambda>prefix_v.
     if is_true prefix_v
     then bindE (str_value prefix_v) (\<lambda>vocab_prefix.
          bindE (attr_str A h (u ''src'')) (\<lambda>src.
          bindE (attr_str A h (u ''tgt'')) (\<lambda>tgt.
          let src_vocab_file = vocab_prefix @ u ''.'' @ src;
              tgt_vocab_file = vocab_prefix @ u ''.'' @ tgt
          in bindE (check_vocab_of G A h w src_vocab_file) (\<lambda>((src_vocab_size, src_vocab_file), w).
             bindE (attr A h (u ''share_vocab'')) (\<lambda>share_vocab.
             bindE (if is_true share_vocab then Inr ((src_vocab_size, src_vocab_file), w)
                    else check_vocab_of G A h w tgt_vocab_file) (\<lambda>((tgt_vocab_size, tgt_vocab_file), w).
             bindE (record_vocab A src_vocab_size tgt_vocab_size src_vocab_file tgt_vocab_file h) (\<lambda>h.
             Inr (h, w))))))))
     else Inl ValueError)"

definition record_partitions :: "'h hparams_api \<Rightarrow> 'h \<Rightarrow> 'h res" where
  "record_partitions A h =
     (let num_embeddings_partitions = attr_or A h (u ''num_embeddings_partitions'') (PInt 0)
      in bindE (add_argument A h (u ''num_enc_emb_partitions'') num_embeddings_partitions True) (\<lambda>h.
         bindE (add_argument A h (u ''num_dec_emb_partitions'') num_embeddings_partitions True) (\<lambda>h.
         bindE (add_argument A h (u ''src_embed_file'') (PStr []) True) (\<lambda>h.
         add_argument A h (u ''tgt_embed_file'') (PStr []) True))))"

definition use_embeddings :: "'w gfile \<Rightarrow> 'h hparams_api \<Rightarrow> 'w \<Rightarrow> 'h \<Rightarrow> 'h res" where
  "use_embeddings G A w h =
     (let embed_prefix_v = attr_or A h (u ''embed_prefix'') PNone
      in if is_true embed_prefix_v
         then bindE (str_value embed_prefix_v) (\<lambda>embed_prefix.
              bindE (attr_str A h (u ''src'')) (\<lambda>src.
              bindE (attr_str A h (u ''tgt'')) (\<lambda>tgt.
              let src_embed_file = embed_prefix @ u ''.'' @ src;
                  tgt_embed_file = embed_prefix @ u ''.'' @ tgt;
                  h = (if gf_exists G w src_embed_file
                       then hp_set A (hp_set A h (u ''src_embed_file'') (PStr src_embed_file))
                              (u ''num_enc_emb_partitions'') (PInt 1)
                       else h)
              in Inr (if gf_exists G w tgt_embed_file
                      then hp_set A (hp_set A h (u ''tgt_embed_file'') (PStr tgt_embed_file))
                             (u ''num_dec_emb_partitions'') (PInt 1)
                      else h))))
         else Inr h)"

definition set_embeddings :: "'w gfile \<Rightarrow> 'h hparams_api \<Rightarrow> 'h \<Rightarrow> 'w \<Rightarrow> 'h res" where
  "set_embeddings G A h w = bindE (record_partitions A h) (use_embeddings G A w)"

definition record_metric ::
    "'w gfile \<Rightarrow> 'h hparams_api \<Rightarrow> pystr \<Rightarrow> pystr \<Rightarrow> 'h \<times> 'w \<Rightarrow> ('h \<times> 'w) res" where
  "record_metric G A out_dir name hw =
     (let (h, w) = hw; best_metric_dir = path_join out_dir name
      in bindE (gf_makedirs G w best_metric_dir) (\<lambda>w.
         bindE (add_argument A h name (PInt 0) False) (\<lambda>h.
         bindE (add_argument A h (name @ u ''_dir'') (PStr best_metric_dir) True) (\<lambda>h.
         Inr (h, w)))))"

definition set_metric ::
    "'w gfile \<Rightarrow> 'h hparams_api \<Rightarrow> 'h \<times> 'w \<Rightarrow> pystr \<Rightarrow> ('h \<times> 'w) res" where
  "set_metric G A hw metric =
     bindE (attr_str A (fst hw) (u ''out_dir'')) (\<lambda>out_dir.
     bindE (record_metric G A out_dir (u ''best_'' @ metric) hw) (\<lambda>hw.
     if is_true (attr_or A (fst hw) (u ''avg_ckpts'') PNone)
     then record_metric G A out_dir (u ''avg_best_'' @ metric) hw
     else Inr hw))"

definition extend_hparams :: "'w gfile \<Rightarrow> 'h hparams_api \<Rightarrow> 'h \<Rightarrow> 'w \<Rightarrow> ('h \<times> 'w) res" where
  "extend_hparams G A h w =
     bindE (sanity_checks A h) (\<lambda>_.
     bindE (set_layers A h) (\<lambda>h.
     bindE (set_language_model A h) (\<lambda>h.
     bindE (set_vocab G A h w) (\<lambda>(h, w).
     bindE (set_embeddings G A h w) (\<lambda>h.
     bindE (bindE (attr A h (u ''metrics'')) str_list_value) (\<lambda>metrics.
     foldE (set_metric G A) (h, w) metrics))))))"

section \<open>Compatibility with saved hyper-parameters\<close>

text \<open>Python's \<open>==\<close>: numbers and booleans compare by value across their types.\<close>

fun number :: "py_value \<Rightarrow> real option" where
  "number (PInt n) = Some (real_of_int n)"
| "number (PFloat x) = Some x"
| "number (PBool b) = Some (if b then 1 else 0)"
| "number _ = None"

fun py_eq :: "py_value \<Rightarrow> py_value \<Rightarrow> bool" where
  "py_eq (PList vs) (PList ws) \<longleftrightarrow> list_all2 py_eq vs ws"
| "py_eq v w \<longleftrightarrow> v = w \<or> number v \<noteq> None \<and> number v = number w"

definition add_missing ::
    "'h hparams_api \<Rightarrow> (pystr \<rightharpoonup> py_value) \<Rightarrow> 'h \<Rightarrow> pystr \<times> py_value \<Rightarrow> 'h res" where
  "add_missing A config h kv =
     (if config (fst kv) = None then hp_add A h (fst kv) (snd kv) else Inr h)"

definition overwrite_key ::
    "'h hparams_api \<Rightarrow> (pystr \<rightharpoonup> py_value) \<Rightarrow> 'h \<Rightarrow> pystr \<Rightarrow> 'h res" where
  "overwrite_key A default_config h key =
     bindE (attr A h key) (\<lambda>v.
     bindE (dict_get default_config key) (\<lambda>d.
     Inr (if py_eq v d then h else hp_set A h key d)))"

definition set_num_layers :: "'h hparams_api \<Rightarrow> 'h \<Rightarrow> 'h res" where
  "set_num_layers A h =
     (case hp_get A h (u ''num_layers'') of
        None \<Rightarrow> Inr h
      | Some n \<Rightarrow>
          bindE (if hp_get A h (u ''num_encoder_layers'') = None
                 then hp_add A h (u ''num_encoder_layers'') n else Inr h) (\<lambda>h.
          if hp_get A h (u ''num_decoder_layers'') = None
          then hp_add A h (u ''num_decoder_layers'') n else Inr h))"

definition ensure_compatible_hparams ::
    "'w gfile \<Rightarrow> 'h hparams_api \<Rightarrow> 'w \<Rightarrow> 'h \<Rightarrow> 'h \<Rightarrow> pystr option \<Rightarrow> 'h res" where
  "ensure_compatible_hparams G A w hparams default_hparams hparams_path =
     bindE (maybe_parse_standard_hparams G A w default_hparams hparams_path) (\<lambda>default_hparams.
     bindE (set_num_layers A hparams) (\<lambda>hparams.
     bindE (values_of A default_hparams) (\<lambda>default_config.
     bindE (values_of A hparams) (\<lambda>config.
     bindE (foldE (add_missing A (map_of config)) hparams default_config) (\<lambda>hparams.
     let overwritten_keys =
           (if is_true (attr_or A default_hparams (u ''override_loaded_hparams'') PNone)
            then map fst default_config else map u INFERENCE_KEYS)
     in foldE (overwrite_key A (map_of default_config)) hparams overwritten_keys)))))"

definition create_or_load_hparams ::
    "'w gfile \<Rightarrow> 'h hparams_api \<Rightarrow> 'w \<Rightarrow> pystr \<Rightarrow> 'h \<Rightarrow> pystr option \<Rightarrow> bool \<Rightarrow> ('h \<times> 'w) res" where
  "create_or_load_hparams G A w out_dir default_hparams hparams_path do_save =
     bindE (load_hparams G A w out_dir) (\<lambda>loaded.
     bindE (case loaded of
              None \<Rightarrow> maybe_parse_standard_hparams G A w default_hparams hparams_path
            | Some hparams \<Rightarrow> ensure_compatible_hparams G A w hparams default_hparams hparams_path) (\<lambda>hparams.
     bindE (extend_hparams G A hparams w) (\<lambda>(hparams, w).
     bindE (if do_save
            then bindE (save_hparams G A w out_dir hparams) (\<lambda>w.
                 bindE (bindE (attr A hparams (u ''metrics'')) str_list_value) (\<lambda>metrics.
                 foldE (\<lambda>w metric.
                     bindE (attr_str A hparams (u ''best_'' @ metric @ u ''_dir'')) (\<lambda>d.
                     save_hparams G A w d hparams)) w metrics))
            else Inr w) (\<lambda>w.
     Inr (hparams, w)))))"

section \<open>What the operations change\<close>

context hparams_laws
begin

lemma get_add_argument:
  "add_argument A h k v b = Inr h' \<Longrightarrow>
   hp_get A h' = (if hp_get A h k \<noteq> None \<and> \<not> b then hp_get A h else (hp_get A h)(k \<mapsto> v))"
  by (auto simp: add_argument_def get_set get_add split: if_splits)

lemma add_argument_other: "add_argument A h k v b = Inr h' \<Longrightarrow> j \<noteq> k \<Longrightarrow> hp_get A h' j = hp_get A h j"
  by (simp add: get_add_argument)

lemma add_argument_keeps: "add_argument A h k v False = Inr h' \<Longrightarrow> hp_get A h j = Some x \<Longrightarrow> hp_get A h' j = Some x"
  by (auto simp: get_add_argument)

lemma okE_add_argument:
  "only ks h h' \<Longrightarrow> k \<in> ks \<Longrightarrow> okE (add_argument A h' k v b) (only ks h)"
  by (auto simp: okE_def only_def get_add_argument split: if_splits)

lemma okE_bind_add_argument:
  assumes "only ks h h'" "k \<in> ks" "\<And>h''. only ks h h'' \<Longrightarrow> okE (f h'') Q"
  shows "okE (bindE (add_argument A h' k v b) f) Q"
  by (rule okE_bind, rule okE_I) (use assms okE_D[OF okE_add_argument[OF assms(1,2)]] in blast)

lemma record_residual_layers_only:
  "k = {u ''num_encoder_residual_layers'', u ''num_decoder_residual_layers''} \<Longrightarrow>
   okE (record_residual_layers A ls h) (only k h)"
  unfolding record_residual_layers_def
  by (rule okE_bind_add_argument[where ks = k and h = h], rule only_refl, simp, rule okE_add_argument) simp_all

lemma set_layers_only:
  "okE (set_layers A h) (only {u ''pass_hidden_state'', u ''num_encoder_residual_layers'',
     u ''num_decoder_residual_layers''} h)"
  unfolding set_layers_def Let_def
proof (rule okE_bind_any okE_I)+
  fix x y h'
  assume "record_residual_layers A y (if x then hp_set A h (u ''pass_hidden_state'') (PBool False) else h) = Inr h'"
  from okE_D[OF record_residual_layers_only[OF refl] this]
  show "only {u ''pass_hidden_state'', u ''num_encoder_residual_layers'', u ''num_decoder_residual_layers''} h h'"
    by (auto simp: only_def get_set split: if_splits)
qed

lemma set_language_model_only:
  "okE (set_language_model A h) (only {u ''attention'', u ''attention_architecture'',
     u ''pass_hidden_state'', u ''share_vocab'', u ''src''} h)"
  unfolding set_language_model_def Let_def
  by (intro okE_rules only_set only_refl) simp_all

lemma record_vocab_only:
  "k = {u ''src_vocab_size'', u ''tgt_vocab_size'', u ''src_vocab_file'', u ''tgt_vocab_file''} \<Longrightarrow>
   okE (record_vocab A m n p q h) (only k h)"
  unfolding record_vocab_def
  by ((rule okE_bind_add_argument[where ks = k and h = h], (rule only_refl | assumption), simp)+, rule okE_add_argument) simp_all

lemma set_vocab_only:
  "okE (set_vocab G A h w) (\<lambda>(h', w'). only {u ''src_vocab_size'', u ''tgt_vocab_size'',
     u ''src_vocab_file'', u ''tgt_vocab_file''} h h')"
  unfolding set_vocab_def Let_def
  by (intro okE_rules) (simp_all add: okE_D[OF record_vocab_only[OF refl]])

lemma record_partitions_only:
  "k = {u ''num_enc_emb_partitions'', u ''num_dec_emb_partitions'', u ''src_embed_file'', u ''tgt_embed_file''} \<Longrightarrow>
   okE (record_partitions A h) (only k h)"
  unfolding record_partitions_def Let_def
  by ((rule okE_bind_add_argument[where ks = k and h = h], (rule only_refl | assumption), simp)+, rule okE_add_argument) simp_all

lemma use_embeddings_only:
  "okE (use_embeddings G A w h) (only {u ''num_enc_emb_partitions'', u ''num_dec_emb_partitions'',
     u ''src_embed_file'', u ''tgt_embed_file''} h)"
  unfolding use_embeddings_def Let_def
  by (intro okE_rules only_refl) (auto simp: only_def get_set)

lemma set_embeddings_only:
  "okE (set_embeddings G A h w) (only {u ''num_enc_emb_partitions'', u ''num_dec_emb_partitions'',
     u ''src_embed_file'', u ''tgt_embed_file''} h)"
  unfolding set_embeddings_def
  by (rule okE_bind, rule okE_I, rule okE_I)
    (use okE_D[OF record_partitions_only[OF refl]] okE_D[OF use_embeddings_only] in \<open>force simp: only_def\<close>)

text \<open>What \<open>set_layers\<close> establishes.\<close>

lemma set_layers_result:
  assumes "set_layers A h = Inr h'"
    and "hp_get A h (u ''num_encoder_layers'') = Some (PInt e)" "hp_get A h (u ''num_decoder_layers'') = Some (PInt d)"
    and "hp_get A h (u ''encoder_type'') = Some t" "hp_get A h (u ''residual'') = Some r"
  shows "hp_get A h' (u ''num_encoder_residual_layers'')
      = Some (PInt (fst (residual_layers (is_true r) (t = PStr (u ''gnmt'')) e d)))"
    and "hp_get A h' (u ''num_decoder_residual_layers'')
      = Some (PInt (snd (residual_layers (is_true r) (t = PStr (u ''gnmt'')) e d)))"
    and "e \<noteq> d \<Longrightarrow> hp_get A h' (u ''pass_hidden_state'') = Some (PBool False)"
proof -
  define h1 where "h1 = (if e \<noteq> d then hp_set A h (u ''pass_hidden_state'') (PBool False) else h)"
  let ?ls = "residual_layers (is_true r) (t = PStr (u ''gnmt'')) e d"
  have reads: "attr_int A h (u ''num_encoder_layers'') = Inr e" "attr_int A h (u ''num_decoder_layers'') = Inr d"
    using assms(2,3) by (simp_all add: attr_int_def attr_def)
  have "hp_get A h1 (u ''encoder_type'') = Some t" "hp_get A h1 (u ''residual'') = Some r"
    using assms(4,5) by (simp_all add: h1_def get_set)
  with assms(1) reads have rec: "record_residual_layers A ?ls h1 = Inr h'"
    by (auto simp: set_layers_def attr_def bindE_Inr_iff Let_def h1_def)
  then obtain h2 where
    h2: "add_argument A h1 (u ''num_encoder_residual_layers'') (PInt (fst ?ls)) True = Inr h2"
    "add_argument A h2 (u ''num_decoder_residual_layers'') (PInt (snd ?ls)) True = Inr h'"
    by (auto simp: record_residual_layers_def bindE_Inr_iff)
  show "hp_get A h' (u ''num_encoder_residual_layers'') = Some (PInt (fst ?ls))"
    "hp_get A h' (u ''num_decoder_residual_layers'') = Some (PInt (snd ?ls))"
    "e \<noteq> d \<Longrightarrow> hp_get A h' (u ''pass_hidden_state'') = Some (PBool False)"
    using get_add_argument[OF h2(1)] get_add_argument[OF h2(2)] by (auto simp: h1_def get_set)
qed

text \<open>The best scores through \<open>set_metric\<close>.\<close>

lemma record_metric_get:
  assumes "record_metric G A out_dir name hw = Inr hw'" "k \<noteq> name @ u ''_dir''"
  shows "hp_get A (fst hw') k
    = (if hp_get A (fst hw) k = None \<and> k = name then Some (PInt 0) else hp_get A (fst hw) k)"
proof -
  obtain h w where hw: "hw = (h, w)" by (cases hw)
  with assms(1) obtain h1 h2 v where
    h1: "add_argument A h name (PInt 0) False = Inr h1" and
    h2: "add_argument A h1 (name @ u ''_dir'') v True = Inr h2" "fst hw' = h2"
    by (auto simp: record_metric_def bindE_Inr_iff Let_def)
  show ?thesis
    using get_add_argument[OF h1] add_argument_other[OF h2(1) assms(2)] h2(2) hw by auto
qed

lemma set_metric_best:
  assumes "set_metric G A (h, w) m = Inr (h', w')" "m0 \<noteq> m @ u ''_dir''"
  shows "hp_get A h' (u ''best_'' @ m0)
    = (if hp_get A h (u ''best_'' @ m0) = None \<and> m0 = m then Some (PInt 0) else hp_get A h (u ''best_'' @ m0))"
proof -
  let ?k = "u ''best_'' @ m0"
  have keys: "?k \<noteq> (u ''best_'' @ m) @ u ''_dir''" "?k \<noteq> u ''avg_best_'' @ m"
    "?k \<noteq> (u ''avg_best_'' @ m) @ u ''_dir''"
    using assms(2) by (auto simp: u_def)
  from assms(1) obtain out_dir hw1 where
    1: "record_metric G A out_dir (u ''best_'' @ m) (h, w) = Inr hw1" and
    2: "(h', w') = hw1 \<or> record_metric G A out_dir (u ''avg_best_'' @ m) hw1 = Inr (h', w')"
    by (auto simp: set_metric_def bindE_Inr_iff split: if_splits)
  have "hp_get A h' ?k = hp_get A (fst hw1) ?k"
    using 2 record_metric_get[of G out_dir "u ''avg_best_'' @ m" hw1 "(h', w')" ?k] keys by auto
  with record_metric_get[OF 1 keys(1)] show ?thesis by auto
qed

lemma set_metrics_best:
  assumes "foldE (set_metric G A) (h, w) ms = Inr (h', w')" "\<forall>m \<in> set ms. m0 \<noteq> m @ u ''_dir''"
  shows "hp_get A h' (u ''best_'' @ m0)
    = (if hp_get A h (u ''best_'' @ m0) = None \<and> m0 \<in> set ms then Some (PInt 0) else hp_get A h (u ''best_'' @ m0))"
  using assms
proof (induction ms arbitrary: h w)
  case (Cons m ms)
  then obtain h1 w1 where step: "set_metric G A (h, w) m = Inr (h1, w1)"
    and rest: "foldE (set_metric G A) (h1, w1) ms = Inr (h', w')"
    by (auto simp: bindE_Inr_iff)
  from set_metric_best[OF step, of m0] Cons.IH[OF rest] Cons.prems(2) show ?case by auto
qed simp

lemma set_metrics_other:
  assumes "foldE (set_metric G A) hw ms = Inr hw'"
    and "\<And>m. k \<notin> {u ''best_'' @ m, u ''avg_best_'' @ m}"
  shows "hp_get A (fst hw') k = hp_get A (fst hw) k"
proof -
  have rm: "hp_get A (fst y) k = hp_get A (fst x) k"
    if "record_metric G A d name x = Inr y" "name = u ''best_'' @ m \<or> name = u ''avg_best_'' @ m" for x y d name m
    using record_metric_get[OF that(1), of k] that(2) assms(2)[of m] assms(2)[of "m @ u ''_dir''"] by auto
  have "okE (set_metric G A x m) (\<lambda>y. hp_get A (fst y) k = hp_get A (fst x) k)" for x m
    unfolding set_metric_def
    by (intro okE_bind_any okE_if okE_result okE_I) (metis rm)+
  then have "okE (foldE (set_metric G A) hw ms) (\<lambda>y. hp_get A (fst y) k = hp_get A (fst hw) k)"
    by (intro okE_foldE) (auto simp: okE_def)
  from okE_D[OF this assms(1)] show ?thesis .
qed

text \<open>The layer attributes are not touched after \<open>set_layers\<close>.\<close>

definition later_keys :: "pystr set" where
  "later_keys = {u ''attention'', u ''attention_architecture'', u ''pass_hidden_state'', u ''share_vocab'', u ''src''}
     \<union> {u ''src_vocab_size'', u ''tgt_vocab_size'', u ''src_vocab_file'', u ''tgt_vocab_file''}
     \<union> {u ''num_enc_emb_partitions'', u ''num_dec_emb_partitions'', u ''src_embed_file'', u ''tgt_embed_file''}"

lemma extend_hparams_parts:
  assumes "extend_hparams G A h w = Inr (h', w')"
  obtains h1 h2 w2 ms where "sanity_checks A h = Inr ()" "set_layers A h = Inr h1" "only later_keys h1 h2"
    "bindE (attr A h (u ''metrics'')) str_list_value = Inr ms"
    "foldE (set_metric G A) (h2, w2) ms = Inr (h', w')"
proof -
  from assms obtain h1 h1a h1b w2 h2 ms where
    h1: "sanity_checks A h = Inr ()" "set_layers A h = Inr h1" and
    h1a: "set_language_model A h1 = Inr h1a" and h1b: "set_vocab G A h1a w = Inr (h1b, w2)" and
    h2: "set_embeddings G A h1b w2 = Inr h2" and
    ms: "bindE (attr A h2 (u ''metrics'')) str_list_value = Inr ms"
    "foldE (set_metric G A) (h2, w2) ms = Inr (h', w')"
    unfolding extend_hparams_def bindE_Inr_iff by (auto simp: bindE_Inr_iff)
  have later: "only later_keys h1 h2"
    using only_trans[OF only_trans[OF okE_D[OF set_language_model_only h1a]
        okE_D[OF set_vocab_only h1b, unfolded prod.case]] okE_D[OF set_embeddings_only h2]]
    by (simp only: later_keys_def)
  have "u ''metrics'' \<notin> later_keys" by (simp add: later_keys_def)
  with later have "hp_get A h2 (u ''metrics'') = hp_get A h1 (u ''metrics'')" by (simp add: only_def)
  also have "\<dots> = hp_get A h (u ''metrics'')"
    using okE_D[OF set_layers_only h1(2)] by (simp add: only_def)
  finally show ?thesis using that[OF h1 later] ms by (simp add: attr_def)
qed

lemma extend_layers:
  assumes "extend_hparams G A h w = Inr (h', w')" "k \<notin> later_keys"
    and "\<And>m. k \<notin> {u ''best_'' @ m, u ''avg_best_'' @ m}"
  obtains h1 where "sanity_checks A h = Inr ()" "set_layers A h = Inr h1" "hp_get A h' k = hp_get A h1 k"
proof -
  from extend_hparams_parts[OF assms(1)] obtain h1 h2 w2 ms where
    parts: "sanity_checks A h = Inr ()" "set_layers A h = Inr h1" "only later_keys h1 h2"
    "foldE (set_metric G A) (h2, w2) ms = Inr (h', w')" by metis
  have "hp_get A h' k = hp_get A h1 k"
    using set_metrics_other[OF parts(4) assms(3)] parts(3) assms(2) by (simp add: only_def)
  with that parts(1,2) show ?thesis by blast
qed

lemma extend_best:
  assumes "extend_hparams G A h w = Inr (h', w')"
    and "bindE (attr A h (u ''metrics'')) str_list_value = Inr ms"
    and "\<forall>m \<in> set ms. m0 \<noteq> m @ u ''_dir''"
  shows "hp_get A h' (u ''best_'' @ m0)
    = (if hp_get A h (u ''best_'' @ m0) = None \<and> m0 \<in> set ms then Some (PInt 0) else hp_get A h (u ''best_'' @ m0))"
proof -
  from extend_hparams_parts[OF assms(1)] obtain h1 h2 w2 where
    parts: "set_layers A h = Inr h1" "only later_keys h1 h2" "foldE (set_metric G A) (h2, w2) ms = Inr (h', w')"
    by (metis assms(2) sum.inject(2))
  have "u ''best_'' @ m0 \<notin> later_keys" by (auto simp: later_keys_def u_def)
  with parts(2) have "hp_get A h2 (u ''best_'' @ m0) = hp_get A h1 (u ''best_'' @ m0)" by (simp add: only_def)
  also have "\<dots> = hp_get A h (u ''best_'' @ m0)"
    using okE_D[OF set_layers_only parts(1)] by (auto simp: only_def u_def)
  finally show ?thesis using set_metrics_best[OF parts(3) assms(3)] by simp
qed

lemma add_missing_loop:
  assumes "foldE (add_missing A cfg) h kvs = Inr h'"
  shows "cfg k \<noteq> None \<Longrightarrow> hp_get A h' k = hp_get A h k"
    and "cfg k = None \<Longrightarrow> hp_get A h k = Some d \<or> k \<in> fst ` set kvs \<Longrightarrow> \<forall>(k', v) \<in> set kvs. k' = k \<longrightarrow> v = d
      \<Longrightarrow> hp_get A h' k = Some d"
proof -
  have step: "hp_get A h2 = (if cfg (fst kv) = None then (hp_get A h1)(fst kv \<mapsto> snd kv) else hp_get A h1)"
    if "add_missing A cfg h1 kv = Inr h2" for h1 h2 kv
    using that by (auto simp: add_missing_def get_add split: if_splits)
  show "cfg k \<noteq> None \<Longrightarrow> hp_get A h' k = hp_get A h k"
    using assms
  proof (induction kvs arbitrary: h)
    case (Cons kv kvs)
    then obtain h1 where "add_missing A cfg h kv = Inr h1" "foldE (add_missing A cfg) h1 kvs = Inr h'"
      by (auto simp: bindE_Inr_iff)
    with Cons.IH[of h1] Cons.prems(1) show ?case by (auto simp: step)
  qed simp
  show "cfg k = None \<Longrightarrow> hp_get A h k = Some d \<or> k \<in> fst ` set kvs \<Longrightarrow> \<forall>(k', v) \<in> set kvs. k' = k \<longrightarrow> v = d
      \<Longrightarrow> hp_get A h' k = Some d"
    using assms
  proof (induction kvs arbitrary: h)
    case (Cons kv kvs)
    then obtain h1 where h1: "add_missing A cfg h kv = Inr h1" "foldE (add_missing A cfg) h1 kvs = Inr h'"
      by (auto simp: bindE_Inr_iff)
    have "hp_get A h1 k = Some d \<or> k \<in> fst ` set kvs"
      using Cons.prems(1-3) by (auto simp: step[OF h1(1)])
    then show ?case using Cons.prems(1,3) by (intro Cons.IH[OF _ _ _ h1(2)]) auto
  qed simp
qed

lemma py_eq_refl [simp]: "py_eq v v"
proof (induction v)
  case (PList vs)
  then show ?case by (simp add: list.rel_refl_strong)
qed simp_all

lemma overwrite_loop:
  assumes "foldE (overwrite_key A d) h ks = Inr h'"
  shows "if k \<in> set ks then \<exists>v w. hp_get A h' k = Some v \<and> d k = Some w \<and> py_eq v w
    else hp_get A h' k = hp_get A h k"
  using assms
proof (induction ks arbitrary: h)
  case (Cons k0 ks)
  then obtain h1 where h1: "overwrite_key A d h k0 = Inr h1" "foldE (overwrite_key A d) h1 ks = Inr h'"
    by (auto simp: bindE_Inr_iff)
  from h1(1) obtain v w where vw: "hp_get A h k0 = Some v" "d k0 = Some w"
    "h1 = (if py_eq v w then h else hp_set A h k0 w)"
    by (auto simp: overwrite_key_def bindE_Inr_iff attr_def split: option.splits)
  then have "hp_get A h1 k0 = Some (if py_eq v w then v else w)" "k \<noteq> k0 \<Longrightarrow> hp_get A h1 k = hp_get A h k"
    by (auto simp: get_set)
  with Cons.IH[OF h1(2)] vw(2) show ?case by (cases "k = k0"; cases "k \<in> set ks") auto
qed simp

text \<open>An overwritten value that is already the one of the dictionary stays exactly that.\<close>

lemma overwrite_same:
  assumes "foldE (overwrite_key A d) h ks = Inr h'" "hp_get A h k = d k"
  shows "hp_get A h' k = d k"
  using assms
proof (induction ks arbitrary: h)
  case (Cons k0 ks)
  then obtain h1 where h1: "overwrite_key A d h k0 = Inr h1" "foldE (overwrite_key A d) h1 ks = Inr h'"
    by (auto simp: bindE_Inr_iff)
  have "hp_get A h1 k = d k"
    using h1(1) Cons.prems(2) by (auto simp: overwrite_key_def bindE_Inr_iff attr_def get_set split: option.splits if_splits)
  then show ?case by (rule Cons.IH[OF h1(2)])
qed simp

definition extends :: "'h \<Rightarrow> 'h \<Rightarrow> bool" where
  "extends h h' \<longleftrightarrow> (\<forall>k v. hp_get A h k = Some v \<longrightarrow> hp_get A h' k = Some v)
     \<and> set (hp_names A h) \<subseteq> set (hp_names A h')"

lemma extends_add:
  assumes "extends h0 h" "hp_get A h k = None"
  shows "okE (hp_add A h k v) (extends h0)"
proof (rule okE_I)
  fix h' assume "hp_add A h k v = Inr h'"
  from get_add[OF this] names_add[OF this] assms show "extends h0 h'" by (auto simp: extends_def)
qed

lemma set_num_layers_extends: "okE (set_num_layers A h) (extends h)"
proof -
  have refl: "extends h h" by (simp add: extends_def)
  have second: "okE (if hp_get A g (u ''num_decoder_layers'') = None
          then hp_add A g (u ''num_decoder_layers'') n else Inr g) (extends h)" if "extends h g" for g n
    using that by (intro okE_rules extends_add)
  have first: "okE (if hp_get A h (u ''num_encoder_layers'') = None
          then hp_add A h (u ''num_encoder_layers'') n else Inr h) (extends h)" for n
    using refl by (intro okE_rules extends_add)
  show ?thesis
    unfolding set_num_layers_def
  proof (rule okE_option)
    show "okE (Inr h) (extends h)" using refl by (rule okE_result)
    show "okE (bindE (if hp_get A h (u ''num_encoder_layers'') = None
              then hp_add A h (u ''num_encoder_layers'') n else Inr h) (\<lambda>h.
            if hp_get A h (u ''num_decoder_layers'') = None
            then hp_add A h (u ''num_decoder_layers'') n else Inr h)) (extends h)" for n
      by (rule okE_bind_any, rule second, rule okE_D[OF first])
  qed
qed

lemma set_num_layers_keeps:
  "set_num_layers A h = Inr h' \<Longrightarrow> hp_get A h k = Some v \<Longrightarrow> hp_get A h' k = Some v"
  using okE_D[OF set_num_layers_extends] by (simp add: extends_def)

lemma set_num_layers_names:
  assumes "set_num_layers A h = Inr h'"
  shows "set (hp_names A h) \<subseteq> set (hp_names A h')"
  using okE_D[OF set_num_layers_extends assms] by (simp add: extends_def)

lemma set_num_layers_added:
  assumes "set_num_layers A h = Inr h'"
  shows "set (hp_names A h') \<subseteq> set (hp_names A h)
      \<union> (if hp_get A h (u ''num_layers'') = None then {} else {u ''num_encoder_layers'', u ''num_decoder_layers''})"
    and "hp_get A h (u ''num_layers'') = Some n \<Longrightarrow> k \<in> {u ''num_encoder_layers'', u ''num_decoder_layers''} \<Longrightarrow>
      hp_get A h k = None \<Longrightarrow> hp_get A h' k = Some n \<and> k \<in> set (hp_names A h')"
proof -
  have names: "hp_add A h1 k v = Inr h2 \<Longrightarrow> x \<in> set (hp_names A h2) \<longleftrightarrow> x = k \<or> x \<in> set (hp_names A h1)" for h1 h2 k v x
    using names_add by blast
  have distinct: "u ''num_encoder_layers'' \<noteq> u ''num_decoder_layers''" by (simp add: u_def)
  show "set (hp_names A h') \<subseteq> set (hp_names A h)
      \<union> (if hp_get A h (u ''num_layers'') = None then {} else {u ''num_encoder_layers'', u ''num_decoder_layers''})"
    using assms by (auto simp: set_num_layers_def bindE_Inr_iff names split: option.splits if_splits)
  assume n: "hp_get A h (u ''num_layers'') = Some n" and k: "k \<in> {u ''num_encoder_layers'', u ''num_decoder_layers''}"
    and none: "hp_get A h k = None"
  from assms n obtain g where
    g: "(if hp_get A h (u ''num_encoder_layers'') = None then hp_add A h (u ''num_encoder_layers'') n else Inr h) = Inr g"
    and h': "(if hp_get A g (u ''num_decoder_layers'') = None then hp_add A g (u ''num_decoder_layers'') n else Inr g) = Inr h'"
    by (auto simp: set_num_layers_def bindE_Inr_iff)
  show "hp_get A h' k = Some n \<and> k \<in> set (hp_names A h')"
  proof (cases "k = u ''num_encoder_layers''")
    case True
    with g none have "hp_get A g k = Some n" "k \<in> set (hp_names A g)" by (simp_all add: get_add names)
    with h' True distinct show ?thesis by (auto simp: get_add names split: if_splits)
  next
    case False
    with k have k: "k = u ''num_decoder_layers''" by simp
    have "hp_get A g k = None" using g none k distinct by (auto simp: get_add split: if_splits)
    with h' k show ?thesis by (simp add: get_add names)
  qed
qed

lemma ensure_compatible_result:
  assumes "ensure_compatible_hparams G A w h dh path = Inr h'"
  obtains dh' where "maybe_parse_standard_hparams G A w dh path = Inr dh'"
    "\<And>k. k \<in> set (hp_names A dh') \<Longrightarrow> k \<notin> set (hp_names A h) \<Longrightarrow>
       hp_get A h (u ''num_layers'') = None \<or> k \<notin> {u ''num_encoder_layers'', u ''num_decoder_layers''} \<Longrightarrow>
       hp_get A h' k = hp_get A dh' k"
    "\<And>k n. k \<in> {u ''num_encoder_layers'', u ''num_decoder_layers''} \<Longrightarrow> hp_get A h (u ''num_layers'') = Some n \<Longrightarrow>
       hp_get A h k = None \<Longrightarrow>
       k \<notin> (if is_true (attr_or A dh' (u ''override_loaded_hparams'') PNone)
            then set (hp_names A dh') else u ` set INFERENCE_KEYS) \<Longrightarrow> hp_get A h' k = Some n"
    "\<And>k. k \<in> (if is_true (attr_or A dh' (u ''override_loaded_hparams'') PNone)
            then set (hp_names A dh') else u ` set INFERENCE_KEYS) \<Longrightarrow>
       \<exists>v w. hp_get A h' k = Some v \<and> hp_get A dh' k = Some w \<and> py_eq v w"
    "\<And>k v. k \<in> set (hp_names A h) \<Longrightarrow> hp_get A h k = Some v \<Longrightarrow>
       k \<notin> (if is_true (attr_or A dh' (u ''override_loaded_hparams'') PNone)
            then set (hp_names A dh') else u ` set INFERENCE_KEYS) \<Longrightarrow> hp_get A h' k = Some v"
proof -
  from assms obtain dh' h1 dcfg cfg h2 where
    dh': "maybe_parse_standard_hparams G A w dh path = Inr dh'" and
    h1: "set_num_layers A h = Inr h1" and d: "values_of A dh' = Inr dcfg" and c: "values_of A h1 = Inr cfg" and
    h2: "foldE (add_missing A (map_of cfg)) h1 dcfg = Inr h2" and
    h': "foldE (overwrite_key A (map_of dcfg)) h2
        (if is_true (attr_or A dh' (u ''override_loaded_hparams'') PNone)
         then map fst dcfg else map u INFERENCE_KEYS) = Inr h'"
    by (auto simp: ensure_compatible_hparams_def bindE_Inr_iff Let_def)
  from values_of_total[of dh'] d have dn: "map fst dcfg = hp_names A dh'" "\<forall>(k, v) \<in> set dcfg. hp_get A dh' k = Some v"
    by auto
  from values_of_total[of h1] c have cn: "map fst cfg = hp_names A h1" by auto
  let ?ks = "if is_true (attr_or A dh' (u ''override_loaded_hparams'') PNone)
         then map fst dcfg else map u INFERENCE_KEYS"
  have ks: "set ?ks = (if is_true (attr_or A dh' (u ''override_loaded_hparams'') PNone)
            then set (hp_names A dh') else u ` set INFERENCE_KEYS)"
    using arg_cong[OF dn(1), of set] by simp
  have dget: "map_of dcfg k = Some x \<Longrightarrow> hp_get A dh' k = Some x" for k x
    using dn(2) by (auto dest: map_of_SomeD)
  have kept: "hp_get A h2 k = hp_get A h1 k" if "k \<in> set (hp_names A h1)" for k
  proof (rule add_missing_loop(1)[OF h2])
    show "map_of cfg k \<noteq> None" using that cn by (metis map_of_eq_None_iff list.set_map)
  qed
  have missing: "hp_get A h2 k = hp_get A dh' k" if "k \<in> set (hp_names A dh')" "k \<notin> set (hp_names A h1)" for k
  proof -
    have "hp_get A dh' k \<noteq> None" using that(1) by (rule names_get)
    then obtain d where d: "hp_get A dh' k = Some d" by blast
    have "map_of cfg k = None" using that(2) cn by (metis map_of_eq_None_iff list.set_map)
    moreover have "k \<in> fst ` set dcfg" using that dn(1) by (metis list.set_map)
    moreover have "\<forall>(k', v) \<in> set dcfg. k' = k \<longrightarrow> v = d" using dn(2) d by auto
    ultimately show ?thesis using add_missing_loop(2)[OF h2] d by metis
  qed
  have same: "hp_get A h' k = hp_get A dh' k" if "hp_get A h2 k = hp_get A dh' k" "hp_get A dh' k = Some d" for k d
  proof (cases "k \<in> set ?ks")
    case True
    with overwrite_loop[OF h', of k] obtain e where e: "map_of dcfg k = Some e" by auto
    with dget[OF e] that have "hp_get A h2 k = map_of dcfg k" by simp
    from overwrite_same[OF h' this] e dget[OF e] show ?thesis by simp
  next
    case False
    with overwrite_loop[OF h', of k] that show ?thesis by simp
  qed
  have 1: "hp_get A h' k = hp_get A dh' k"
    if "k \<in> set (hp_names A dh')" "k \<notin> set (hp_names A h)"
      "hp_get A h (u ''num_layers'') = None \<or> k \<notin> {u ''num_encoder_layers'', u ''num_decoder_layers''}" for k
  proof -
    have "k \<notin> set (hp_names A h1)" using set_num_layers_added(1)[OF h1] that(2,3) by (auto split: if_splits)
    from missing[OF that(1) this] have "hp_get A h2 k = hp_get A dh' k" .
    moreover have "hp_get A dh' k = Some (the (hp_get A dh' k))" using names_get[OF that(1)] by auto
    ultimately show ?thesis by (rule same)
  qed
  have 4: "hp_get A h' k = Some n" if "k \<in> {u ''num_encoder_layers'', u ''num_decoder_layers''}"
      "hp_get A h (u ''num_layers'') = Some n" "hp_get A h k = None" "k \<notin> set ?ks" for k n
    using set_num_layers_added(2)[OF h1 that(2,1,3)] kept overwrite_loop[OF h', of k] that(4) by simp
  have 2: "\<exists>v w. hp_get A h' k = Some v \<and> hp_get A dh' k = Some w \<and> py_eq v w" if "k \<in> set ?ks" for k
    using overwrite_loop[OF h', of k] that dget by auto
  have 3: "hp_get A h' k = Some v"
    if "k \<in> set (hp_names A h)" "hp_get A h k = Some v" "k \<notin> set ?ks" for k v
  proof -
    have "k \<in> set (hp_names A h1)" using set_num_layers_names[OF h1] that(1) by blast
    then have "map_of cfg k \<noteq> None" using cn by (metis map_of_eq_None_iff list.set_map)
    then have "hp_get A h2 k = hp_get A h1 k" by (rule add_missing_loop(1)[OF h2])
    with overwrite_loop[OF h', of k] that(3) set_num_layers_keeps[OF h1 that(2)] show ?thesis by simp
  qed
  show ?thesis by (rule that[OF dh' 1 4[unfolded ks] 2[unfolded ks] 3[unfolded ks]])
qed

end

section \<open>Properties\<close>

text \<open>
  C24. Restarting a job keeps its best scores: when \<open>extend_hparams\<close> succeeds, every metric has
  a best score afterwards, the one it had before if there was one and 0 otherwise, provided no
  metric is named like the directory attribute of another.
\<close>

theorem extend_hparams_keeps_best:
  assumes "hparams_laws A"
    and "extend_hparams G A h w = Inr (h', w')"
    and "bindE (attr A h (u ''metrics'')) str_list_value = Inr metrics"
    and "\<forall>m \<in> set metrics. \<forall>m' \<in> set metrics. m \<noteq> m' @ u ''_dir''"
    and "m \<in> set metrics"
  shows "hp_get A h' (u ''best_'' @ m)
    = Some (case hp_get A h (u ''best_'' @ m) of None \<Rightarrow> PInt 0 | Some v \<Rightarrow> v)"
  using hparams_laws.extend_best[OF assms(1-3), of m] assms(4,5)
  by (auto split: option.splits)

text \<open>
  The layers that \<open>extend_hparams\<close> accepts: for positive encoder and decoder depths, the
  residual layers it records are fewer than the layers, and not negative unless the encoder is
  the GNMT one with a single layer; a bidirectional encoder has an even depth, and the GNMT
  attention at least two encoder layers.
\<close>

theorem extend_hparams_layers:
  assumes "hparams_laws A"
    and "extend_hparams G A h w = Inr (h', w')"
    and "hp_get A h (u ''num_encoder_layers'') = Some (PInt e)" "0 < e"
    and "hp_get A h (u ''num_decoder_layers'') = Some (PInt d)" "0 < d"
    and "hp_get A h (u ''encoder_type'') = Some t" "hp_get A h (u ''residual'') = Some r"
    and "hp_get A h (u ''attention_architecture'') = Some arch"
  shows "\<exists>re rd. hp_get A h' (u ''num_encoder_residual_layers'') = Some (PInt re) \<and> re < e
    \<and> hp_get A h' (u ''num_decoder_residual_layers'') = Some (PInt rd) \<and> rd < d
    \<and> (0 \<le> re \<and> 0 \<le> rd \<or> t = PStr (u ''gnmt'') \<and> e = 1)
    \<and> (t = PStr (u ''bi'') \<longrightarrow> even e) \<and> (arch = PStr (u ''gnmt'') \<longrightarrow> 2 \<le> e)"
proof -
  have keys: "u ''num_encoder_residual_layers'' \<notin> hparams_laws.later_keys"
    "u ''num_decoder_residual_layers'' \<notin> hparams_laws.later_keys"
    by (simp_all add: hparams_laws.later_keys_def[OF assms(1)])
  have nokeys: "u ''num_encoder_residual_layers'' \<notin> {u ''best_'' @ m, u ''avg_best_'' @ m}"
    "u ''num_decoder_residual_layers'' \<notin> {u ''best_'' @ m, u ''avg_best_'' @ m}" for m
    by (simp_all add: u_def)
  from hparams_laws.extend_layers[OF assms(1,2) keys(1) nokeys(1)] obtain h1 where
    h1: "sanity_checks A h = Inr ()" "set_layers A h = Inr h1"
    "hp_get A h' (u ''num_encoder_residual_layers'') = hp_get A h1 (u ''num_encoder_residual_layers'')" .
  from hparams_laws.extend_layers[OF assms(1,2) keys(2) nokeys(2)] h1(2) have
    h2: "hp_get A h' (u ''num_decoder_residual_layers'') = hp_get A h1 (u ''num_decoder_residual_layers'')"
    by (metis sum.inject(2))
  note res = hparams_laws.set_layers_result[OF assms(1) h1(2) assms(3,5,7,8)]
  have reads: "attr_int A h (u ''num_encoder_layers'') = Inr e" "attr A h (u ''encoder_type'') = Inr t"
    "attr A h (u ''attention_architecture'') = Inr arch"
    using assms(3,7,9) by (simp_all add: attr_int_def attr_def)
  have "(t = PStr (u ''bi'') \<longrightarrow> even e) \<and> (arch = PStr (u ''gnmt'') \<longrightarrow> 2 \<le> e)"
    using h1(1) reads by (auto simp: sanity_checks_def bindE_Inr_iff split: if_splits)
  moreover have "fst (residual_layers (is_true r) (t = PStr (u ''gnmt'')) e d) < e"
    "snd (residual_layers (is_true r) (t = PStr (u ''gnmt'')) e d) < d"
    "0 \<le> fst (residual_layers (is_true r) (t = PStr (u ''gnmt'')) e d)
      \<and> 0 \<le> snd (residual_layers (is_true r) (t = PStr (u ''gnmt'')) e d) \<or> t = PStr (u ''gnmt'') \<and> e = 1"
    using assms(4,6) by (auto simp: residual_layers_def Let_def)
  ultimately show ?thesis using res(1,2) h1(3) h2 by auto
qed

text \<open>
  C25. Loading older hyper-parameters: when \<open>ensure_compatible_hparams\<close> succeeds, the keys it
  overwrites, all default keys if \<open>override_loaded_hparams\<close> is set and the inference keys
  otherwise, agree with the (parsed) defaults; every other loaded hyper-parameter keeps its loaded
  value; and every default that the loaded ones do not have is there with exactly the value of the
  default, except that the numbers of layers come from an older \<open>num_layers\<close> where there is one.
\<close>

theorem ensure_compatible_merges:
  assumes "hparams_laws A"
    and "ensure_compatible_hparams G A w loaded defaults path = Inr h"
  shows "\<exists>dh. maybe_parse_standard_hparams G A w defaults path = Inr dh
    \<and> (let overwritten = (if is_true (attr_or A dh (u ''override_loaded_hparams'') PNone)
             then set (hp_names A dh) else u ` set INFERENCE_KEYS);
           layers = {u ''num_encoder_layers'', u ''num_decoder_layers''}
       in (\<forall>k \<in> overwritten. \<exists>v d. hp_get A h k = Some v \<and> hp_get A dh k = Some d \<and> py_eq v d)
        \<and> (\<forall>k \<in> set (hp_names A loaded) - overwritten. \<forall>v.
             hp_get A loaded k = Some v \<longrightarrow> hp_get A h k = Some v)
        \<and> (\<forall>k \<in> set (hp_names A dh) - set (hp_names A loaded).
             hp_get A loaded (u ''num_layers'') = None \<or> k \<notin> layers \<longrightarrow> hp_get A h k = hp_get A dh k)
        \<and> (\<forall>k \<in> layers - overwritten. \<forall>n.
             hp_get A loaded (u ''num_layers'') = Some n \<and> hp_get A loaded k = None \<longrightarrow> hp_get A h k = Some n))"
proof (rule hparams_laws.ensure_compatible_result[OF assms])
  fix dh
  let ?over = "if is_true (attr_or A dh (u ''override_loaded_hparams'') PNone)
    then set (hp_names A dh) else u ` set INFERENCE_KEYS"
  let ?layers = "{u ''num_encoder_layers'', u ''num_decoder_layers''}"
  assume parts: "maybe_parse_standard_hparams G A w defaults path = Inr dh"
    "\<And>k. k \<in> set (hp_names A dh) \<Longrightarrow> k \<notin> set (hp_names A loaded) \<Longrightarrow>
       hp_get A loaded (u ''num_layers'') = None \<or> k \<notin> ?layers \<Longrightarrow> hp_get A h k = hp_get A dh k"
    "\<And>k n. k \<in> ?layers \<Longrightarrow> hp_get A loaded (u ''num_layers'') = Some n \<Longrightarrow>
       hp_get A loaded k = None \<Longrightarrow> k \<notin> ?over \<Longrightarrow> hp_get A h k = Some n"
    "\<And>k. k \<in> ?over \<Longrightarrow> \<exists>v w. hp_get A h k = Some v \<and> hp_get A dh k = Some w \<and> py_eq v w"
    "\<And>k v. k \<in> set (hp_names A loaded) \<Longrightarrow> hp_get A loaded k = Some v \<Longrightarrow> k \<notin> ?over \<Longrightarrow> hp_get A h k = Some v"
  then show ?thesis unfolding Let_def by (intro exI[of _ dh] conjI ballI allI impI) (elim DiffE conjE; assumption | blast)+
qed

text \<open>A small job: two encoder and two decoder layers, one metric with a best score of 7.\<close>

definition sample_fs :: dict_fs where
  "sample_fs = [u ''i'' \<mapsto> utf8_encode [97, 10, 98, 10, 99], u ''v'' @ u ''.'' @ u ''e'' \<mapsto> utf8_encode [97, 10]]"

definition sample_hp :: dict_hp where
  "sample_hp =
     ([(u ''encoder_type'', PStr (u ''bi'')), (u ''num_encoder_layers'', PInt 2), (u ''num_decoder_layers'', PInt 2),
       (u ''attention_architecture'', PStr (u ''standard'')), (u ''subword_option'', PStr []),
       (u ''infer_mode'', PStr (u ''greedy'')), (u ''residual'', PBool True), (u ''vocab_prefix'', PStr (u ''v'')),
       (u ''src'', PStr (u ''e'')), (u ''tgt'', PStr (u ''d'')), (u ''out_dir'', PStr (u ''o'')),
       (u ''sos'', PStr (u ''<s>'')), (u ''eos'', PStr (u ''</s>'')), (u ''check_special_token'', PBool False),
       (u ''share_vocab'', PBool True), (u ''metrics'', PList [PStr (u ''bleu'')]), (u ''best_bleu'', PFloat 7)],
      [u ''beam_width'' \<mapsto> PInt 0, u ''num_translations_per_input'' \<mapsto> PInt 1, u ''infer_batch_size'' \<mapsto> PInt 32])"

lemma sample_vocab: "read_text dict_gfile sample_fs (u ''v'' @ u ''.'' @ u ''e'') = Inr [97, 10]"
  by (rule dict_read_encoded) (simp_all add: sample_fs_def encodable_def scalar_def)

lemma sample_store_simps:
  "hp_get sample_store = dict_get_attr" "hp_set sample_store = dict_set_attr" "hp_add sample_store = dict_add_hparam"
  by (simp_all add: dict_hparams_def)

lemma sample_makedirs: "gf_makedirs dict_gfile w d = Inr w"
  by (simp add: dict_gfile_def)

lemma dict_get_append:
  "k \<notin> fst ` set r \<Longrightarrow> dict_get_attr (kvs @ r, m) k = dict_get_attr (kvs, m) k"
  by (auto simp: dict_get_attr_def map_of_eq_None_iff[symmetric] split: option.splits)

text \<open>The settings that inference reads come through \<open>extend_hparams\<close> unchanged.\<close>

definition sample_read_keys :: "pystr list" where
  "sample_read_keys = [u ''encoder_type'', u ''attention_architecture'', u ''subword_option'', u ''metrics'', u ''eos'',
     u ''infer_mode'', u ''beam_width'', u ''num_translations_per_input'', u ''infer_batch_size'']"

lemma sample_extended:
  "\<exists>h'. extend_hparams dict_gfile sample_store sample_hp sample_fs = Inr (h', sample_fs)
    \<and> (\<forall>k \<in> set sample_read_keys. hp_get sample_store h' k = hp_get sample_store sample_hp k)"
proof -
  have ex: "gf_exists dict_gfile sample_fs (u ''v'' @ u ''.'' @ u ''e'')"
    by (simp add: dict_gfile_text sample_fs_def)
  define h1 where "h1 = (fst sample_hp @ [(u ''num_encoder_residual_layers'', PInt 1),
    (u ''num_decoder_residual_layers'', PInt 1)], snd sample_hp)"
  have 1: "set_layers sample_store sample_hp = Inr h1"
    by (simp add: set_layers_def record_residual_layers_def add_argument_def sample_store_simps sample_hp_def
        dict_get_attr_def dict_add_hparam_def attr_def attr_int_def residual_layers_def h1_def Let_def)
  have 2: "set_language_model sample_store h1 = Inr h1"
    by (simp add: set_language_model_def attr_or_def sample_store_simps h1_def sample_hp_def dict_get_attr_def)
  have v: "check_vocab_of dict_gfile sample_store h1 sample_fs (u ''v'' @ u ''.'' @ u ''e'')
      = Inr ((1, u ''v'' @ u ''.'' @ u ''e''), sample_fs)"
    using ex by (simp add: check_vocab_of_def attr_str_def attr_def attr_or_def sample_store_simps h1_def sample_hp_def
        dict_get_attr_def check_vocab_def load_vocab_eq sample_vocab is_eol_def Let_def)
  define h2 where "h2 = (fst h1 @ [(u ''src_vocab_size'', PInt 1), (u ''tgt_vocab_size'', PInt 1),
    (u ''src_vocab_file'', PStr (u ''v'' @ u ''.'' @ u ''e'')), (u ''tgt_vocab_file'', PStr (u ''v'' @ u ''.'' @ u ''e''))],
    snd h1)"
  have 3: "set_vocab dict_gfile sample_store h1 sample_fs = Inr (h2, sample_fs)"
    using v by (simp add: set_vocab_def record_vocab_def add_argument_def attr_str_def attr_def sample_store_simps
        h1_def h2_def sample_hp_def dict_get_attr_def dict_add_hparam_def Let_def)
  define h3 where "h3 = (fst h2 @ [(u ''num_enc_emb_partitions'', PInt 0), (u ''num_dec_emb_partitions'', PInt 0),
    (u ''src_embed_file'', PStr []), (u ''tgt_embed_file'', PStr [])], snd h2)"
  have 4: "set_embeddings dict_gfile sample_store h2 sample_fs = Inr h3"
    by (simp add: set_embeddings_def record_partitions_def use_embeddings_def add_argument_def attr_or_def
        sample_store_simps h1_def h2_def h3_def sample_hp_def dict_get_attr_def dict_add_hparam_def Let_def)
  have 5: "\<exists>h'. set_metric dict_gfile sample_store (h3, sample_fs) (u ''bleu'') = Inr (h', sample_fs)"
    by (simp add: set_metric_def record_metric_def sample_makedirs add_argument_def attr_str_def attr_def attr_or_def
        sample_store_simps h1_def h2_def h3_def sample_hp_def dict_get_attr_def dict_add_hparam_def u_append[symmetric] Let_def)
  have 6: "sanity_checks sample_store sample_hp = Inr ()"
    by (simp add: sanity_checks_def attr_def attr_int_def sample_store_simps sample_hp_def dict_get_attr_def)
  have 7: "bindE (attr sample_store h3 (u ''metrics'')) str_list_value = Inr [u ''bleu'']"
    by (simp add: attr_def sample_store_simps h1_def h2_def h3_def sample_hp_def dict_get_attr_def)
  from 5 obtain h' where "set_metric dict_gfile sample_store (h3, sample_fs) (u ''bleu'') = Inr (h', sample_fs)" by blast
  then have metrics: "foldE (set_metric dict_gfile sample_store) (h3, sample_fs) [u ''bleu''] = Inr (h', sample_fs)" by simp
  have "hp_get sample_store h' k = hp_get sample_store h3 k" if "k \<in> set sample_read_keys" for k
    using dict_store.set_metrics_other[OF metrics, of k] that by (auto simp: sample_read_keys_def u_def)
  moreover have "hp_get sample_store h3 k = hp_get sample_store sample_hp k" if "k \<in> set sample_read_keys" for k
    using that by (auto simp: sample_read_keys_def sample_store_simps h1_def h2_def h3_def dict_get_append)
  moreover have "extend_hparams dict_gfile sample_store sample_hp sample_fs = Inr (h', sample_fs)"
    unfolding extend_hparams_def 6 1 2 3 4 7 bindE_simps prod.case by (rule metrics)
  ultimately show ?thesis by (intro exI[of _ h'] conjI ballI) simp_all
qed

lemma sample_run: "isOK (extend_hparams dict_gfile sample_store sample_hp sample_fs)"
  using sample_extended by auto

theorem extend_hparams_keeps_best_witness:
  "\<exists>h' w'. extend_hparams dict_gfile sample_store sample_hp sample_fs = Inr (h', w')
    \<and> hp_get sample_store h' (u ''best_'' @ u ''bleu'')
      = Some (case hp_get sample_store sample_hp (u ''best_'' @ u ''bleu'') of None \<Rightarrow> PInt 0 | Some v \<Rightarrow> v)"
proof -
  from sample_run obtain h' w' where run: "extend_hparams dict_gfile sample_store sample_hp sample_fs = Inr (h', w')"
    by (auto simp: isOK_iff)
  have metrics: "bindE (attr sample_store sample_hp (u ''metrics'')) str_list_value = Inr [u ''bleu'']"
    by (simp add: attr_def sample_store_simps sample_hp_def dict_get_attr_def)
  from extend_hparams_keeps_best[OF dict_store.hparams_laws_axioms run metrics, of "u ''bleu''"] run
  show ?thesis by (auto simp: u_def)
qed

theorem extend_hparams_layers_witness:
  "\<exists>h' w' re rd. extend_hparams dict_gfile sample_store sample_hp sample_fs = Inr (h', w')
    \<and> hp_get sample_store h' (u ''num_encoder_residual_layers'') = Some (PInt re) \<and> re < 2
    \<and> hp_get sample_store h' (u ''num_decoder_residual_layers'') = Some (PInt rd) \<and> rd < 2"
proof -
  from sample_run obtain h' w' where run: "extend_hparams dict_gfile sample_store sample_hp sample_fs = Inr (h', w')"
    by (auto simp: isOK_iff)
  have get: "hp_get sample_store sample_hp (u ''num_encoder_layers'') = Some (PInt 2)"
    "hp_get sample_store sample_hp (u ''num_decoder_layers'') = Some (PInt 2)"
    "hp_get sample_store sample_hp (u ''encoder_type'') = Some (PStr (u ''bi''))"
    "hp_get sample_store sample_hp (u ''residual'') = Some (PBool True)"
    "hp_get sample_store sample_hp (u ''attention_architecture'') = Some (PStr (u ''standard''))"
    by (simp_all add: sample_store_simps sample_hp_def dict_get_attr_def)
  from extend_hparams_layers[OF dict_store.hparams_laws_axioms run get(1) _ get(2) _ get(3-5)] run
  show ?thesis by auto
qed

text \<open>Loaded settings of an older version: \<open>num_layers\<close>, and no \<open>max_train\<close> yet.\<close>

definition sample_defaults :: dict_hp where
  "sample_defaults = ((u ''max_train'', PInt 7) # map (\<lambda>k. (u k, PInt 1)) INFERENCE_KEYS, Map.empty)"

definition sample_loaded :: dict_hp where
  "sample_loaded = ([(u ''beam_width'', PInt 5), (u ''dropout'', PFloat 0.2), (u ''num_layers'', PInt 2)], Map.empty)"

lemma sample_ensure: "isOK (ensure_compatible_hparams dict_gfile sample_store w sample_loaded sample_defaults None)"
  by (simp add: ensure_compatible_hparams_def maybe_parse_standard_hparams_def truthy_def set_num_layers_def
      sample_loaded_def sample_defaults_def INFERENCE_KEYS_def values_of_def attr_def attr_or_def sample_store_simps
      dict_hparams_def dict_get_attr_def dict_add_hparam_def dict_set_attr_def add_missing_def overwrite_key_def
      dict_get_def Let_def)

theorem ensure_compatible_merges_witness:
  "\<exists>h. ensure_compatible_hparams dict_gfile sample_store Map.empty sample_loaded sample_defaults None = Inr h
    \<and> hp_get sample_store h (u ''max_train'') = Some (PInt 7)
    \<and> hp_get sample_store h (u ''dropout'') = Some (PFloat 0.2)
    \<and> hp_get sample_store h (u ''num_encoder_layers'') = Some (PInt 2)
    \<and> (\<exists>v. hp_get sample_store h (u ''beam_width'') = Some v \<and> py_eq v (PInt 1))"
proof -
  from sample_ensure[of Map.empty] obtain h where
    run: "ensure_compatible_hparams dict_gfile sample_store Map.empty sample_loaded sample_defaults None = Inr h"
    by (auto simp: isOK_iff)
  have dh: "maybe_parse_standard_hparams dict_gfile sample_store Map.empty sample_defaults None = Inr sample_defaults"
    by (simp add: maybe_parse_standard_hparams_def truthy_def)
  have over: "\<not> is_true (attr_or sample_store sample_defaults (u ''override_loaded_hparams'') PNone)"
    by (simp add: attr_or_def sample_store_simps dict_get_attr_def sample_defaults_def INFERENCE_KEYS_def)
  have get: "hp_get sample_store sample_loaded (u ''dropout'') = Some (PFloat 0.2)"
    "hp_get sample_store sample_loaded (u ''num_layers'') = Some (PInt 2)"
    "hp_get sample_store sample_loaded (u ''num_encoder_layers'') = None"
    "hp_get sample_store sample_defaults (u ''max_train'') = Some (PInt 7)"
    "hp_get sample_store sample_defaults (u ''beam_width'') = Some (PInt 1)"
    by (simp_all add: sample_store_simps dict_get_attr_def sample_loaded_def sample_defaults_def INFERENCE_KEYS_def)
  have keys: "u ''dropout'' \<in> set (hp_names sample_store sample_loaded) - u ` set INFERENCE_KEYS"
    "u ''num_encoder_layers'' \<in> {u ''num_encoder_layers'', u ''num_decoder_layers''} - u ` set INFERENCE_KEYS"
    "u ''max_train'' \<in> set (hp_names sample_store sample_defaults) - set (hp_names sample_store sample_loaded)"
    "u ''beam_width'' \<in> u ` set INFERENCE_KEYS" "u ''max_train'' \<notin> {u ''num_encoder_layers'', u ''num_decoder_layers''}"
    by (simp_all add: dict_hparams_def sample_loaded_def sample_defaults_def INFERENCE_KEYS_def)
  note merged = ensure_compatible_merges[OF dict_store.hparams_laws_axioms run, unfolded dh sum.inject(2) Let_def ex_simps
      simp_thms, simplified over if_False]
  have "hp_get sample_store h (u ''max_train'') = Some (PInt 7)" using merged keys(3,5) get(4) by simp
  moreover have "hp_get sample_store h (u ''dropout'') = Some (PFloat 0.2)" using merged keys(1) get(1) by simp
  moreover have "hp_get sample_store h (u ''num_encoder_layers'') = Some (PInt 2)" using merged keys(2) get(2,3) by simp
  moreover have "\<exists>v. hp_get sample_store h (u ''beam_width'') = Some v \<and> py_eq v (PInt 1)"
    using merged keys(4) get(5) by fastforce
  ultimately show ?thesis using run by blast
qed

end
