(* ===== verification/Inference.thy ===== *)
theory Inference
  imports NmtUtils Params Checkpoints
begin

text \<open>
  \<open>nmt/inference.py\<close>: reading the input (\<open>load_data\<close>), decoding chosen sentences
  (\<open>_decode_inference_indices\<close>), and the two drivers \<open>single_worker_inference\<close> and
  \<open>multi_worker_inference\<close> below \<open>inference\<close>. The TensorFlow session, the graph and the other
  jobs that share the file system are the record \<open>infer_env\<close>. Job 0 waits for files of the
  other jobs in a loop without a bound, so the drivers are programs that may not end
  (\<open>'a prog\<close>).
\<close>

section \<open>The environment of a worker\<close>

text \<open>
  \<open>ie_init\<close> is \<open>sess.run\<close> of the iterator's initialiser on the data and the batch size,
  \<open>ie_decode\<close> is \<open>model.decode\<close>, \<open>ie_image\<close> the picture of the attention that the same call
  returns, \<open>ie_wait\<close> what happens to the files while a job sleeps ten seconds, \<open>ie_mean\<close> is
  \<open>numpy.mean\<close>, \<open>ie_new\<close> builds the inference graph of a model class and opens a session on it.
\<close>

record ('h, 's, 'w) infer_env =
  ie_new :: "model_class \<Rightarrow> 'h \<Rightarrow> 's res"
  ie_init :: "'s \<Rightarrow> pystr list \<Rightarrow> int \<Rightarrow> 's res"
  ie_decode :: "'s \<Rightarrow> 's decoded"
  ie_image :: "'s \<Rightarrow> bytes option res"
  ie_wait :: "'w \<Rightarrow> 'w"
  ie_mean :: "real list \<Rightarrow> real"

section \<open>Loading the input\<close>

text \<open>\<open>hparams.inference_indices\<close>; the empty list stands for every value that is not true.\<close>

fun index_list :: "py_value \<Rightarrow> int list res" where
  "index_list (PList vs) = mapE int_value vs"
| "index_list v = (if is_true v then Inl TypeError else Inr [])"

definition inference_indices :: "'h hparams_api \<Rightarrow> 'h \<Rightarrow> int list res" where
  "inference_indices A h = bindE (attr A h (u ''inference_indices'')) index_list"

definition load_data :: "'w gfile \<Rightarrow> 'w \<Rightarrow> pystr \<Rightarrow> int list \<Rightarrow> pystr list res" where
  "load_data G w inference_input_file indices =
     bindE (read_text G w inference_input_file) (\<lambda>s.
     let inference_data = splitlines s
     in if indices \<noteq> [] then mapE (list_get inference_data) indices else Inr inference_data)"

section \<open>Decoding chosen sentences\<close>

text \<open>\<open>"%s" % b\<close> for a \<open>bytes\<close> value: Python 3 prints its literal.\<close>

definition hex_digit :: "nat \<Rightarrow> nat" where
  "hex_digit n = (if n < 10 then 48 + n else 87 + n)"

definition repr_char :: "nat \<Rightarrow> nat \<Rightarrow> pystr" where
  "repr_char quote c =
     (if c = quote \<or> c = 92 then [92, c]
      else if c = 9 then u [CHR 0x5C, CHR ''t'']
      else if c = 10 then u [CHR 0x5C, CHR ''n'']
      else if c = 13 then u [CHR 0x5C, CHR ''r'']
      else if c < 32 \<or> 127 \<le> c then [92, 120, hex_digit (c div 16), hex_digit (c mod 16)]
      else [c])"

definition bytes_repr :: "bytes \<Rightarrow> pystr" where
  "bytes_repr b =
     (let cs = map of_char b; quote = (if 39 \<in> set cs \<and> 34 \<notin> set cs then 34 else 39 :: nat)
      in [98, quote] @ concat (map (repr_char quote) cs) @ [quote])"

text \<open>
  The assertion \<open>nmt_outputs.shape[0] == 1\<close> and the row that \<open>get_translation\<close> then takes; in
  beam search the row is a matrix, which no formatter accepts.
\<close>

definition only_row :: "nmt_outputs \<Rightarrow> bytes list list res" where
  "only_row outputs =
     (case outputs of
        Rows r \<Rightarrow> bindE (assertE (length r = 1)) (\<lambda>_. Inr r)
      | Beams b \<Rightarrow> bindE (assertE (length b = 1)) (\<lambda>_. if b = [[]] then Inr [[]] else Inl TypeError))"

definition decode_index ::
    "'w gfile \<Rightarrow> ('h, 's, 'w) infer_env \<Rightarrow> pystr \<Rightarrow> pystr option \<Rightarrow> pystr option
     \<Rightarrow> pystr \<times> 'w \<times> 's \<Rightarrow> int \<Rightarrow> (pystr \<times> 'w \<times> 's) res" where
  "decode_index G E output_infer_summary_prefix tgt_eos subword_option st decode_id =
     (let (trans_f, w, sess) = st
      in case ie_decode E sess of
           OutOfRange _ \<Rightarrow> Inl OutOfRangeError
         | Batch nmt_outputs sess' \<Rightarrow>
             bindE (only_row nmt_outputs) (\<lambda>rows.
             bindE (get_translation rows 0 tgt_eos subword_option) (\<lambda>translation.
             bindE (ie_image E sess) (\<lambda>infer_summary.
             bindE (case infer_summary of None \<Rightarrow> Inr w
                    | Some encoded_image \<Rightarrow> gf_write G w
                        (output_infer_summary_prefix @ int_str decode_id @ u ''.png'') encoded_image) (\<lambda>w.
             bindE (utf8_decode (translation @ [char_of (10 :: nat)])) (\<lambda>_.
             Inr (trans_f @ bytes_repr translation @ [10], w, sess')))))))"

definition decode_inference_indices ::
    "'w gfile \<Rightarrow> ('h, 's, 'w) infer_env \<Rightarrow> 'w \<Rightarrow> 's \<Rightarrow> pystr \<Rightarrow> pystr \<Rightarrow> int list \<Rightarrow> pystr option
     \<Rightarrow> pystr option \<Rightarrow> ('w \<times> 's) res" where
  "decode_inference_indices G E w sess output_infer output_infer_summary_prefix indices tgt_eos
       subword_option =
     bindE (foldE (decode_index G E output_infer_summary_prefix tgt_eos subword_option)
              ([], w, sess) indices) (\<lambda>(trans_f, w, sess).
     bindE (write_text G w output_infer trans_f) (\<lambda>w. Inr (w, sess)))"

section \<open>One worker\<close>

definition opt_attr :: "'h hparams_api \<Rightarrow> 'h \<Rightarrow> string \<Rightarrow> pystr option res" where
  "opt_attr A h key = bindE (attr A h (u key)) opt_str_value"

text \<open>Reading the data and starting the iterator on a part of it.\<close>

definition start_data ::
    "'w gfile \<Rightarrow> 'h hparams_api \<Rightarrow> ('h, 's, 'w) infer_env \<Rightarrow> 'h \<Rightarrow> 'w \<Rightarrow> 's \<Rightarrow> pystr
     \<Rightarrow> (pystr list \<Rightarrow> pystr list) \<Rightarrow> 's res" where
  "start_data G A E h w sess inference_input_file part =
     bindE (inference_indices A h) (\<lambda>indices.
     bindE (load_data G w inference_input_file indices) (\<lambda>infer_data.
     bindE (attr_int A h (u ''infer_batch_size'')) (\<lambda>infer_batch_size.
     ie_init E sess (part infer_data) infer_batch_size)))"

text \<open>The call of \<open>decode_and_evaluate\<close> that both drivers make.\<close>

definition decode_with_hparams ::
    "'w gfile \<Rightarrow> 'h hparams_api \<Rightarrow> ('h, 's, 'w) infer_env \<Rightarrow> 'h \<Rightarrow> 'w \<Rightarrow> 's \<Rightarrow> pystr
     \<Rightarrow> ('w \<times> 's) prog" where
  "decode_with_hparams G A E h w sess output_infer =
     bindP (Some (bindE (attr A h (u ''metrics'')) str_list_value)) (\<lambda>metrics.
     bindP (Some (opt_attr A h ''subword_option'')) (\<lambda>subword_option.
     bindP (Some (attr_int A h (u ''beam_width''))) (\<lambda>beam_width.
     bindP (Some (opt_attr A h ''eos'')) (\<lambda>eos.
     bindP (Some (attr_int A h (u ''num_translations_per_input''))) (\<lambda>num_translations_per_input.
     bindP (Some (attr_str A h (u ''infer_mode''))) (\<lambda>infer_mode.
     bindP (decode_and_evaluate G (ie_mean E) (ie_decode E) w sess output_infer None metrics
              subword_option beam_width eos num_translations_per_input True infer_mode)
       (\<lambda>(scores, w, sess). Some (Inr (w, sess)))))))))"

definition single_worker_inference ::
    "'w gfile \<Rightarrow> 'h hparams_api \<Rightarrow> ('h, 's, 'w) infer_env \<Rightarrow> 'h \<Rightarrow> 'w \<Rightarrow> 's \<Rightarrow> pystr \<Rightarrow> pystr
     \<Rightarrow> ('w \<times> 's) prog" where
  "single_worker_inference G A E h w sess inference_input_file inference_output_file =
     bindP (Some (start_data G A E h w sess inference_input_file (\<lambda>infer_data. infer_data))) (\<lambda>sess.
     bindP (Some (inference_indices A h)) (\<lambda>indices.
     if indices \<noteq> []
     then bindP (Some (opt_attr A h ''eos'')) (\<lambda>eos.
          bindP (Some (opt_attr A h ''subword_option'')) (\<lambda>subword_option.
          Some (decode_inference_indices G E w sess inference_output_file inference_output_file
                  indices eos subword_option)))
     else decode_with_hparams G A E h w sess inference_output_file))"

section \<open>Several workers\<close>

definition worker_share :: "int \<Rightarrow> int \<Rightarrow> 'a list \<Rightarrow> 'a list" where
  "worker_share num_workers jobid infer_data =
     (let total_load = int (length infer_data);
          load_per_worker = int_of_div (total_load - 1) num_workers + 1;
          start_position = jobid * load_per_worker;
          end_position = min (start_position + load_per_worker) total_load
      in py_slice infer_data start_position end_position)"

definition worker_file :: "pystr \<Rightarrow> int \<Rightarrow> pystr" where
  "worker_file inference_output_file jobid = inference_output_file @ u ''_'' @ int_str jobid"

definition worker_done_file :: "pystr \<Rightarrow> int \<Rightarrow> pystr" where
  "worker_done_file inference_output_file jobid = inference_output_file @ u ''_done_'' @ int_str jobid"

partial_function (option) wait_for :: "'w gfile \<Rightarrow> ('w \<Rightarrow> 'w) \<Rightarrow> 'w \<Rightarrow> pystr \<Rightarrow> 'w prog" where
  "wait_for G wait w worker_infer_done =
     (if gf_exists G w worker_infer_done then Some (Inr w) else wait_for G wait (wait w) worker_infer_done)"

definition collect_output ::
    "'w gfile \<Rightarrow> ('w \<Rightarrow> 'w) \<Rightarrow> pystr \<Rightarrow> 'w \<times> pystr \<Rightarrow> int \<Rightarrow> ('w \<times> pystr) prog" where
  "collect_output G wait inference_output_file st worker_id =
     (let (w, final_f) = st; worker_infer_done = worker_done_file inference_output_file worker_id
      in bindP (wait_for G wait w worker_infer_done) (\<lambda>w.
         bindP (Some (read_lines G w worker_infer_done)) (\<lambda>f.
         Some (Inr (w, foldl (\<lambda>final_f translation. final_f @ translation) final_f f)))))"

text \<open>
  The clean-up of job 0. The writer opens the final file at its first write, so without a line
  of output the file is not created.
\<close>

definition merge_outputs ::
    "'w gfile \<Rightarrow> ('w \<Rightarrow> 'w) \<Rightarrow> 'w \<Rightarrow> pystr \<Rightarrow> int \<Rightarrow> 'w prog" where
  "merge_outputs G wait w inference_output_file num_workers =
     bindP (foldP (collect_output G wait inference_output_file) (w, []) [0..num_workers - 1]) (\<lambda>(w, final_f).
     bindP (Some (foldE (\<lambda>w worker_id. gf_remove G w (worker_done_file inference_output_file worker_id))
                    w [0..num_workers - 1])) (\<lambda>w.
     Some (if final_f = [] then Inr w else write_text G w inference_output_file final_f)))"

definition multi_worker_inference ::
    "'w gfile \<Rightarrow> 'h hparams_api \<Rightarrow> ('h, 's, 'w) infer_env \<Rightarrow> 'h \<Rightarrow> 'w \<Rightarrow> 's \<Rightarrow> pystr \<Rightarrow> pystr
     \<Rightarrow> int \<Rightarrow> int \<Rightarrow> ('w \<times> 's) prog" where
  "multi_worker_inference G A E h w sess inference_input_file inference_output_file num_workers jobid =
     bindP (Some (assertE (num_workers > 1))) (\<lambda>_.
     bindP (Some (start_data G A E h w sess inference_input_file (worker_share num_workers jobid))) (\<lambda>sess.
     bindP (decode_with_hparams G A E h w sess (worker_file inference_output_file jobid)) (\<lambda>(w, sess).
     bindP (Some (gf_rename G w (worker_file inference_output_file jobid)
                    (worker_done_file inference_output_file jobid))) (\<lambda>w.
     if jobid \<noteq> 0 then Some (Inr (w, sess))
     else bindP (merge_outputs G (ie_wait E) w inference_output_file num_workers) (\<lambda>w.
          Some (Inr (w, sess)))))))"

definition start_sess_and_load_model ::
    "('w, 's) model_ops \<Rightarrow> ('h, 's, 'w) infer_env \<Rightarrow> 'h \<Rightarrow> 'w \<Rightarrow> model_class \<Rightarrow> pystr \<Rightarrow> 's res" where
  "start_sess_and_load_model M E h w model_creator ckpt_path =
     bindE (ie_new E model_creator h) (load_model M w ckpt_path)"

definition inference ::
    "'w gfile \<Rightarrow> 'h hparams_api \<Rightarrow> ('w, 's) model_ops \<Rightarrow> ('h, 's, 'w) infer_env \<Rightarrow> 'w \<Rightarrow> pystr
     \<Rightarrow> pystr \<Rightarrow> pystr \<Rightarrow> 'h \<Rightarrow> int \<Rightarrow> int \<Rightarrow> ('w \<times> 's) prog" where
  "inference G A M E w ckpt_path inference_input_file inference_output_file h num_workers jobid =
     bindP (Some (inference_indices A h)) (\<lambda>indices.
     bindP (Some (if indices \<noteq> [] then assertE (num_workers = 1) else Inr ())) (\<lambda>_.
     bindP (Some (infer_model_creator A h)) (\<lambda>model_creator.
     bindP (Some (start_sess_and_load_model M E h w model_creator ckpt_path)) (\<lambda>sess.
     if num_workers = 1
     then single_worker_inference G A E h w sess inference_input_file inference_output_file
     else multi_worker_inference G A E h w sess inference_input_file inference_output_file
            num_workers jobid))))"

section \<open>The shares of the workers\<close>

lemma chunks_concat: "concat (map (\<lambda>j. take p (drop (j * p) xs)) [0..<m]) = take (m * p) xs"
proof (induction m)
  case (Suc m)
  have "take (Suc m * p) xs = take (m * p) xs @ take p (drop (m * p) xs)"
    using take_add[of "m * p" p xs] by (simp add: add.commute)
  with Suc show ?case by (simp del: take_Suc_Cons)
qed simp

definition share_size :: "int \<Rightarrow> 'a list \<Rightarrow> nat" where
  "share_size n xs = nat (int_of_div (int (length xs) - 1) n + 1)"

lemma share_size_bound:
  assumes "0 < n" shows "length xs \<le> nat n * share_size n xs"
proof (cases "xs = []")
  case False
  let ?a = "int (length xs) - 1"
  have "0 \<le> ?a" using False by (cases xs) auto
  then have q: "share_size n xs = nat (?a div n + 1)" using assms by (simp add: share_size_def)
  have "?a < n * (?a div n + 1)"
  proof -
    have "?a = n * (?a div n) + ?a mod n" by simp
    moreover have "?a mod n < n" using assms by simp
    ultimately show ?thesis by (simp only: distrib_left)
  qed
  then have "int (length xs) \<le> n * (?a div n + 1)" by simp
  also have "\<dots> = int (nat n * nat (?a div n + 1))"
    using assms \<open>0 \<le> ?a\<close> by (simp add: pos_imp_zdiv_nonneg_iff)
  finally show ?thesis by (simp only: q of_nat_le_iff)
qed simp

lemma int_of_div_ge: "0 < n \<Longrightarrow> 0 \<le> int_of_div (int (length xs) - 1) n + 1"
  by (cases "xs = []") (auto simp: int_of_div_def pos_imp_zdiv_nonneg_iff Suc_le_eq sgn_if
      intro: order_trans[of _ "0 :: int"] zdiv_mono2[of 1 1 n, simplified])

lemma worker_share_eq:
  assumes "0 < n"
  shows "worker_share n (int j) xs = take (share_size n xs) (drop (j * share_size n xs) xs)"
proof -
  let ?p = "share_size n xs"
  have p: "int_of_div (int (length xs) - 1) n + 1 = int ?p"
    using int_of_div_ge[OF assms] by (simp add: share_size_def)
  have s: "worker_share n (int j) xs = py_slice xs (int (j * ?p)) (min (int (j * ?p + ?p)) (int (length xs)))"
    unfolding worker_share_def Let_def p by simp
  have bounds: "slice_bound xs (int (j * ?p)) = min (length xs) (j * ?p)"
    "slice_bound xs (min (int (j * ?p + ?p)) (int (length xs))) = min (length xs) (j * ?p + ?p)"
    by (simp_all add: slice_bound_def min_def nat_add_distrib nat_mult_distrib del: of_nat_mult of_nat_add)
  show ?thesis
  proof (cases "j * ?p \<le> length xs")
    case True
    then have "take (min (length xs) (j * ?p + ?p) - j * ?p) (drop (j * ?p) xs) = take ?p (drop (j * ?p) xs)"
      by (simp add: min_def)
    with True show ?thesis unfolding s py_slice_def bounds by (simp add: min_absorb2)
  next
    case False
    then show ?thesis unfolding s py_slice_def bounds by simp
  qed
qed

lemma upto_nat: "0 < n \<Longrightarrow> [0..n - 1] = map int [0..<nat n]"
  by (rule nth_equalityI) auto

lemma worker_shares_concat: "0 < n \<Longrightarrow> concat (map (\<lambda>j. worker_share n j xs) [0..n - 1]) = xs"
  using chunks_concat[of "share_size n xs" xs "nat n"] share_size_bound[of n xs]
  by (simp add: upto_nat o_def worker_share_eq)

section \<open>Waiting for the other workers\<close>

lemma wait_for_exists:
  "gf_exists G ((wait ^^ k) w) p \<Longrightarrow>
   \<exists>j \<le> k. wait_for G wait w p = Some (Inr ((wait ^^ j) w)) \<and> gf_exists G ((wait ^^ j) w) p"
proof (induction k arbitrary: w)
  case 0
  then show ?case by (intro exI[of _ 0]) (simp add: wait_for.simps)
next
  case (Suc k)
  show ?case
  proof (cases "gf_exists G w p")
    case True
    then show ?thesis by (intro exI[of _ 0]) (simp add: wait_for.simps)
  next
    case False
    have "gf_exists G ((wait ^^ k) (wait w)) p" using Suc.prems by (simp add: funpow_swap1)
    from Suc.IH[OF this] obtain j where "j \<le> k"
      "wait_for G wait (wait w) p = Some (Inr ((wait ^^ j) (wait w)))" "gf_exists G ((wait ^^ j) (wait w)) p"
      by blast
    with False show ?thesis
      by (intro exI[of _ "Suc j"]) (simp add: funpow_swap1 wait_for.simps[of G wait w])
  qed
qed

lemma wait_for_only:
  assumes "wait_for G wait w p = Some r"
  shows "\<exists>k. gf_exists G ((wait ^^ k) w) p"
  using assms
proof (induction rule: wait_for.raw_induct[rotated 1, consumes 1, case_names step])
  case (step wf G wait w p y)
  show ?case
  proof (cases "gf_exists G w p")
    case True
    then show ?thesis by (intro exI[of _ 0]) simp
  next
    case False
    with step(2) have "wf G wait (wait w) p = Some y" by simp
    from step(1)[OF this] obtain k where "gf_exists G ((wait ^^ k) (wait w)) p" ..
    then show ?thesis by (intro exI[of _ "Suc k"]) (simp add: funpow_swap1)
  qed
qed

text \<open>
  The jobs that share the file system, as job 0 sees them: whatever it finds under the name of
  a finished output stays there and is that worker's output, and every other worker finishes.
\<close>

definition done_right :: "'w gfile \<Rightarrow> pystr \<Rightarrow> int \<Rightarrow> (int \<Rightarrow> pystr) \<Rightarrow> 'w \<Rightarrow> bool" where
  "done_right G out n txt w \<longleftrightarrow>
     (\<forall>i \<in> {0..<n}. gf_exists G w (worker_done_file out i) \<longrightarrow>
        read_text G w (worker_done_file out i) = Inr (txt i))"

definition others_deliver ::
    "'w gfile \<Rightarrow> ('w \<Rightarrow> 'w) \<Rightarrow> pystr \<Rightarrow> int \<Rightarrow> (int \<Rightarrow> pystr) \<Rightarrow> bool" where
  "others_deliver G wait out n txt \<longleftrightarrow>
     (\<forall>w. done_right G out n txt w \<longrightarrow> done_right G out n txt (wait w)) \<and>
     (\<forall>w. \<forall>i \<in> {0..<n}. gf_exists G w (worker_done_file out i) \<longrightarrow>
        gf_exists G (wait w) (worker_done_file out i)) \<and>
     (\<forall>w. \<forall>i \<in> {1..<n}. \<exists>k. gf_exists G ((wait ^^ k) w) (worker_done_file out i))"

lemma others_deliver_funpow:
  assumes "others_deliver G wait out n txt"
  shows "done_right G out n txt w \<Longrightarrow> done_right G out n txt ((wait ^^ k) w)"
    and "i \<in> {0..<n} \<Longrightarrow> gf_exists G w (worker_done_file out i) \<Longrightarrow>
         gf_exists G ((wait ^^ k) w) (worker_done_file out i)"
  using assms by (induction k) (auto simp: others_deliver_def)

lemma collect_output_right:
  assumes "others_deliver G wait out n txt" "done_right G out n txt w" "i \<in> {0..<n}"
    and "i = 0 \<Longrightarrow> gf_exists G w (worker_done_file out 0)"
  shows "\<exists>w'. collect_output G wait out (w, acc) i = Some (Inr (w', acc @ txt i))
    \<and> done_right G out n txt w' \<and> gf_exists G w' (worker_done_file out i)
    \<and> (\<forall>j \<in> {0..<n}. gf_exists G w (worker_done_file out j) \<longrightarrow> gf_exists G w' (worker_done_file out j))"
proof -
  have "\<exists>k. gf_exists G ((wait ^^ k) w) (worker_done_file out i)"
  proof (cases "i = 0")
    case True
    with assms(4) show ?thesis by (intro exI[of _ 0]) simp
  next
    case False
    with assms(1,3) show ?thesis by (simp add: others_deliver_def)
  qed
  then obtain m where "gf_exists G ((wait ^^ m) w) (worker_done_file out i)" ..
  from wait_for_exists[OF this] obtain k where
    k: "wait_for G wait w (worker_done_file out i) = Some (Inr ((wait ^^ k) w))"
    "gf_exists G ((wait ^^ k) w) (worker_done_file out i)" by (elim exE conjE)
  let ?w = "(wait ^^ k) w"
  note right = others_deliver_funpow(1)[OF assms(1,2), of k]
  then have "read_text G ?w (worker_done_file out i) = Inr (txt i)"
    using k(2) assms(3) by (simp add: done_right_def)
  moreover have "foldl (@) acc ls = acc @ concat ls" for ls :: "pystr list"
    by (induction ls arbitrary: acc) simp_all
  ultimately have "collect_output G wait out (w, acc) i = Some (Inr (?w, acc @ txt i))"
    using k(1) by (simp add: collect_output_def read_lines_def)
  with right k(2) others_deliver_funpow(2)[OF assms(1)] show ?thesis by blast
qed

lemma collect_outputs_right:
  assumes "others_deliver G wait out n txt" "done_right G out n txt w"
    and "gf_exists G w (worker_done_file out 0)" and "0 < n" and "set is \<subseteq> {0..<n}"
  shows "\<exists>w'. foldP (collect_output G wait out) (w, acc) is = Some (Inr (w', acc @ concat (map txt is)))
    \<and> done_right G out n txt w'
    \<and> (\<forall>j \<in> {0..<n}. j \<in> set is \<or> gf_exists G w (worker_done_file out j) \<longrightarrow>
         gf_exists G w' (worker_done_file out j))"
  using assms(2,3,5)
proof (induction "is" arbitrary: w acc)
  case Nil
  then show ?case by simp
next
  case (Cons i "is")
  then have i: "i \<in> {0..<n}" and sub: "set is \<subseteq> {0..<n}" by auto
  from collect_output_right[OF assms(1) Cons.prems(1) i Cons.prems(2), of acc] obtain w1 where w1:
    "collect_output G wait out (w, acc) i = Some (Inr (w1, acc @ txt i))" "done_right G out n txt w1"
    "gf_exists G w1 (worker_done_file out i)"
    "\<forall>j \<in> {0..<n}. gf_exists G w (worker_done_file out j) \<longrightarrow> gf_exists G w1 (worker_done_file out j)"
    by (elim exE conjE)
  have "gf_exists G w1 (worker_done_file out 0)" using w1(4) Cons.prems(2) \<open>0 < n\<close> by simp
  from Cons.IH[OF w1(2) this sub, of "acc @ txt i"] obtain w' where w':
    "foldP (collect_output G wait out) (w1, acc @ txt i) is = Some (Inr (w', (acc @ txt i) @ concat (map txt is)))"
    "done_right G out n txt w'"
    "\<forall>j \<in> {0..<n}. j \<in> set is \<or> gf_exists G w1 (worker_done_file out j) \<longrightarrow>
       gf_exists G w' (worker_done_file out j)"
    by (elim exE conjE)
  from w' w1 show ?case by (intro exI[of _ w']) auto
qed

section \<open>Runs of the drivers\<close>

text \<open>The lines a worker writes for a part of the data, each input giving the texts \<open>tr x\<close>.\<close>

definition output_text :: "('x \<Rightarrow> pystr list) \<Rightarrow> 'x list \<Rightarrow> pystr" where
  "output_text tr xs = concat (map (\<lambda>l. l @ [10]) (concat (map tr xs)))"

lemma output_text_concat: "output_text tr (concat xss) = concat (map (output_text tr) xss)"
  by (induction xss) (simp_all add: output_text_def)

text \<open>The settings a plain run of the inference reads.\<close>

record run_settings =
  rs_metrics :: "pystr list"
  rs_subword :: "pystr option"
  rs_beam_width :: int
  rs_eos :: "pystr option"
  rs_translations :: int
  rs_mode :: pystr
  rs_batch_size :: int

definition reads_settings :: "'h hparams_api \<Rightarrow> 'h \<Rightarrow> run_settings \<Rightarrow> bool" where
  "reads_settings A h S \<longleftrightarrow>
     bindE (attr A h (u ''metrics'')) str_list_value = Inr (rs_metrics S) \<and>
     opt_attr A h ''subword_option'' = Inr (rs_subword S) \<and>
     attr_int A h (u ''beam_width'') = Inr (rs_beam_width S) \<and>
     opt_attr A h ''eos'' = Inr (rs_eos S) \<and>
     attr_int A h (u ''num_translations_per_input'') = Inr (rs_translations S) \<and>
     attr_str A h (u ''infer_mode'') = Inr (rs_mode S) \<and>
     attr_int A h (u ''infer_batch_size'') = Inr (rs_batch_size S) \<and>
     inference_indices A h = Inr []"

text \<open>
  A model that translates line by line: started on any lines of the data, in whatever session,
  the iterator and the decoder go through them in batches and end, and the texts of the
  translations are those of the lines, in order.
\<close>

definition line_translator ::
    "('h, 's, 'w) infer_env \<Rightarrow> run_settings \<Rightarrow> (pystr \<Rightarrow> pystr list) \<Rightarrow> pystr list \<Rightarrow> bool" where
  "line_translator E S tr data \<longleftrightarrow>
     (\<forall>ys sess. set ys \<subseteq> set data \<longrightarrow>
        (\<exists>s1 bs s2 texts. ie_init E sess ys (rs_batch_size S) = Inr s1 \<and> yields (ie_decode E) s1 bs s2 \<and>
           list_all2 (translates (rs_mode S)
             (translations_per_input (rs_mode S) (rs_translations S) (rs_beam_width S))
             (rs_eos S) (rs_subword S)) bs texts \<and>
           concat texts = concat (map tr ys)))"

lemma start_and_decode:
  assumes "gfile_total G" "reads_settings A h S" "line_translator E S tr data"
    and "read_text G w input = Inr s" "data = splitlines s" "set (part data) \<subseteq> set data"
  shows "\<exists>s1 w' s2. start_data G A E h w sess input part = Inr s1
    \<and> decode_with_hparams G A E h w s1 out = Some (Inr (w', s2))
    \<and> write_text G w out (output_text tr (part data)) = Inr w'"
proof -
  from assms(3,6) obtain s1 bs s2 texts where run:
    "ie_init E sess (part data) (rs_batch_size S) = Inr s1" "yields (ie_decode E) s1 bs s2"
    "list_all2 (translates (rs_mode S)
       (translations_per_input (rs_mode S) (rs_translations S) (rs_beam_width S))
       (rs_eos S) (rs_subword S)) bs texts"
    "concat texts = concat (map tr (part data))"
    unfolding line_translator_def by blast
  have start: "start_data G A E h w sess input part = Inr s1"
    using assms(2,4,5) run(1) by (simp add: start_data_def reads_settings_def load_data_def)
  from decode_file_run[OF run(2,3) gfile_total.write_text_total[OF assms(1)], of w out]
  obtain w' where w': "decode_file G (ie_decode E) w s1 out (rs_subword S) (rs_beam_width S) (rs_eos S)
      (rs_translations S) (rs_mode S) = Some (Inr (sum_list (map (batch_count (rs_mode S)) bs), w', s2))"
    "write_text G w out (output_text tr (part data)) = Inr w'"
    by (auto simp: output_text_def run(4))
  have "decode_with_hparams G A E h w s1 out = Some (Inr (w', s2))"
    using assms(2) w'(1)
    by (simp add: decode_with_hparams_def reads_settings_def decode_and_evaluate_def evaluate_file_def truthy_def)
  with start w'(2) show ?thesis by blast
qed

lemma single_worker_run:
  assumes "gfile_total G" "reads_settings A h S" "line_translator E S tr data"
    and "read_text G w input = Inr s" "data = splitlines s"
  shows "\<exists>w' s'. single_worker_inference G A E h w sess input out = Some (Inr (w', s'))
    \<and> read_text G w' out = Inr (output_text tr data)"
proof -
  have laws: "gfile_laws G" using assms(1) by (rule gfile_total.axioms)
  from start_and_decode[OF assms, of "\<lambda>d. d" sess out] obtain s1 w' s2 where
    "start_data G A E h w sess input (\<lambda>d. d) = Inr s1"
    "decode_with_hparams G A E h w s1 out = Some (Inr (w', s2))"
    "write_text G w out (output_text tr data) = Inr w'" by auto
  then show ?thesis
    using assms(2) gfile_laws.text_written[OF laws]
    by (auto simp: single_worker_inference_def reads_settings_def)
qed

lemma worker_files_differ [simp]:
  "worker_file out i \<noteq> worker_done_file out j" "worker_done_file out j \<noteq> worker_file out i"
  "worker_done_file out i \<noteq> out" "out \<noteq> worker_done_file out i"
  "worker_done_file out i = worker_done_file out j \<longleftrightarrow> i = j"
proof -
  have "hd (nat_str n) \<noteq> 100" for n
    using nat_str_digits[OF hd_in_set[OF nat_str_nonempty], of n] by auto
  then have no: "int_str i \<noteq> 100 # cs" for cs by (auto simp: int_str_def dest: arg_cong[where f = hd])
  have "u ''_done_'' = [95, 100, 111, 110, 101, 95]" "u ''_'' = [95]" by (simp_all add: u_def)
  with no no[symmetric] show "worker_file out i \<noteq> worker_done_file out j" "worker_done_file out j \<noteq> worker_file out i"
    by (auto simp: worker_file_def worker_done_file_def)
qed (simp_all add: worker_done_file_def)

lemma worker_share_subset: "set (worker_share n j xs) \<subseteq> set xs"
  by (auto simp: worker_share_def py_slice_def Let_def dest!: in_set_takeD in_set_dropD)

text \<open>What a worker has done when its output is renamed.\<close>

lemma worker_run:
  assumes "gfile_total G" "reads_settings A h S" "line_translator E S tr data"
    and "read_text G w input = Inr s" "data = splitlines s" "1 < n"
  shows "\<exists>w' s'. multi_worker_inference G A E h w sess input out n j
      = (if j \<noteq> 0 then Some (Inr (w', s'))
         else bindP (merge_outputs G (ie_wait E) w' out n) (\<lambda>w. Some (Inr (w, s'))))
    \<and> read_text G w' (worker_done_file out j) = Inr (output_text tr (worker_share n j data))
    \<and> (\<forall>i. i \<noteq> j \<longrightarrow> gf_exists G w' (worker_done_file out i) = gf_exists G w (worker_done_file out i))"
proof -
  have laws: "gfile_laws G" using assms(1) by (rule gfile_total.axioms)
  from start_and_decode[where part = "worker_share n j", OF assms(1-5) worker_share_subset, of sess "worker_file out j"]
  obtain s1 w1 s2 where run: "start_data G A E h w sess input (worker_share n j) = Inr s1"
    "decode_with_hparams G A E h w s1 (worker_file out j) = Some (Inr (w1, s2))"
    "write_text G w (worker_file out j) (output_text tr (worker_share n j data)) = Inr w1" by (elim exE conjE)
  from gfile_laws.written_exists[OF laws run(3)] gfile_total.rename_total[OF assms(1)]
  obtain w' where w': "gf_rename G w1 (worker_file out j) (worker_done_file out j) = Inr w'" by blast
  have "read_text G w' (worker_done_file out j) = Inr (output_text tr (worker_share n j data))"
    using gfile_laws.text_written[OF laws run(3)] gfile_laws.read_renamed[OF laws w'] by (simp add: read_text_def)
  moreover have "gf_exists G w' (worker_done_file out i) = gf_exists G w (worker_done_file out i)" if "i \<noteq> j" for i
    using gfile_laws.exists_not_renamed[OF laws w', of "worker_done_file out i"]
      gfile_laws.exists_write_other[OF laws run(3), of "worker_done_file out i"] that by simp
  ultimately show ?thesis using assms(6) run(1,2) w' by (intro exI[of _ w'] exI[of _ s2])
      (simp add: multi_worker_inference_def)
qed

lemma remove_outputs:
  assumes "gfile_total G" "distinct is" "\<forall>i \<in> set is. gf_exists G w (worker_done_file out i)"
  shows "\<exists>w'. foldE (\<lambda>w i. gf_remove G w (worker_done_file out i)) w is = Inr w'
    \<and> (\<forall>i \<in> set is. \<not> gf_exists G w' (worker_done_file out i))
    \<and> (\<forall>i. i \<notin> set is \<longrightarrow> gf_exists G w' (worker_done_file out i) = gf_exists G w (worker_done_file out i))"
  using assms(2,3)
proof (induction "is" arbitrary: w)
  case (Cons i "is")
  have laws: "gfile_laws G" using assms(1) by (rule gfile_total.axioms)
  from Cons.prems gfile_total.remove_total[OF assms(1)] obtain w1 where
    w1: "gf_remove G w (worker_done_file out i) = Inr w1" by (meson list.set_intros(1))
  have other: "gf_exists G w1 (worker_done_file out j) = gf_exists G w (worker_done_file out j)" if "j \<noteq> i" for j
    using gfile_laws.exists_not_removed[OF laws w1] that by simp
  have "\<forall>j \<in> set is. gf_exists G w1 (worker_done_file out j)"
    using Cons.prems other by (metis distinct.simps(2) list.set_intros(2))
  with Cons.IH[of w1] Cons.prems(1) obtain w' where w':
    "foldE (\<lambda>w i. gf_remove G w (worker_done_file out i)) w1 is = Inr w'"
    "\<forall>i \<in> set is. \<not> gf_exists G w' (worker_done_file out i)"
    "\<forall>i. i \<notin> set is \<longrightarrow> gf_exists G w' (worker_done_file out i) = gf_exists G w1 (worker_done_file out i)"
    by auto
  with w1 other gfile_laws.not_exists_removed[OF laws w1] Cons.prems(1)
  show ?case by (intro exI[of _ w']) auto
qed simp

lemma merge_outputs_run:
  assumes "gfile_total G" "others_deliver G wait out n txt" "done_right G out n txt w"
    and "gf_exists G w (worker_done_file out 0)" "0 < n"
    and "concat (map txt [0..n - 1]) = t" "t \<noteq> []" "encodable t"
  shows "\<exists>w'. merge_outputs G wait w out n = Some (Inr w') \<and> read_text G w' out = Inr t
    \<and> (\<forall>i \<in> {0..<n}. \<not> gf_exists G w' (worker_done_file out i))"
proof -
  have laws: "gfile_laws G" using assms(1) by (rule gfile_total.axioms)
  have ids: "set [0..n - 1] = {0..<n}" by auto
  from collect_outputs_right[OF assms(2-5), of "[0..n - 1]" "[]"] ids obtain w1 where w1:
    "foldP (collect_output G wait out) (w, []) [0..n - 1] = Some (Inr (w1, t))"
    "\<forall>j \<in> {0..<n}. gf_exists G w1 (worker_done_file out j)" by (auto simp: assms(6))
  with remove_outputs[OF assms(1), of "[0..n - 1]" w1 out] ids obtain w2 where w2:
    "foldE (\<lambda>w i. gf_remove G w (worker_done_file out i)) w1 [0..n - 1] = Inr w2"
    "\<forall>i \<in> {0..<n}. \<not> gf_exists G w2 (worker_done_file out i)" by auto
  from gfile_total.write_text_total[OF assms(1,8)] obtain w3 where w3: "write_text G w2 out t = Inr w3" by blast
  have "\<not> gf_exists G w3 (worker_done_file out i)" if "i \<in> {0..<n}" for i
    using w2(2) that gfile_laws.exists_write_other[OF laws w3, of "worker_done_file out i"] by simp
  with w1 w2 w3 assms(7) gfile_laws.text_written[OF laws w3] show ?thesis
    by (intro exI[of _ w3]) (simp add: merge_outputs_def)
qed

section \<open>Chosen sentences\<close>

fun row_run :: "('h, 's, 'w) infer_env \<Rightarrow> 's \<Rightarrow> bytes list list \<Rightarrow> 's \<Rightarrow> bool" where
  "row_run E s [] s' \<longleftrightarrow> s' = s"
| "row_run E s (r # rs) s' \<longleftrightarrow>
     (\<exists>t. ie_decode E s = Batch (Rows [r]) t \<and> ie_image E s = Inr None \<and> row_run E t rs s')"

lemma length_enc1: "1 \<le> length (enc1 c)"
  by (simp add: enc1_def)

lemma length_utf8_encode: "length s \<le> length (utf8_encode s)"
proof (induction s)
  case (Cons c s)
  then show ?case using length_enc1[of c] by (simp add: utf8_encode_def)
qed simp

lemma bytes_repr_longer: "length b < length (bytes_repr b)"
proof -
  have "length cs \<le> length (concat (map (repr_char q) cs))" for q cs
  proof (induction cs)
    case (Cons c cs)
    have "1 \<le> length (repr_char q c)" by (simp add: repr_char_def u_def)
    with Cons show ?case by simp
  qed simp
  from this[of "map of_char b"] show ?thesis
    by (simp add: bytes_repr_def Let_def less_Suc_eq_le le_SucI)
qed

lemma bytes_repr_not_text: "bytes_repr (utf8_encode t) \<noteq> t"
  using bytes_repr_longer[of "utf8_encode t"] length_utf8_encode[of t] by auto

lemma decode_index_row:
  assumes "ie_decode E s = Batch (Rows [r]) s'" "ie_image E s = Inr None"
    and "get_translation [r] 0 eos opt = Inr (utf8_encode t)" "encodable t"
  shows "decode_index G E png eos opt (acc, w, s) i
    = Inr (acc @ bytes_repr (utf8_encode t) @ [10], w, s')"
proof -
  have "utf8_encode t @ [char_of (10 :: nat)] = utf8_encode (t @ [10])"
    by (simp add: utf8_encode_snoc enc1_def)
  moreover have "encodable (t @ [10])" using assms(4) by (simp add: encodable_def scalar_def)
  ultimately have "utf8_decode (utf8_encode t @ [char_of (10 :: nat)]) = Inr (t @ [10])"
    by (simp only: utf8.decode_encode)
  with assms show ?thesis by (simp add: decode_index_def only_row_def)
qed

lemma decode_index_loop:
  assumes "row_run E s rows s'" "length is = length rows"
    and "list_all2 (\<lambda>r t. get_translation [r] 0 eos opt = Inr (utf8_encode t) \<and> encodable t) rows ts"
  shows "foldE (decode_index G E png eos opt) (acc, w, s) is
    = Inr (acc @ concat (map (\<lambda>t. bytes_repr (utf8_encode t) @ [10]) ts), w, s')"
  using assms
proof (induction rows arbitrary: s acc "is" ts)
  case (Cons r rows)
  from Cons.prems obtain i is' t ts' s1 where d: "is = i # is'" "ts = t # ts'" "length is' = length rows"
    "ie_decode E s = Batch (Rows [r]) s1" "ie_image E s = Inr None" "row_run E s1 rows s'"
    "get_translation [r] 0 eos opt = Inr (utf8_encode t)" "encodable t"
    "list_all2 (\<lambda>r t. get_translation [r] 0 eos opt = Inr (utf8_encode t) \<and> encodable t) rows ts'"
    by (auto simp: length_Suc_conv list_all2_Cons1)
  show ?case using decode_index_row[OF d(4,5,7,8), of G png acc w i] Cons.IH[OF d(6,3,9)] d(1,2) by simp
qed simp

lemma repr_char_encodable: "c < 256 \<Longrightarrow> q < 128 \<Longrightarrow> d \<in> set (repr_char q c) \<Longrightarrow> scalar d"
proof -
  assume c: "c < 256" and q: "q < 128" and d: "d \<in> set (repr_char q c)"
  have "hex_digit n < 128" if "n < 16" for n using that by (simp add: hex_digit_def)
  from this[of "c div 16"] this[of "c mod 16"] c have "hex_digit (c div 16) < 128" "hex_digit (c mod 16) < 128"
    by auto
  moreover have "set (u [CHR 0x5C, CHR ''t'']) = {92, 116}" "set (u [CHR 0x5C, CHR ''n'']) = {92, 110}"
    "set (u [CHR 0x5C, CHR ''r'']) = {92, 114}" by (simp_all add: u_def)
  ultimately show "scalar d" using c q d by (auto simp: repr_char_def scalar_def split: if_splits)
qed

lemma bytes_repr_encodable: "encodable (bytes_repr b)"
proof -
  define q :: nat where "q = (if 39 \<in> set (map of_char b :: nat list) \<and> 34 \<notin> set (map of_char b :: nat list)
    then 34 else 39)"
  have "scalar d" if "x \<in> set b" "d \<in> set (repr_char q (of_char x))" for x d
    by (rule repr_char_encodable[OF _ _ that(2)]) (auto simp: q_def)
  moreover have "scalar 98" "scalar q" by (auto simp: scalar_def q_def)
  moreover have "bytes_repr b = [98, q] @ concat (map (repr_char q) (map of_char b)) @ [q]"
    by (simp add: bytes_repr_def q_def Let_def)
  ultimately show ?thesis by (auto simp: encodable_def)
qed

section \<open>Properties\<close>

text \<open>
  The shares of the workers are a partition of the data: for a positive number of workers,
  the shares of the jobs 0 to n - 1 put after one another are the data, and no share is longer
  than the data divided by the number of workers, rounded up.
\<close>

theorem worker_shares_partition:
  assumes "0 < n"
  shows "concat (map (\<lambda>j. worker_share n j xs) [0..n - 1]) = xs
    \<and> (\<forall>j \<in> {0..<n}. int (length (worker_share n j xs)) \<le> (int (length xs) - 1) div n + 1)"
proof
  show "concat (map (\<lambda>j. worker_share n j xs) [0..n - 1]) = xs" by (rule worker_shares_concat[OF assms])
  show "\<forall>j \<in> {0..<n}. int (length (worker_share n j xs)) \<le> (int (length xs) - 1) div n + 1"
  proof
    fix j assume j: "j \<in> {0..<n}"
    show "int (length (worker_share n j xs)) \<le> (int (length xs) - 1) div n + 1"
    proof (cases "xs = []")
      case True
      then have "worker_share n j xs = []" using set_empty worker_share_subset by (metis subset_empty set_empty)
      moreover have "(- n) div n \<le> (- 1) div n" by (rule zdiv_mono1) (use assms in auto)
      moreover have "(- n) div n = - 1" using assms by (simp add: zdiv_zminus1_eq_if)
      ultimately show ?thesis using True assms by simp
    next
      case False
      then have "0 \<le> int (length xs) - 1" by (cases xs) auto
      then have "int (share_size n xs) = (int (length xs) - 1) div n + 1"
        using assms by (simp add: share_size_def pos_imp_zdiv_nonneg_iff)
      with worker_share_eq[OF assms, of "nat j" xs] j show ?thesis by simp
    qed
  qed
qed

text \<open>
  Job 0 waits for a worker exactly as long as its output is missing: the loop returns if
  and only if the file exists after some number of rests, and then the files are those after
  the first such rest. A worker that has died keeps job 0 waiting for ever.
\<close>

theorem wait_for_returns_iff:
  "(\<exists>w'. wait_for G wait w p = Some (Inr w')) = (\<exists>k. gf_exists G ((wait ^^ k) w) p)
    \<and> (wait_for G wait w p = None) = (\<forall>k. \<not> gf_exists G ((wait ^^ k) w) p)
    \<and> {w'. wait_for G wait w p = Some (Inr w') \<and> \<not> gf_exists G w' p} = {}"
proof (cases "\<exists>k. gf_exists G ((wait ^^ k) w) p")
  case True
  then obtain k where "gf_exists G ((wait ^^ k) w) p" ..
  from wait_for_exists[OF this] True show ?thesis by auto
next
  case False
  then have "wait_for G wait w p = None" using wait_for_only[of G wait w p] by (cases "wait_for G wait w p") auto
  with False show ?thesis by auto
qed

text \<open>
  C3. Several workers refine one: with a model that translates line by line, and other jobs
  that deliver their shares, every job leaves the translations of its share under its finished
  name, and job 0 ends with the same output file that a single worker writes, namely the lines
  of the translations in the order of the input, and with no piece left over.
\<close>

theorem workers_refine_single:
  assumes "gfile_total G" "reads_settings A h S" "line_translator E S tr data"
    and "read_text G w input = Inr s" "data = splitlines s" "output_text tr data \<noteq> []" "1 < n"
    and "\<forall>i \<in> {0..<n}. \<not> gf_exists G w (worker_done_file out i)"
    and "others_deliver G (ie_wait E) out n (\<lambda>j. output_text tr (worker_share n j data))"
    and "encodable (output_text tr data)"
  shows "\<exists>w1 s1 w2 s2. single_worker_inference G A E h w sess input out = Some (Inr (w1, s1))
    \<and> multi_worker_inference G A E h w sess input out n 0 = Some (Inr (w2, s2))
    \<and> read_text G w1 out = Inr (output_text tr data)
    \<and> read_text G w2 out = read_text G w1 out
    \<and> (\<forall>i \<in> {0..<n}. \<not> gf_exists G w2 (worker_done_file out i))
    \<and> (\<forall>j \<in> {1..<n}. \<exists>w' s'. multi_worker_inference G A E h w sess input out n j = Some (Inr (w', s'))
         \<and> read_text G w' (worker_done_file out j) = Inr (output_text tr (worker_share n j data)))"
proof -
  have laws: "gfile_laws G" using assms(1) by (rule gfile_total.axioms)
  let ?txt = "\<lambda>j. output_text tr (worker_share n j data)"
  from single_worker_run[OF assms(1-5)] obtain w1 s1 where single:
    "single_worker_inference G A E h w sess input out = Some (Inr (w1, s1))"
    "read_text G w1 out = Inr (output_text tr data)" by blast
  note run = worker_run[OF assms(1-5,7), of sess out]
  from run[of 0] obtain w' s' where w':
    "multi_worker_inference G A E h w sess input out n 0
      = bindP (merge_outputs G (ie_wait E) w' out n) (\<lambda>w. Some (Inr (w, s')))"
    "read_text G w' (worker_done_file out 0) = Inr (?txt 0)"
    "\<forall>i. i \<noteq> 0 \<longrightarrow> gf_exists G w' (worker_done_file out i) = gf_exists G w (worker_done_file out i)" by auto
  have "done_right G out n ?txt w'"
    unfolding done_right_def
  proof (intro ballI impI)
    fix i assume "i \<in> {0..<n}" "gf_exists G w' (worker_done_file out i)"
    with w'(2,3) assms(8) show "read_text G w' (worker_done_file out i) = Inr (?txt i)" by (cases "i = 0") auto
  qed
  moreover have "concat (map ?txt [0..n - 1]) = output_text tr data"
    using output_text_concat[of tr "map (\<lambda>j. worker_share n j data) [0..n - 1]"] worker_shares_concat[of n data] assms(7)
    by (simp add: o_def)
  moreover have "gf_exists G w' (worker_done_file out 0)" by (rule gfile_laws.text_exists[OF laws w'(2)])
  ultimately obtain w2 where "merge_outputs G (ie_wait E) w' out n = Some (Inr w2)"
    "read_text G w2 out = Inr (output_text tr data)" "\<forall>i \<in> {0..<n}. \<not> gf_exists G w2 (worker_done_file out i)"
    using merge_outputs_run[OF assms(1,9), of w' "output_text tr data"] assms(6,7,10) by auto
  with w'(1) have "multi_worker_inference G A E h w sess input out n 0 = Some (Inr (w2, s'))"
    "read_text G w2 out = read_text G w1 out" "\<forall>i \<in> {0..<n}. \<not> gf_exists G w2 (worker_done_file out i)"
    by (simp_all add: single(2))
  moreover have "\<forall>j \<in> {1..<n}. \<exists>w' s'. multi_worker_inference G A E h w sess input out n j = Some (Inr (w', s'))
      \<and> read_text G w' (worker_done_file out j) = Inr (?txt j)"
  proof
    fix j assume "j \<in> {1..<n}"
    then have "j \<noteq> 0" by auto
    from run[of j] this show "\<exists>w' s'. multi_worker_inference G A E h w sess input out n j = Some (Inr (w', s'))
      \<and> read_text G w' (worker_done_file out j) = Inr (?txt j)"
      by (simp only: if_True not_False_eq_True) blast
  qed
  ultimately show ?thesis using single by blast
qed

text \<open>
  Decoding chosen sentences does not write the translations themselves: when every batch has
  one row and every translation is valid text, the run returns and its file holds, line by line,
  the Python literals of the encoded translations, none of which is the translation.
\<close>

theorem decode_inference_indices_literals:
  assumes "gfile_total G" and "row_run E s rows s'" "length indices = length rows"
    and "list_all2 (\<lambda>r t. get_translation [r] 0 eos opt = Inr (utf8_encode t) \<and> encodable t) rows ts"
  shows "\<exists>w'. decode_inference_indices G E w s out png indices eos opt = Inr (w', s')
    \<and> read_text G w' out = Inr (concat (map (\<lambda>t. bytes_repr (utf8_encode t) @ [10]) ts))
    \<and> (\<forall>t \<in> set ts. bytes_repr (utf8_encode t) \<noteq> t)"
proof -
  have laws: "gfile_laws G" using assms(1) by (rule gfile_total.axioms)
  let ?text = "concat (map (\<lambda>t. bytes_repr (utf8_encode t) @ [10]) ts)"
  have "encodable ?text"
    using bytes_repr_encodable by (auto simp: encodable_def scalar_def[of 10])
  with gfile_total.write_text_total[OF assms(1)] obtain w' where w': "write_text G w out ?text = Inr w'" by blast
  with decode_index_loop[OF assms(2-4), of G png "[]" w] gfile_laws.text_written[OF laws w']
  show ?thesis by (simp add: decode_inference_indices_def bytes_repr_not_text)
qed

text \<open>
  Decoding chosen sentences needs batches of one sentence: if the first batch holds another
  number of rows (as it does with the default batch size and two indices), or in beam search
  another number of beams, an AssertionError ends the run before anything is written, and if the
  data end before the indices do, an OutOfRangeError does.
\<close>

theorem decode_inference_indices_errors:
  assumes "indices \<noteq> []"
    and "ie_decode E s = Batch (Rows r) t \<and> length r \<noteq> 1 \<or> ie_decode E s = Batch (Beams b) t \<and> length b \<noteq> 1
      \<or> ie_decode E s = OutOfRange t"
  shows "decode_inference_indices G E w s out png indices eos opt
    = Inl (if ie_decode E s = OutOfRange t then OutOfRangeError else AssertionError)"
  using assms by (cases indices)
    (auto simp: decode_inference_indices_def decode_index_def only_row_def assertE_def)

section \<open>A sample run\<close>

theorem worker_shares_partition_witness:
  "concat (map (\<lambda>j. worker_share 3 j [10, 20, 30, 40, 50, 60, 70 :: nat]) [0..3 - 1])
      = [10, 20, 30, 40, 50, 60, 70]
    \<and> int (length (worker_share 3 2 [10, 20, 30, 40, 50, 60, 70 :: nat]))
      \<le> (int (length [10, 20, 30, 40, 50, 60, 70 :: nat]) - 1) div 3 + 1"
proof -
  have "(0 :: int) < 3" "(2 :: int) \<in> {0..<3}" by simp_all
  with worker_shares_partition[of 3 "[10, 20, 30, 40, 50, 60, 70 :: nat]"] show ?thesis by blast
qed

definition sample_data :: "pystr list" where
  "sample_data = [[97], [98], [99]]"

definition sample_texts :: "pystr \<Rightarrow> pystr list" where
  "sample_texts x = [x]"

definition sample_wait :: "dict_fs \<Rightarrow> dict_fs" where
  "sample_wait w = w(worker_done_file [111] 1 \<mapsto> utf8_encode (output_text sample_texts (worker_share 2 1 sample_data)))"

definition sample_env :: "(dict_hp, pystr list, dict_fs) infer_env" where
  "sample_env =
     \<lparr>ie_new = (\<lambda>_ _. Inr []), ie_init = (\<lambda>_ data _. Inr data),
      ie_decode = (\<lambda>s. case s of [] \<Rightarrow> OutOfRange [] | x # xs \<Rightarrow> Batch (Rows [[utf8_encode x]]) xs),
      ie_image = (\<lambda>_. Inr None), ie_wait = sample_wait, ie_mean = (\<lambda>_. 0)\<rparr>"

definition sample_infer_hp :: dict_hp where
  "sample_infer_hp = ([(u ''metrics'', PList []), (u ''subword_option'', PNone), (u ''beam_width'', PInt 0),
     (u ''eos'', PNone), (u ''num_translations_per_input'', PInt 1), (u ''infer_mode'', PStr (u ''greedy'')),
     (u ''infer_batch_size'', PInt 32), (u ''inference_indices'', PNone)], Map.empty)"

definition sample_settings :: run_settings where
  "sample_settings = \<lparr>rs_metrics = [], rs_subword = None, rs_beam_width = 0, rs_eos = None,
     rs_translations = 1, rs_mode = u ''greedy'', rs_batch_size = 32\<rparr>"

abbreviation sample_api :: "dict_hp hparams_api" where
  "sample_api \<equiv> dict_hparams (\<lambda>_. Inl ValueError) (\<lambda>_. [])"

lemma sample_reads_settings: "reads_settings sample_api sample_infer_hp sample_settings"
  by (simp add: reads_settings_def sample_settings_def sample_infer_hp_def attr_def attr_int_def attr_str_def
      opt_attr_def inference_indices_def dict_hparams_def dict_get_attr_def)

lemma sample_char: "x \<in> set sample_data \<Longrightarrow> encodable x \<and> (\<forall>c \<in> set x. \<not> is_eol c)"
  by (auto simp: sample_data_def encodable_def scalar_def is_eol_def)

lemma sample_yields_lines:
  "yields (ie_decode sample_env) ys (map (\<lambda>x. Rows [[utf8_encode x]]) ys) []"
  by (induction ys) (simp_all add: sample_env_def)

lemma sample_translates_line:
  assumes "x \<in> set sample_data" "eos \<in> {None, Some (u ''</s>'')}" "subword \<in> {None, Some []}"
  shows "translates (u ''greedy'') 1 eos subword (Rows [[utf8_encode x]]) (sample_texts x)"
proof -
  have "u ''bpe'' \<noteq> []" "u ''spm'' \<noteq> []" by (simp_all add: u_def)
  moreover have "utf8_encode (u ''</s>'') \<noteq> utf8_encode x"
    using assms(1) by (auto simp: sample_data_def u_def utf8_encode_def enc1_def)
  ultimately show ?thesis
    unfolding translates_def using assms(2,3) sample_char[OF assms(1)]
    by (intro exI[of _ "[[[utf8_encode x]]]"] exI[of _ "\<lambda>_ _. x"])
      (auto simp: with_beams_def batch_size_of_def batch_lines_def sample_texts_def
        get_translation_def list_get_def truthy_def format_text_def cut_at_eos_def)
qed

lemma sample_translator:
  assumes "rs_mode S = u ''greedy''" "rs_eos S \<in> {None, Some (u ''</s>'')}" "rs_subword S \<in> {None, Some []}"
  shows "line_translator sample_env S sample_texts sample_data"
  unfolding line_translator_def
proof (intro allI impI)
  fix ys sess assume ys: "set ys \<subseteq> set sample_data"
  have "list_all2 (translates (u ''greedy'') 1 (rs_eos S) (rs_subword S)) (map (\<lambda>x. Rows [[utf8_encode x]]) ys) (map sample_texts ys)"
    using ys sample_translates_line[OF _ assms(2,3)] by (auto simp: list_all2_map1 list_all2_map2 list.rel_refl_strong subset_iff)
  moreover have "ie_init sample_env sess ys (rs_batch_size S) = Inr ys" by (simp add: sample_env_def)
  moreover have "concat (map sample_texts ys) = concat (map sample_texts ys)" by (rule refl)
  ultimately show "\<exists>s1 bs s2 texts. ie_init sample_env sess ys (rs_batch_size S) = Inr s1
      \<and> yields (ie_decode sample_env) s1 bs s2
      \<and> list_all2 (translates (rs_mode S)
          (translations_per_input (rs_mode S) (rs_translations S) (rs_beam_width S))
          (rs_eos S) (rs_subword S)) bs texts
      \<and> concat texts = concat (map sample_texts ys)"
    using sample_yields_lines[of ys]
    by (intro exI[of _ ys] exI[of _ "map (\<lambda>x. Rows [[utf8_encode x]]) ys"] exI[of _ "[]"] exI[of _ "map sample_texts ys"])
      (simp add: assms(1) translations_per_input_def)
qed

lemma sample_output_text: "set ys \<subseteq> set sample_data \<Longrightarrow> encodable (output_text sample_texts ys)"
  using sample_char by (fastforce simp: output_text_def sample_texts_def encodable_def scalar_def[of 10])

lemma sample_deliver:
  "others_deliver dict_gfile sample_wait [111] 2 (\<lambda>j. output_text sample_texts (worker_share 2 j sample_data))"
proof -
  have new: "read_text dict_gfile (sample_wait w) (worker_done_file [111] 1)
      = Inr (output_text sample_texts (worker_share 2 1 sample_data))" for w
    by (rule dict_read_encoded) (simp_all add: sample_wait_def sample_output_text worker_share_subset)
  have old: "read_text dict_gfile (sample_wait w) (worker_done_file [111] 0) = read_text dict_gfile w (worker_done_file [111] 0)"
    "gf_exists dict_gfile (sample_wait w) (worker_done_file [111] 0) = gf_exists dict_gfile w (worker_done_file [111] 0)" for w
    by (simp_all add: sample_wait_def dict_gfile_text)
  have ex: "gf_exists dict_gfile (sample_wait w) (worker_done_file [111] 1)" for w
    by (simp add: sample_wait_def dict_gfile_text)
  have two: "{0..<2 :: int} = {0, 1}" "{1..<2 :: int} = {1}" by auto
  show ?thesis
    unfolding others_deliver_def done_right_def two
    using new old ex by (auto intro!: exI[of _ 1])
qed

definition sample_infer_fs :: dict_fs where
  "sample_infer_fs = [[105] \<mapsto> utf8_encode [97, 10, 98, 10, 99]]"

theorem workers_refine_single_witness:
  "\<exists>w1 s1 w2 s2.
     single_worker_inference dict_gfile sample_api sample_env sample_infer_hp sample_infer_fs [] [105] [111]
       = Some (Inr (w1, s1))
    \<and> multi_worker_inference dict_gfile sample_api sample_env sample_infer_hp sample_infer_fs [] [105] [111] 2 0
       = Some (Inr (w2, s2))
    \<and> read_text dict_gfile w1 [111] = Inr (output_text sample_texts sample_data)
    \<and> read_text dict_gfile w2 [111] = read_text dict_gfile w1 [111]"
proof -
  have input: "read_text dict_gfile sample_infer_fs [105] = Inr [97, 10, 98, 10, 99]"
    by (rule dict_read_encoded) (simp_all add: sample_infer_fs_def encodable_def scalar_def)
  have data: "sample_data = splitlines [97, 10, 98, 10, 99]"
    by (simp add: sample_data_def splitlines_def chomp_def is_eol_def)
  have nonempty: "output_text sample_texts sample_data \<noteq> []"
    by (simp add: output_text_def sample_texts_def sample_data_def)
  have fresh: "\<forall>i \<in> {0..<2}. \<not> gf_exists dict_gfile sample_infer_fs (worker_done_file [111] i)"
    by (simp add: sample_infer_fs_def dict_gfile_text worker_done_file_def)
  have deliver: "others_deliver dict_gfile (ie_wait sample_env) [111] 2
      (\<lambda>j. output_text sample_texts (worker_share 2 j sample_data))"
    by (simp add: sample_env_def sample_deliver)
  have translator: "line_translator sample_env sample_settings sample_texts sample_data"
    by (rule sample_translator) (simp_all add: sample_settings_def)
  from workers_refine_single[OF dict_files.gfile_total_axioms sample_reads_settings translator input data
      nonempty _ fresh deliver sample_output_text[OF subset_refl], of "[]"]
  show ?thesis by auto
qed

definition sample_row_env :: "(dict_hp, nat, dict_fs) infer_env" where
  "sample_row_env =
     \<lparr>ie_new = (\<lambda>_ _. Inr 0), ie_init = (\<lambda>s _ _. Inr s),
      ie_decode = (\<lambda>s. if s = 0 then Batch (Rows [[''ab'']]) 1 else Batch (Rows [[''a''], [''b'']]) 2),
      ie_image = (\<lambda>_. Inr None), ie_wait = (\<lambda>w. w), ie_mean = (\<lambda>_. 0)\<rparr>"

theorem decode_inference_indices_literals_witness:
  "\<exists>w'. decode_inference_indices dict_gfile sample_row_env Map.empty 0 [111] [111] [5] None None = Inr (w', 1)
    \<and> read_text dict_gfile w' [111] = Inr (concat (map (\<lambda>t. bytes_repr (utf8_encode t) @ [10]) [u ''ab'']))"
proof -
  have run: "row_run sample_row_env 0 [[''ab'']] 1" by (simp add: sample_row_env_def)
  have enc: "utf8_encode (u ''ab'') = ''ab''" by code_simp
  have "encodable (u ''ab'')" by (simp add: u_def encodable_def scalar_def)
  then have texts: "list_all2 (\<lambda>r t. get_translation [r] 0 None None = Inr (utf8_encode t) \<and> encodable t) [[''ab'']] [u ''ab'']"
    by (simp add: enc get_translation_def list_get_def truthy_def format_text_def)
  from decode_inference_indices_literals[OF dict_files.gfile_total_axioms run _ texts, of "[5]" Map.empty "[111]" "[111]"]
  show ?thesis by auto
qed

theorem decode_inference_indices_errors_witness:
  "decode_inference_indices dict_gfile sample_row_env Map.empty 1 [111] [111] [0, 1] None None = Inl AssertionError"
  using decode_inference_indices_errors[of "[0, 1]" sample_row_env 1 "[[''a''], [''b'']]" 2]
  by (simp add: sample_row_env_def)

end
