(* ===== verification/TrainEval.thy ===== *)
theory TrainEval
  imports Inference HParams
begin

text \<open>
  The evaluation runs of \<open>nmt/train.py\<close>: decoding a sample sentence, the internal evaluation
  (perplexity), the external evaluation (scores of the metrics, with the checkpoints of the best
  scores), the averaged checkpoint, and the result lines. They are state transformers on a record
  of what training holds: the hyper-parameters, the three sessions, the files and the events
  of the summary writer. Sessions, savers, summaries and the random choice belong to
  TensorFlow and Python and are the record \<open>train_env\<close>. What is only printed is left out,
  except where printing can raise.
\<close>

section \<open>The state of training\<close>

datatype summary_event = Scalar pystr py_float | Serialized bytes

record train_output =
  to_summary :: bytes
  to_loss :: py_float
  to_predict_count :: nat
  to_global_step :: int
  to_word_count :: nat
  to_batch_size :: nat
  to_grad_norm :: py_float
  to_learning_rate :: real

text \<open>A training step: the output and the time it took, or the end of the data.\<close>

datatype 's trained = Trained train_output real 's | TrainEnd 's

record ('h, 's, 'w, 'a, 'd) train_env =
  te_files :: "'w gfile"
  te_hparams :: "'h hparams_api"
  te_models :: "('w, 's) model_ops"
  te_arrays :: "'a array_ops"
  te_ckpts :: "('w, 'a, 'd) ckpt_ops"
  te_new :: "pystr \<Rightarrow> model_class \<Rightarrow> 'h \<Rightarrow> 's res"
  te_start_train :: "'s \<Rightarrow> int \<Rightarrow> 's res"
  te_start_eval :: "'s \<Rightarrow> pystr \<Rightarrow> pystr \<Rightarrow> 's res"
  te_start_infer :: "'s \<Rightarrow> pystr list \<Rightarrow> int \<Rightarrow> 's res"
  te_train :: "'s \<Rightarrow> 's trained"
  te_eval :: "'s \<Rightarrow> 's evaluated"
  te_decode :: "'s \<Rightarrow> 's decoded"
  te_attention :: "'s \<Rightarrow> bytes option"
  te_learning_rate :: "'s \<Rightarrow> real res"
  te_save :: "'w \<Rightarrow> 's \<Rightarrow> pystr \<Rightarrow> int \<Rightarrow> 'w res"
  te_step_name :: pystr
  te_randint :: "'s \<Rightarrow> int \<Rightarrow> int"
  te_mean :: "real list \<Rightarrow> real"

record ('h, 's, 'w) train_state =
  ts_hparams :: 'h
  ts_train :: 's
  ts_eval :: 's
  ts_infer :: 's
  ts_files :: 'w
  ts_writer :: pystr
  ts_events :: "(pystr \<times> int \<times> summary_event) list"

text \<open>\<open>summary_writer.add_summary\<close> and \<open>add_summary\<close> of \<open>misc_utils\<close>.\<close>

definition write_event :: "int \<Rightarrow> summary_event \<Rightarrow> ('h, 's, 'w) train_state \<Rightarrow> ('h, 's, 'w) train_state" where
  "write_event global_step e st = st\<lparr>ts_events := ts_events st @ [(ts_writer st, global_step, e)]\<rparr>"

definition add_summary ::
    "int \<Rightarrow> pystr \<Rightarrow> py_float \<Rightarrow> ('h, 's, 'w) train_state \<Rightarrow> ('h, 's, 'w) train_state" where
  "add_summary global_step tag v = write_event global_step (Scalar tag v)"

text \<open>\<open>"%s"\<close> of a setting; the settings used in file names are never floats or lists.\<close>

fun format_value :: "py_value \<Rightarrow> pystr res" where
  "format_value (PStr s) = Inr s"
| "format_value PNone = Inr (u ''None'')"
| "format_value (PInt n) = Inr (int_str n)"
| "format_value (PBool b) = Inr (if b then u ''True'' else u ''False'')"
| "format_value _ = Inl TypeError"

definition data_file :: "'h hparams_api \<Rightarrow> 'h \<Rightarrow> string \<Rightarrow> string \<Rightarrow> pystr res" where
  "data_file A h file_prefix side =
     bindE (bindE (attr A h (u file_prefix)) format_value) (\<lambda>p.
     bindE (bindE (attr A h (u side)) format_value) (\<lambda>s.
     Inr (p @ u ''.'' @ s)))"

section \<open>Sample decoding\<close>

definition decode_sample ::
    "('h, 's, 'w, 'a, 'd) train_env \<Rightarrow> ('h, 's, 'w) train_state \<Rightarrow> int \<Rightarrow> pystr list \<Rightarrow> pystr list
     \<Rightarrow> ('h, 's, 'w) train_state res" where
  "decode_sample E st global_step src_data tgt_data =
     (let A = te_hparams E; h = ts_hparams st
      in bindE (if src_data = [] then Inl ValueError
                else Inr (te_randint E (ts_infer st) (int (length src_data) - 1))) (\<lambda>decode_id.
         bindE (list_get src_data decode_id) (\<lambda>src.
         bindE (te_start_infer E (ts_infer st) [src] 1) (\<lambda>sess.
         case te_decode E sess of
           OutOfRange _ \<Rightarrow> Inl OutOfRangeError
         | Batch outputs sess' \<Rightarrow>
             bindE (attr_str A h (u ''infer_mode'')) (\<lambda>infer_mode.
             bindE (with_beams infer_mode outputs) (\<lambda>beams.
             bindE (list_get beams 0) (\<lambda>nmt_outputs.
             bindE (opt_attr A h ''eos'') (\<lambda>eos.
             bindE (opt_attr A h ''subword_option'') (\<lambda>subword_option.
             bindE (get_translation nmt_outputs 0 eos subword_option) (\<lambda>translation.
             bindE (list_get tgt_data decode_id) (\<lambda>_.
             bindE (utf8_decode translation) (\<lambda>_.
             let st = st\<lparr>ts_infer := sess'\<rparr>
             in Inr (case te_attention E sess of None \<Rightarrow> st
                     | Some summary \<Rightarrow> write_event global_step (Serialized summary) st)))))))))))))"

definition run_sample_decode ::
    "('h, 's, 'w, 'a, 'd) train_env \<Rightarrow> ('h, 's, 'w) train_state \<Rightarrow> pystr \<Rightarrow> pystr list \<Rightarrow> pystr list
     \<Rightarrow> ('h, 's, 'w) train_state res" where
  "run_sample_decode E st model_dir src_data tgt_data =
     bindE (create_or_load_model (te_models E) (ts_files st) model_dir (ts_infer st)) (\<lambda>(sess, global_step).
     decode_sample E (st\<lparr>ts_infer := sess\<rparr>) global_step src_data tgt_data)"

section \<open>Internal evaluation\<close>

definition internal_eval ::
    "('h, 's, 'w, 'a, 'd) train_env \<Rightarrow> ('h, 's, 'w) train_state \<Rightarrow> int \<Rightarrow> pystr \<Rightarrow> pystr \<Rightarrow> pystr
     \<Rightarrow> (py_float \<times> ('h, 's, 'w) train_state) prog" where
  "internal_eval E st global_step src_file tgt_file label =
     bindP (Some (te_start_eval E (ts_eval st) src_file tgt_file)) (\<lambda>sess.
     bindP (compute_perplexity (te_eval E) sess) (\<lambda>(ppl, sess).
     Some (Inr (ppl, add_summary global_step (label @ u ''_ppl'') ppl (st\<lparr>ts_eval := sess\<rparr>)))))"

definition has_test_set :: "'h hparams_api \<Rightarrow> 'h \<Rightarrow> bool \<Rightarrow> bool res" where
  "has_test_set A h use_test_set =
     (if use_test_set then bindE (attr A h (u ''test_prefix'')) (\<lambda>v. Inr (is_true v)) else Inr False)"

definition run_internal_eval ::
    "('h, 's, 'w, 'a, 'd) train_env \<Rightarrow> ('h, 's, 'w) train_state \<Rightarrow> pystr \<Rightarrow> bool
     \<Rightarrow> ((py_float \<times> py_float option) \<times> ('h, 's, 'w) train_state) prog" where
  "run_internal_eval E st model_dir use_test_set =
     (let A = te_hparams E; h = ts_hparams st
      in bindP (Some (create_or_load_model (te_models E) (ts_files st) model_dir (ts_eval st))) (\<lambda>(sess, global_step).
         bindP (Some (data_file A h ''dev_prefix'' ''src'')) (\<lambda>dev_src_file.
         bindP (Some (data_file A h ''dev_prefix'' ''tgt'')) (\<lambda>dev_tgt_file.
         bindP (internal_eval E (st\<lparr>ts_eval := sess\<rparr>) global_step dev_src_file dev_tgt_file (u ''dev'')) (\<lambda>(dev_ppl, st).
         bindP (Some (has_test_set A h use_test_set)) (\<lambda>test.
         if test
         then bindP (Some (data_file A h ''test_prefix'' ''src'')) (\<lambda>test_src_file.
              bindP (Some (data_file A h ''test_prefix'' ''tgt'')) (\<lambda>test_tgt_file.
              bindP (internal_eval E st global_step test_src_file test_tgt_file (u ''test'')) (\<lambda>(test_ppl, st).
              Some (Inr ((dev_ppl, Some test_ppl), st)))))
         else Some (Inr ((dev_ppl, None), st))))))))"

section \<open>External evaluation\<close>

type_synonym scores = "pystr \<rightharpoonup> real"

definition best_label :: "bool \<Rightarrow> pystr \<Rightarrow> pystr" where
  "best_label avg_ckpts metric = (if avg_ckpts then u ''avg_best_'' else u ''best_'') @ metric"

text \<open>A score better than the recorded one is recorded, and the model saved with it.\<close>

definition save_on_best ::
    "('h, 's, 'w, 'a, 'd) train_env \<Rightarrow> pystr \<Rightarrow> real \<Rightarrow> ('h, 's, 'w) train_state
     \<Rightarrow> ('h, 's, 'w) train_state res" where
  "save_on_best E best_metric_label score st =
     bindE (bindE (attr (te_hparams E) (ts_hparams st) best_metric_label) float_value) (\<lambda>best.
     if score > best
     then let h = hp_set (te_hparams E) (ts_hparams st) best_metric_label (PFloat score)
          in bindE (attr_str (te_hparams E) h (best_metric_label @ u ''_dir'')) (\<lambda>dir.
             bindE (mo_global_step (te_models E) (ts_infer st)) (\<lambda>step.
             bindE (te_save E (ts_files st) (ts_infer st) (path_join dir (u ''translate.ckpt'')) step) (\<lambda>w.
             Inr (st\<lparr>ts_hparams := h, ts_files := w\<rparr>))))
     else Inr st)"

definition record_score ::
    "('h, 's, 'w, 'a, 'd) train_env \<Rightarrow> int \<Rightarrow> pystr \<Rightarrow> bool \<Rightarrow> bool \<Rightarrow> scores
     \<Rightarrow> ('h, 's, 'w) train_state \<Rightarrow> pystr \<Rightarrow> ('h, 's, 'w) train_state res" where
  "record_score E global_step label save avg_ckpts scores st metric =
     bindE (dict_get scores metric) (\<lambda>score.
     let st = add_summary global_step (label @ u ''_'' @ metric) (Finite score) st
     in if save then save_on_best E (best_label avg_ckpts metric) score st else Inr st)"

definition record_scores ::
    "('h, 's, 'w, 'a, 'd) train_env \<Rightarrow> int \<Rightarrow> pystr \<Rightarrow> bool \<Rightarrow> bool \<Rightarrow> scores \<Rightarrow> pystr list \<Rightarrow> pystr
     \<Rightarrow> ('h, 's, 'w) train_state \<Rightarrow> ('h, 's, 'w) train_state res" where
  "record_scores E global_step label save avg_ckpts scores metrics out_dir st =
     bindE (foldE (record_score E global_step label save avg_ckpts scores) st metrics) (\<lambda>st.
     bindE (save_hparams (te_files E) (te_hparams E) (ts_files st) out_dir (ts_hparams st)) (\<lambda>w.
     Inr (st\<lparr>ts_files := w\<rparr>)))"

definition external_eval ::
    "('h, 's, 'w, 'a, 'd) train_env \<Rightarrow> ('h, 's, 'w) train_state \<Rightarrow> int \<Rightarrow> pystr list \<Rightarrow> int \<Rightarrow> pystr
     \<Rightarrow> pystr \<Rightarrow> bool \<Rightarrow> bool \<Rightarrow> (scores \<times> ('h, 's, 'w) train_state) prog" where
  "external_eval E st global_step data batch_size tgt_file name save avg_ckpts =
     (let A = te_hparams E; h = ts_hparams st; do_decode = global_step > 0;
          label = (if avg_ckpts then u ''avg_'' @ name else name)
      in bindP (Some (attr_str A h (u ''out_dir''))) (\<lambda>out_dir.
         bindP (Some (te_start_infer E (ts_infer st) data batch_size)) (\<lambda>sess.
         bindP (Some (bindE (attr A h (u ''metrics'')) str_list_value)) (\<lambda>metrics.
         bindP (Some (opt_attr A h ''subword_option'')) (\<lambda>subword_option.
         bindP (Some (attr_int A h (u ''beam_width''))) (\<lambda>beam_width.
         bindP (Some (opt_attr A h ''eos'')) (\<lambda>eos.
         bindP (Some (attr_str A h (u ''infer_mode''))) (\<lambda>infer_mode.
         bindP (decode_and_evaluate (te_files E) (te_mean E) (te_decode E) (ts_files st) sess
                  (path_join out_dir (u ''output_'' @ label)) (Some tgt_file) metrics subword_option
                  beam_width eos 1 do_decode infer_mode) (\<lambda>(scores, w, sess).
         let st = st\<lparr>ts_infer := sess, ts_files := w\<rparr>
         in bindP (Some (if do_decode
                         then record_scores E global_step label save avg_ckpts scores metrics out_dir st
                         else Inr st)) (\<lambda>st.
            Some (Inr (scores, st))))))))))))"

definition run_external_eval ::
    "('h, 's, 'w, 'a, 'd) train_env \<Rightarrow> ('h, 's, 'w) train_state \<Rightarrow> pystr \<Rightarrow> bool \<Rightarrow> bool \<Rightarrow> bool
     \<Rightarrow> ((scores \<times> scores option \<times> int) \<times> ('h, 's, 'w) train_state) prog" where
  "run_external_eval E st model_dir save_best_dev use_test_set avg_ckpts =
     (let A = te_hparams E; h = ts_hparams st
      in bindP (Some (create_or_load_model (te_models E) (ts_files st) model_dir (ts_infer st))) (\<lambda>(sess, global_step).
         bindP (Some (data_file A h ''dev_prefix'' ''src'')) (\<lambda>dev_src_file.
         bindP (Some (data_file A h ''dev_prefix'' ''tgt'')) (\<lambda>dev_tgt_file.
         bindP (Some (load_data (te_files E) (ts_files st) dev_src_file [])) (\<lambda>dev_data.
         bindP (Some (attr_int A h (u ''infer_batch_size''))) (\<lambda>batch_size.
         bindP (external_eval E (st\<lparr>ts_infer := sess\<rparr>) global_step dev_data batch_size dev_tgt_file
                  (u ''dev'') save_best_dev avg_ckpts) (\<lambda>(dev_scores, st).
         bindP (Some (has_test_set A h use_test_set)) (\<lambda>test.
         if test
         then bindP (Some (data_file A h ''test_prefix'' ''src'')) (\<lambda>test_src_file.
              bindP (Some (data_file A h ''test_prefix'' ''tgt'')) (\<lambda>test_tgt_file.
              bindP (Some (load_data (te_files E) (ts_files st) test_src_file [])) (\<lambda>test_data.
              bindP (external_eval E st global_step test_data batch_size test_tgt_file
                       (u ''test'') False avg_ckpts) (\<lambda>(test_scores, st).
              Some (Inr ((dev_scores, Some test_scores, global_step), st))))))
         else Some (Inr ((dev_scores, None, global_step), st))))))))))"

definition run_avg_external_eval ::
    "('h, 's, 'w, 'a, 'd) train_env \<Rightarrow> ('h, 's, 'w) train_state \<Rightarrow> pystr \<Rightarrow> int
     \<Rightarrow> ((scores option \<times> scores option) \<times> ('h, 's, 'w) train_state) prog" where
  "run_avg_external_eval E st model_dir global_step =
     bindP (Some (attr (te_hparams E) (ts_hparams st) (u ''avg_ckpts''))) (\<lambda>avg_ckpts.
     if is_true avg_ckpts
     then bindP (Some (attr_int (te_hparams E) (ts_hparams st) (u ''num_keep_ckpts''))) (\<lambda>num_keep_ckpts.
          bindP (Some (avg_checkpoints (te_files E) (te_arrays E) (te_ckpts E) (ts_files st) model_dir
                         num_keep_ckpts global_step (te_step_name E))) (\<lambda>(avg_model_dir, w).
          let st = st\<lparr>ts_files := w\<rparr>
          in if truthy avg_model_dir
             then bindP (run_external_eval E st (the avg_model_dir) True True True)
                    (\<lambda>((dev_scores, test_scores, _), st).
                  Some (Inr ((Some dev_scores, test_scores), st)))
             else Some (Inr ((None, None), st))))
     else Some (Inr ((None, None), st)))"

section \<open>Result lines\<close>

definition format_score :: "pystr \<Rightarrow> scores \<Rightarrow> pystr \<Rightarrow> pystr \<Rightarrow> pystr res" where
  "format_score name scores result_str metric =
     bindE (dict_get scores metric) (\<lambda>score.
     let item = name @ u '' '' @ metric @ u '' '' @ fixed_point 1 score
     in Inr (if result_str \<noteq> [] then result_str @ u '', '' @ item else item))"

definition format_results ::
    "pystr \<Rightarrow> py_float option \<Rightarrow> scores option \<Rightarrow> pystr list \<Rightarrow> pystr res" where
  "format_results name ppl scores metrics =
     (let result_str = (case ppl of None \<Rightarrow> []
            | Some p \<Rightarrow> if p \<noteq> Finite 0 then name @ u '' ppl '' @ format_float 2 p else [])
      in case scores of None \<Rightarrow> Inr result_str
         | Some sc \<Rightarrow> if sc \<noteq> Map.empty then foldE (format_score name sc) result_str metrics
                      else Inr result_str)"

definition get_best_results :: "'h hparams_api \<Rightarrow> 'h \<Rightarrow> pystr res" where
  "get_best_results A h =
     bindE (bindE (attr A h (u ''metrics'')) str_list_value) (\<lambda>metrics.
     bindE (mapE (\<lambda>metric.
         bindE (bindE (attr A h (u ''best_'' @ metric)) float_value) (\<lambda>best.
         Inr (metric @ u '' '' @ fixed_point 2 best))) metrics) (\<lambda>tokens.
     Inr (join (u '', '') tokens)))"

section \<open>Both evaluations\<close>

record eval_metrics =
  em_dev_ppl :: py_float
  em_test_ppl :: "py_float option"
  em_dev_scores :: scores
  em_test_scores :: "scores option"
  em_avg_dev_scores :: "scores option"
  em_avg_test_scores :: "scores option"

definition has_scores :: "scores option \<Rightarrow> bool" where
  "has_scores sc \<longleftrightarrow> (case sc of None \<Rightarrow> False | Some m \<Rightarrow> m \<noteq> Map.empty)"

definition summarize_results ::
    "'h hparams_api \<Rightarrow> 'h \<Rightarrow> eval_metrics \<Rightarrow> pystr res" where
  "summarize_results A h m =
     bindE (bindE (attr A h (u ''metrics'')) str_list_value) (\<lambda>metrics.
     bindE (format_results (u ''dev'') (Some (em_dev_ppl m)) (Some (em_dev_scores m)) metrics) (\<lambda>result_summary.
     bindE (if has_scores (em_avg_dev_scores m)
            then bindE (format_results (u ''avg_dev'') None (em_avg_dev_scores m) metrics) (\<lambda>r.
                 Inr (result_summary @ u '', '' @ r))
            else Inr result_summary) (\<lambda>result_summary.
     bindE (attr A h (u ''test_prefix'')) (\<lambda>test_prefix.
     if is_true test_prefix
     then bindE (format_results (u ''test'') (em_test_ppl m) (em_test_scores m) metrics) (\<lambda>r.
          let result_summary = result_summary @ u '', '' @ r
          in if has_scores (em_avg_test_scores m)
             then bindE (format_results (u ''avg_test'') None (em_avg_test_scores m) metrics) (\<lambda>r.
                  Inr (result_summary @ u '', '' @ r))
             else Inr result_summary)
     else Inr result_summary))))"

definition run_internal_and_external_eval ::
    "('h, 's, 'w, 'a, 'd) train_env \<Rightarrow> ('h, 's, 'w) train_state \<Rightarrow> pystr \<Rightarrow> bool
     \<Rightarrow> ((pystr \<times> int \<times> eval_metrics) \<times> ('h, 's, 'w) train_state) prog" where
  "run_internal_and_external_eval E st model_dir avg_ckpts =
     bindP (run_internal_eval E st model_dir True) (\<lambda>((dev_ppl, test_ppl), st).
     bindP (run_external_eval E st model_dir True True False) (\<lambda>((dev_scores, test_scores, global_step), st).
     bindP (if avg_ckpts then run_avg_external_eval E st model_dir global_step
            else Some (Inr ((None, None), st))) (\<lambda>((avg_dev_scores, avg_test_scores), st).
     let metrics = \<lparr>em_dev_ppl = dev_ppl, em_test_ppl = test_ppl, em_dev_scores = dev_scores,
           em_test_scores = test_scores, em_avg_dev_scores = avg_dev_scores,
           em_avg_test_scores = avg_test_scores\<rparr>
     in bindP (Some (summarize_results (te_hparams E) (ts_hparams st) metrics)) (\<lambda>result_summary.
        Some (Inr ((result_summary, global_step, metrics), st))))))"

definition run_full_eval ::
    "('h, 's, 'w, 'a, 'd) train_env \<Rightarrow> ('h, 's, 'w) train_state \<Rightarrow> pystr \<Rightarrow> pystr list \<Rightarrow> pystr list \<Rightarrow> bool
     \<Rightarrow> ((pystr \<times> int \<times> eval_metrics) \<times> ('h, 's, 'w) train_state) prog" where
  "run_full_eval E st model_dir sample_src_data sample_tgt_data avg_ckpts =
     bindP (Some (run_sample_decode E st model_dir sample_src_data sample_tgt_data)) (\<lambda>st.
     run_internal_and_external_eval E st model_dir avg_ckpts)"

section \<open>What the evaluations leave alone\<close>

lemma write_event_simps [simp]:
  "ts_hparams (write_event g e st) = ts_hparams st" "ts_train (write_event g e st) = ts_train st"
  "ts_infer (write_event g e st) = ts_infer st" "ts_eval (write_event g e st) = ts_eval st"
  "ts_files (write_event g e st) = ts_files st" "ts_writer (write_event g e st) = ts_writer st"
  by (simp_all add: write_event_def)

lemma add_summary_simps [simp]:
  "ts_hparams (add_summary g t v st) = ts_hparams st" "ts_train (add_summary g t v st) = ts_train st"
  "ts_infer (add_summary g t v st) = ts_infer st" "ts_eval (add_summary g t v st) = ts_eval st"
  "ts_files (add_summary g t v st) = ts_files st" "ts_writer (add_summary g t v st) = ts_writer st"
  by (simp_all add: add_summary_def)

lemma bindP_InrE:
  assumes "bindP m f = Some (Inr y)" obtains x where "m = Some (Inr x)" "f x = Some (Inr y)"
  using assms by (auto simp: bindP_Inr_iff)

text \<open>
  \<open>okP m Q\<close>: if the program returns, its result satisfies \<open>Q\<close>; used only for what a run keeps.
\<close>

definition okP :: "'x prog \<Rightarrow> ('x \<Rightarrow> bool) \<Rightarrow> bool" where
  "okP m Q \<longleftrightarrow> (\<forall>x. m = Some (Inr x) \<longrightarrow> Q x)"

lemma okP_D: "okP m Q \<Longrightarrow> m = Some (Inr x) \<Longrightarrow> Q x"
  by (simp add: okP_def)

lemma okP_result: "Q x \<Longrightarrow> okP (Some (Inr x)) Q"
  by (simp add: okP_def)

lemma okP_bind: "okP m (\<lambda>x. okP (f x) Q) \<Longrightarrow> okP (bindP m f) Q"
  by (auto simp: okP_def bindP_Inr_iff)

lemma okP_bind_any: "(\<And>x. okP (f x) Q) \<Longrightarrow> okP (bindP m f) Q"
  by (auto simp: okP_def bindP_Inr_iff)

lemma okP_if: "(c \<Longrightarrow> okP a Q) \<Longrightarrow> (\<not> c \<Longrightarrow> okP b Q) \<Longrightarrow> okP (if c then a else b) Q"
  by simp

lemma okP_prod: "(\<And>a b. p = (a, b) \<Longrightarrow> okP (f a b) Q) \<Longrightarrow> okP (case p of (a, b) \<Rightarrow> f a b) Q"
  by (cases p) simp

lemma okP_lift: "okE m Q \<Longrightarrow> okP (Some m) Q"
  by (auto simp: okP_def okE_def)

lemma okP_mono: "okP m Q \<Longrightarrow> (\<And>x. Q x \<Longrightarrow> R x) \<Longrightarrow> okP m R"
  by (simp add: okP_def)

lemma okE_mono: "okE m Q \<Longrightarrow> (\<And>x. Q x \<Longrightarrow> R x) \<Longrightarrow> okE m R"
  by (simp add: okE_def)

text \<open>Sample decoding and the internal evaluation leave the settings and the training session.\<close>

definition same_core :: "('h, 's, 'w) train_state \<Rightarrow> ('h, 's, 'w) train_state \<Rightarrow> bool" where
  "same_core st st' \<longleftrightarrow> ts_hparams st' = ts_hparams st \<and> ts_train st' = ts_train st
     \<and> ts_files st' = ts_files st \<and> ts_writer st' = ts_writer st"

lemma decode_sample_same: "okE (decode_sample E st g src tgt) (same_core st)"
  unfolding decode_sample_def Let_def
  by (intro okE_bind_any) (auto simp: okE_def bindE_Inr_iff same_core_def split: decoded.splits option.splits)

lemma run_sample_decode_same: "okE (run_sample_decode E st d src tgt) (same_core st)"
  unfolding run_sample_decode_def
  by (intro okE_rules okE_mono[OF decode_sample_same]) (simp add: same_core_def)

lemma internal_eval_same: "okP (internal_eval E st g src tgt label) (\<lambda>(p, st'). same_core st st')"
  unfolding internal_eval_def
  by (intro okP_bind_any okP_prod okP_result) (simp add: same_core_def)

lemma run_internal_eval_same: "okP (run_internal_eval E st d t) (\<lambda>(p, st'). same_core st st')"
proof (rule okP_def[THEN iffD2], intro allI impI)
  fix x assume "run_internal_eval E st d t = Some (Inr x)"
  then show "case x of (p, st') \<Rightarrow> same_core st st'"
    unfolding run_internal_eval_def Let_def
    by (auto simp: bindP_Inr_iff same_core_def split: if_splits dest!: okP_D[OF internal_eval_same])
qed

text \<open>
  The evaluations only add events, all to one summary writer; \<open>logged st st'\<close> are those between
  two states.
\<close>

definition logs_on :: "('h, 's, 'w) train_state \<Rightarrow> ('h, 's, 'w) train_state \<Rightarrow> bool" where
  "logs_on st st' \<longleftrightarrow> ts_writer st' = ts_writer st \<and> (\<exists>new. ts_events st' = ts_events st @ new)"

definition logged ::
    "('h, 's, 'w) train_state \<Rightarrow> ('h, 's, 'w) train_state \<Rightarrow> (pystr \<times> int \<times> summary_event) set" where
  "logged st st' = set (drop (length (ts_events st)) (ts_events st'))"

lemma logs_on_refl [intro]: "logs_on st st"
  by (simp add: logs_on_def)

lemma logs_on_same: "ts_writer st' = ts_writer st \<Longrightarrow> ts_events st' = ts_events st \<Longrightarrow> logs_on st st'"
  by (simp add: logs_on_def)

lemma logs_on_trans: "logs_on st st1 \<Longrightarrow> logs_on st1 st2 \<Longrightarrow> logs_on st st2"
  by (auto simp: logs_on_def)

lemma logs_on_write_event [intro]: "logs_on st st' \<Longrightarrow> logs_on st (write_event g e st')"
  by (auto simp: logs_on_def write_event_def)

lemma logs_on_add_summary [intro]: "logs_on st st' \<Longrightarrow> logs_on st (add_summary g t v st')"
  by (simp add: add_summary_def logs_on_write_event)

lemma logged_within:
  "logs_on st st1 \<Longrightarrow> logs_on st1 st2 \<Longrightarrow> logs_on st2 st3 \<Longrightarrow> x \<in> logged st1 st2 \<Longrightarrow> x \<in> logged st st3"
  by (auto simp: logs_on_def logged_def)

lemma logged_add_summary:
  "logs_on st st' \<Longrightarrow> (ts_writer st, g, Scalar t v) \<in> logged st (add_summary g t v st')"
  by (auto simp: logs_on_def logged_def add_summary_def write_event_def)

lemma decode_sample_logs: "okE (decode_sample E st g src tgt) (\<lambda>st'. logs_on st st' \<and> ts_eval st' = ts_eval st)"
  unfolding decode_sample_def Let_def
  by (intro okE_bind_any) (auto simp: okE_def bindE_Inr_iff logs_on_def write_event_def
      split: decoded.splits option.splits)

lemma run_sample_decode_logs:
  "okE (run_sample_decode E st d src tgt) (\<lambda>st'. logs_on st st' \<and> ts_eval st' = ts_eval st)"
  unfolding run_sample_decode_def
  by (intro okE_rules okE_mono[OF decode_sample_logs]) (simp add: logs_on_def)

lemma internal_eval_logs:
  "okP (internal_eval E st g src tgt label) (\<lambda>(p, st'). logs_on st st'
     \<and> (ts_writer st, g, Scalar (label @ u ''_ppl'') p) \<in> logged st st')"
  unfolding internal_eval_def
  by (intro okP_bind_any okP_prod okP_result)
    (auto simp: logged_def logs_on_def add_summary_def write_event_def)

lemma save_on_best_logs: "okE (save_on_best E L score st) (logs_on st)"
  unfolding save_on_best_def Let_def
  by (auto simp: okE_def bindE_Inr_iff intro!: logs_on_same)

lemma record_score_logs:
  assumes "record_score E g label save avg scores st m = Inr st'"
  shows "logs_on st st' \<and> (\<exists>score. scores m = Some score
    \<and> (ts_writer st, g, Scalar (label @ u ''_'' @ m) (Finite score)) \<in> logged st st')"
proof -
  from assms obtain score where score: "scores m = Some score" and
    run: "(if save then save_on_best E (best_label avg m) score (add_summary g (label @ u ''_'' @ m) (Finite score) st)
       else Inr (add_summary g (label @ u ''_'' @ m) (Finite score) st)) = Inr st'"
    by (auto simp: record_score_def Let_def bindE_Inr_iff)
  have a: "logs_on st (add_summary g (label @ u ''_'' @ m) (Finite score) st)" by blast
  have b: "logs_on (add_summary g (label @ u ''_'' @ m) (Finite score) st) st'"
    using run okE_D[OF save_on_best_logs] by (cases save) auto
  have "(ts_writer st, g, Scalar (label @ u ''_'' @ m) (Finite score)) \<in> logged st st'"
    by (rule logged_within[OF _ a b logged_add_summary]) blast+
  with logs_on_trans[OF a b] score show ?thesis by blast
qed

lemma record_score_loop_logs:
  "foldE (record_score E g label save avg scores) st ms = Inr st' \<Longrightarrow>
   logs_on st st' \<and> (\<forall>m \<in> set ms. \<exists>score. scores m = Some score
     \<and> (ts_writer st, g, Scalar (label @ u ''_'' @ m) (Finite score)) \<in> logged st st')"
proof (induction ms arbitrary: st)
  case (Cons m ms)
  then obtain st1 where st1: "record_score E g label save avg scores st m = Inr st1"
    "foldE (record_score E g label save avg scores) st1 ms = Inr st'" by (auto simp: bindE_Inr_iff)
  note a = record_score_logs[OF st1(1)] and b = Cons.IH[OF st1(2)]
  from a b have "logs_on st st'" by (blast intro: logs_on_trans)
  moreover have "ts_writer st1 = ts_writer st" using a by (simp add: logs_on_def)
  moreover have "x \<in> logged st st'" if "x \<in> logged st st1 \<or> x \<in> logged st1 st'" for x
    using that a b logged_within[OF logs_on_refl, of st st1 st' x] logged_within[OF _ _ logs_on_refl, of st st1 st' x]
    by blast
  ultimately show ?case using a b by simp metis
qed auto

lemma external_eval_logs:
  assumes "external_eval E st g data b tgt name save avg = Some (Inr (scores, st'))"
  shows "logs_on st st' \<and> (g > 0 \<longrightarrow> (\<exists>metrics.
      bindE (attr (te_hparams E) (ts_hparams st) (u ''metrics'')) str_list_value = Inr metrics
      \<and> (\<forall>m \<in> set metrics. \<exists>score. scores m = Some score
          \<and> (ts_writer st, g, Scalar ((if avg then u ''avg_'' @ name else name) @ u ''_'' @ m) (Finite score))
              \<in> logged st st')))"
proof -
  let ?label = "if avg then u ''avg_'' @ name else name"
  from assms obtain out_dir metrics w sess where
    metrics: "bindE (attr (te_hparams E) (ts_hparams st) (u ''metrics'')) str_list_value = Inr metrics"
    and run: "(if g > 0 then record_scores E g ?label save avg scores metrics out_dir
         (st\<lparr>ts_infer := sess, ts_files := w\<rparr>) else Inr (st\<lparr>ts_infer := sess, ts_files := w\<rparr>)) = Inr st'"
    unfolding external_eval_def Let_def by (auto elim!: bindP_InrE split: prod.splits)
  define st1 where "st1 = st\<lparr>ts_infer := sess, ts_files := w\<rparr>"
  have st1: "ts_writer st1 = ts_writer st" "ts_events st1 = ts_events st" by (simp_all add: st1_def)
  note run = run[folded st1_def]
  show ?thesis
  proof (cases "g > 0")
    case False
    with run st1 show ?thesis by (auto intro: logs_on_same)
  next
    case True
    with run obtain st2 where st2: "foldE (record_score E g ?label save avg scores) st1 metrics = Inr st2"
      "ts_writer st' = ts_writer st2" "ts_events st' = ts_events st2"
      by (auto simp: record_scores_def bindE_Inr_iff)
    from record_score_loop_logs[OF st2(1)] metrics st1 st2(2,3) show ?thesis
      by (auto simp: logs_on_def logged_def)
  qed
qed

lemma run_external_eval_logs:
  assumes "run_external_eval E st d save test avg = Some (Inr (r, st'))"
  shows "logs_on st st'"
proof -
  from assms obtain sess step data b tgt st1 dev where
    1: "external_eval E (st\<lparr>ts_infer := sess\<rparr>) step data b tgt (u ''dev'') save avg = Some (Inr (dev, st1))"
    and 2: "st' = st1 \<or> (\<exists>data tgt sc. external_eval E st1 step data b tgt (u ''test'') False avg = Some (Inr (sc, st')))"
    unfolding run_external_eval_def Let_def by (fastforce elim!: bindP_InrE split: prod.splits if_splits)
  have "logs_on st (st\<lparr>ts_infer := sess\<rparr>)" by (rule logs_on_same) simp_all
  with external_eval_logs[OF 1] have "logs_on st st1" by (blast intro: logs_on_trans)
  with 2 external_eval_logs[of E st1 step _ b _ "u ''test''" False avg _ st'] show ?thesis
    by (blast intro: logs_on_trans)
qed

lemma run_avg_external_eval_logs:
  assumes "run_avg_external_eval E st d g = Some (Inr (r, st'))"
  shows "logs_on st st'"
proof -
  from assms obtain w where "st' = st \<or> st' = st\<lparr>ts_files := w\<rparr>
      \<or> (\<exists>d x. run_external_eval E (st\<lparr>ts_files := w\<rparr>) d True True True = Some (Inr (x, st')))"
    unfolding run_avg_external_eval_def Let_def by (fastforce elim!: bindP_InrE split: prod.splits if_splits)
  then show ?thesis
    using run_external_eval_logs[of E "st\<lparr>ts_files := w\<rparr>" _ True True True _ st']
    by (auto simp: logs_on_def)
qed

lemma run_internal_eval_logs:
  assumes "run_internal_eval E st d t = Some (Inr (r, st'))"
  shows "logs_on st st' \<and> (\<exists>sess step src tgt st1. create_or_load_model (te_models E) (ts_files st) d (ts_eval st) = Inr (sess, step)
    \<and> data_file (te_hparams E) (ts_hparams st) ''dev_prefix'' ''src'' = Inr src
    \<and> data_file (te_hparams E) (ts_hparams st) ''dev_prefix'' ''tgt'' = Inr tgt
    \<and> internal_eval E (st\<lparr>ts_eval := sess\<rparr>) step src tgt (u ''dev'') = Some (Inr (fst r, st1))
    \<and> (ts_writer st, step, Scalar (u ''dev_ppl'') (fst r)) \<in> logged st st')"
proof -
  from assms obtain sess step src tgt st1 ppl where
    parts: "create_or_load_model (te_models E) (ts_files st) d (ts_eval st) = Inr (sess, step)"
    "data_file (te_hparams E) (ts_hparams st) ''dev_prefix'' ''src'' = Inr src"
    "data_file (te_hparams E) (ts_hparams st) ''dev_prefix'' ''tgt'' = Inr tgt"
    and 1: "internal_eval E (st\<lparr>ts_eval := sess\<rparr>) step src tgt (u ''dev'') = Some (Inr (ppl, st1))"
    and 2: "fst r = ppl" "st' = st1 \<or> (\<exists>src tgt p. internal_eval E st1 step src tgt (u ''test'') = Some (Inr (p, st')))"
    unfolding run_internal_eval_def Let_def by (fastforce elim!: bindP_InrE split: prod.splits if_splits)
  have a: "logs_on st st1" "(ts_writer st, step, Scalar (u ''dev_ppl'') ppl) \<in> logged st st1"
    using okP_D[OF internal_eval_logs 1] by (auto simp: logs_on_def logged_def u_def)
  have b: "logs_on st1 st'" using 2(2) okP_D[OF internal_eval_logs, of E st1 step _ _ "u ''test''" "(_, st')"] by auto
  have "(ts_writer st, step, Scalar (u ''dev_ppl'') ppl) \<in> logged st st'" by (rule logged_within[OF logs_on_refl a(1) b a(2)])
  with logs_on_trans[OF a(1) b] parts 1 2(1) show ?thesis by blast
qed

section \<open>The best scores\<close>

lemma best_label_inject [simp]: "best_label avg m = best_label avg m' \<longleftrightarrow> m = m'"
  by (simp add: best_label_def)

text \<open>
  \<open>records A L scores ms h h'\<close>: from \<open>h\<close> to \<open>h'\<close>, each metric of \<open>ms\<close> has the better of its
  recorded and its new score under its label \<open>L\<close>, and nothing else has changed.
\<close>

definition better :: "real \<Rightarrow> real \<Rightarrow> py_value option \<Rightarrow> py_value option" where
  "better score old v = (if score > old then Some (PFloat score) else v)"

definition records ::
    "'h hparams_api \<Rightarrow> (pystr \<Rightarrow> pystr) \<Rightarrow> scores \<Rightarrow> pystr list \<Rightarrow> 'h \<Rightarrow> 'h \<Rightarrow> bool" where
  "records A L scores ms h h' \<longleftrightarrow>
     (\<forall>k. k \<notin> L ` set ms \<longrightarrow> hp_get A h' k = hp_get A h k) \<and>
     (\<forall>m \<in> set ms. \<exists>score old. scores m = Some score \<and> bindE (attr A h (L m)) float_value = Inr old
        \<and> hp_get A h' (L m) = better score old (hp_get A h (L m)))"

lemma record_score_records:
  assumes "hparams_laws (te_hparams E)" "record_score E g label True avg scores st m = Inr st'"
  shows "records (te_hparams E) (best_label avg) scores [m] (ts_hparams st) (ts_hparams st')
    \<and> ts_train st' = ts_train st \<and> ts_infer st' = ts_infer st \<and> ts_writer st' = ts_writer st"
proof -
  let ?A = "te_hparams E" and ?L = "best_label avg m"
  from assms(2) obtain score where score: "scores m = Some score"
    and run: "save_on_best E ?L score (add_summary g (label @ u ''_'' @ m) (Finite score) st) = Inr st'"
    by (auto simp: record_score_def Let_def bindE_Inr_iff)
  from run obtain old where old: "bindE (attr ?A (ts_hparams st) ?L) float_value = Inr old"
    by (auto simp: save_on_best_def bindE_Inr_iff)
  have st': "ts_hparams st' = (if score > old then hp_set ?A (ts_hparams st) ?L (PFloat score) else ts_hparams st)"
    "ts_train st' = ts_train st" "ts_infer st' = ts_infer st" "ts_writer st' = ts_writer st"
    using run by (cases "score > old"; auto simp: save_on_best_def old Let_def bindE_Inr_iff)+
  have get: "hp_get ?A (ts_hparams st') = (if score > old then (hp_get ?A (ts_hparams st))(?L \<mapsto> PFloat score)
      else hp_get ?A (ts_hparams st))"
    by (simp add: st'(1) hparams_laws.get_set[OF assms(1)])
  have "hp_get ?A (ts_hparams st') ?L = better score old (hp_get ?A (ts_hparams st) ?L)"
    by (simp add: get better_def)
  moreover have "\<forall>k. k \<noteq> ?L \<longrightarrow> hp_get ?A (ts_hparams st') k = hp_get ?A (ts_hparams st) k"
    by (simp add: get)
  ultimately show ?thesis using score old st'(2-4) by (auto simp: records_def)
qed

lemma records_Cons:
  assumes "records A L scores [m] h h1" "records A L scores ms h1 h2" "inj L"
  shows "records A L scores (m # ms) h h2"
proof -
  from assms(1) obtain score old where m: "scores m = Some score"
    "bindE (attr A h (L m)) float_value = Inr old"
    "hp_get A h1 (L m) = better score old (hp_get A h (L m))"
    and other: "\<And>k. k \<noteq> L m \<Longrightarrow> hp_get A h1 k = hp_get A h k"
    unfolding records_def list.set by blast
  have new: "bindE (attr A h1 (L m)) float_value = Inr (max score old)"
    using m(2,3) by (auto simp: attr_def better_def split: if_splits)
  have "hp_get A h2 (L m) = hp_get A h1 (L m)"
  proof (cases "m \<in> set ms")
    case True
    with assms(2) obtain score' old' where "scores m = Some score'"
      "bindE (attr A h1 (L m)) float_value = Inr old'" "hp_get A h2 (L m) = better score' old' (hp_get A h1 (L m))"
      unfolding records_def by blast
    with new m(1) show ?thesis by (simp add: better_def)
  next
    case False
    with assms(2,3) show ?thesis by (auto simp: records_def inj_image_mem_iff)
  qed
  moreover have "\<exists>score old. scores m' = Some score \<and> bindE (attr A h (L m')) float_value = Inr old
      \<and> hp_get A h2 (L m') = better score old (hp_get A h (L m'))"
    if "m' \<in> set ms" "m' \<noteq> m" for m'
  proof -
    have "hp_get A h1 (L m') = hp_get A h (L m')" using that(2) assms(3) other by (simp add: inj_eq)
    moreover from this have "attr A h1 (L m') = attr A h (L m')" by (simp add: attr_def)
    moreover have "\<exists>score old. scores m' = Some score \<and> bindE (attr A h1 (L m')) float_value = Inr old
        \<and> hp_get A h2 (L m') = better score old (hp_get A h1 (L m'))"
      using assms(2) that(1) unfolding records_def by blast
    ultimately show ?thesis by (simp only:)
  qed
  ultimately have "\<forall>m' \<in> set (m # ms). \<exists>score old. scores m' = Some score
      \<and> bindE (attr A h (L m')) float_value = Inr old \<and> hp_get A h2 (L m') = better score old (hp_get A h (L m'))"
    using m by (metis set_ConsD)
  moreover have "\<forall>k. k \<notin> L ` set (m # ms) \<longrightarrow> hp_get A h2 k = hp_get A h k"
    using other assms(2) by (simp add: records_def)
  ultimately show ?thesis unfolding records_def by blast
qed

lemma record_score_loop:
  assumes "hparams_laws (te_hparams E)" "foldE (record_score E g label True avg scores) st ms = Inr st'"
  shows "records (te_hparams E) (best_label avg) scores ms (ts_hparams st) (ts_hparams st')
    \<and> ts_train st' = ts_train st \<and> ts_infer st' = ts_infer st \<and> ts_writer st' = ts_writer st"
  using assms(2)
proof (induction ms arbitrary: st)
  case Nil
  then show ?case by (simp add: records_def)
next
  case (Cons m ms)
  then obtain st1 where st1: "record_score E g label True avg scores st m = Inr st1"
    "foldE (record_score E g label True avg scores) st1 ms = Inr st'" by (auto simp: bindE_Inr_iff)
  from records_Cons[OF record_score_records[OF assms(1) st1(1), THEN conjunct1] Cons.IH[OF st1(2), THEN conjunct1]]
    record_score_records[OF assms(1) st1(1)] Cons.IH[OF st1(2)]
  show ?case by (simp add: inj_def)
qed

lemma record_score_unsaved:
  "foldE (record_score E g label False avg scores) st ms = Inr st' \<Longrightarrow>
   set ms \<subseteq> dom scores \<and> ts_hparams st' = ts_hparams st \<and> ts_train st' = ts_train st
   \<and> ts_infer st' = ts_infer st \<and> ts_writer st' = ts_writer st"
  by (induction ms arbitrary: st) (auto simp: bindE_Inr_iff record_score_def Let_def)

text \<open>What an external evaluation does to the settings.\<close>

lemma external_eval_result:
  assumes "hparams_laws (te_hparams E)"
    and "external_eval E st g data b tgt name save avg = Some (Inr (scores, st'))"
  shows "\<exists>metrics. bindE (attr (te_hparams E) (ts_hparams st) (u ''metrics'')) str_list_value = Inr metrics
    \<and> ts_train st' = ts_train st \<and> ts_writer st' = ts_writer st
    \<and> (if g > 0 \<and> save then records (te_hparams E) (best_label avg) scores metrics (ts_hparams st) (ts_hparams st')
       else ts_hparams st' = ts_hparams st)
    \<and> (g > 0 \<longrightarrow> set metrics \<subseteq> dom scores)"
proof -
  from assms(2) obtain out_dir metrics w sess where
    metrics: "bindE (attr (te_hparams E) (ts_hparams st) (u ''metrics'')) str_list_value = Inr metrics"
    and run: "(if g > 0 then record_scores E g (if avg then u ''avg_'' @ name else name) save avg scores metrics out_dir
         (st\<lparr>ts_infer := sess, ts_files := w\<rparr>) else Inr (st\<lparr>ts_infer := sess, ts_files := w\<rparr>)) = Inr st'"
    unfolding external_eval_def Let_def by (auto elim!: bindP_InrE split: prod.splits)
  define st1 where "st1 = st\<lparr>ts_infer := sess, ts_files := w\<rparr>"
  have st1: "ts_hparams st1 = ts_hparams st" "ts_train st1 = ts_train st" "ts_writer st1 = ts_writer st"
    by (simp_all add: st1_def)
  note run = run[folded st1_def]
  show ?thesis
  proof (cases "g > 0")
    case False
    with run st1 metrics show ?thesis by auto
  next
    case True
    with run obtain st2 where st2:
      "foldE (record_score E g (if avg then u ''avg_'' @ name else name) save avg scores) st1 metrics = Inr st2"
      "ts_hparams st' = ts_hparams st2" "ts_train st' = ts_train st2" "ts_writer st' = ts_writer st2"
      by (auto simp: record_scores_def bindE_Inr_iff)
    show ?thesis
    proof (cases save)
      case True
      with st2(1) have "foldE (record_score E g (if avg then u ''avg_'' @ name else name) True avg scores) st1 metrics = Inr st2"
        by simp
      from record_score_loop[OF assms(1) this] st1 st2 \<open>g > 0\<close> True metrics
      show ?thesis by (auto simp: records_def)
    next
      case False
      with st2(1) have "foldE (record_score E g (if avg then u ''avg_'' @ name else name) False avg scores) st1 metrics = Inr st2"
        by simp
      from record_score_unsaved[OF this] st1 st2 False metrics
      show ?thesis by auto
    qed
  qed
qed

section \<open>Properties\<close>

text \<open>
  C21. Best scores only improve: an external evaluation of a trained model (a positive global
  step) that saves the best has, for every metric, a score, and afterwards the recorded best is
  the new score where it is greater and the old record otherwise; every other setting is as
  before, and the settings are in the file of the output directory. An evaluation of an
  untrained model, or one that does not save, changes no setting.
\<close>

theorem external_eval_keeps_best:
  assumes "hparams_laws (te_hparams E)" and "gfile_laws (te_files E)"
    and "attr_str (te_hparams E) (ts_hparams st) (u ''out_dir'') = Inr out_dir"
    and "external_eval E st g data b tgt name save avg = Some (Inr (scores, st'))"
  shows "\<exists>metrics. bindE (attr (te_hparams E) (ts_hparams st) (u ''metrics'')) str_list_value = Inr metrics
    \<and> (if g > 0 \<and> save then records (te_hparams E) (best_label avg) scores metrics (ts_hparams st) (ts_hparams st')
       else ts_hparams st' = ts_hparams st)
    \<and> (g > 0 \<longrightarrow> set metrics \<subseteq> dom scores
         \<and> read_text (te_files E) (ts_files st') (path_join out_dir (u ''hparams''))
             = Inr (hp_to_json (te_hparams E) (ts_hparams st')))"
proof -
  have saved: "read_text (te_files E) (ts_files st') (path_join out_dir (u ''hparams''))
      = Inr (hp_to_json (te_hparams E) (ts_hparams st'))" if "g > 0"
  proof -
    from assms(3,4) that obtain metrics st1 where
      "record_scores E g (if avg then u ''avg_'' @ name else name) save avg scores metrics out_dir st1 = Inr st'"
      unfolding external_eval_def Let_def by (auto elim!: bindP_InrE split: prod.splits)
    then show ?thesis
      using gfile_laws.text_written[OF assms(2)] by (auto simp: record_scores_def bindE_Inr_iff save_hparams_def)
  qed
  from external_eval_result[OF assms(1,4)] saved show ?thesis by blast
qed

text \<open>
  A result line lists the perplexity, unless it is zero, and then the scores of all metrics in
  order, separated by a comma and a space; a metric without a score raises \<open>KeyError\<close>, and an
  empty dictionary of scores adds nothing.
\<close>

theorem format_results_items:
  "format_results name ppl (Some sc) metrics =
    (let head = (case ppl of None \<Rightarrow> [] | Some p \<Rightarrow> if p = Finite 0 then [] else [name @ u '' ppl '' @ format_float 2 p]);
         item = (\<lambda>m. name @ u '' '' @ m @ u '' '' @ fixed_point 1 (the (sc m)))
     in if sc = Map.empty then Inr (join (u '', '') head)
        else if set metrics \<subseteq> dom sc then Inr (join (u '', '') (head @ map item metrics))
        else Inl KeyError)"
proof -
  let ?item = "\<lambda>m. name @ u '' '' @ m @ u '' '' @ fixed_point 1 (the (sc m))"
  let ?head = "case ppl of None \<Rightarrow> [] | Some p \<Rightarrow> if p = Finite 0 then [] else [name @ u '' ppl '' @ format_float 2 p]"
  have nonempty: "join sep ts \<noteq> []" if "ts \<noteq> []" "[] \<notin> set ts" for sep :: pystr and ts
    using that by (cases ts; cases "tl ts") auto
  have loop: "foldE (format_score name sc) (join (u '', '') ts) ms =
      (if set ms \<subseteq> dom sc then Inr (join (u '', '') (ts @ map ?item ms)) else Inl KeyError)"
    if "[] \<notin> set ts" for ts ms
    using that
  proof (induction ms arbitrary: ts)
    case (Cons m ms)
    show ?case
    proof (cases "sc m")
      case None
      then show ?thesis by (auto simp: format_score_def dict_get_def)
    next
      case (Some x)
      have "format_score name sc (join (u '', '') ts) m = Inr (join (u '', '') (ts @ [?item m]))"
        using nonempty[of ts "u '', ''"] Cons.prems Some
        by (cases "ts = []") (simp_all add: format_score_def dict_get_def Let_def join_snoc)
      with Cons.IH[of "ts @ [?item m]"] Cons.prems Some show ?thesis by auto
    qed
  qed simp
  have head: "(case ppl of None \<Rightarrow> [] | Some p \<Rightarrow> if p \<noteq> Finite 0 then name @ u '' ppl '' @ format_float 2 p else [])
      = join (u '', '') ?head" "[] \<notin> set ?head"
    by (auto split: option.splits)
  show ?thesis unfolding format_results_def head(1) Let_def using loop[OF head(2)] by simp
qed

section \<open>A sample environment\<close>

text \<open>
  Sessions are numbers: 0 is a session at the start of its data, with one batch to come, and a
  training session has the number of the steps it has made.
\<close>

definition sample_train_env :: "(dict_hp, nat, dict_fs, unit, unit) train_env" where
  "sample_train_env =
     \<lparr>te_files = dict_gfile, te_hparams = sample_api,
      te_models = \<lparr>mo_restore = (\<lambda>_ s _. Inr s), mo_print_variables = (\<lambda>_ _. Inr ()), mo_init_tables = Inr,
        mo_init_variables = Inr, mo_global_step = (\<lambda>s. Inr (int s)), mo_latest_checkpoint = (\<lambda>_ _. None)\<rparr>,
      te_arrays = \<lparr>np_zeros = (\<lambda>_. ()), np_iadd = (\<lambda>_ _. Inr ()), np_idiv = (\<lambda>_ _. ())\<rparr>,
      te_ckpts = \<lparr>ck_state = (\<lambda>_ _. None), ck_list_variables = (\<lambda>_ _. Inr []),
        ck_get_tensor = (\<lambda>_ _ _. Inr ((), ())), ck_save = (\<lambda>w _ _ _. Inr w)\<rparr>,
      te_new = (\<lambda>_ _ _. Inr 0), te_start_train = (\<lambda>s _. Inr s), te_start_eval = (\<lambda>_ _ _. Inr 0),
      te_start_infer = (\<lambda>_ _ _. Inr 0),
      te_train = (\<lambda>s. Trained \<lparr>to_summary = [], to_loss = Finite 2, to_predict_count = 4,
        to_global_step = int s + 1, to_word_count = 8, to_batch_size = 2, to_grad_norm = Finite 1,
        to_learning_rate = 1\<rparr> 1 (s + 1)),
      te_eval = sample_eval,
      te_decode = (\<lambda>s. if s = 0 then Batch (Rows [[utf8_encode [97]]]) 1 else OutOfRange s),
      te_attention = (\<lambda>_. None), te_learning_rate = (\<lambda>_. Inr 1), te_save = (\<lambda>w _ _ _. Inr w),
      te_step_name = [115], te_randint = (\<lambda>_ _. 0), te_mean = (\<lambda>_. 0)\<rparr>"

definition sample_train_hp :: dict_hp where
  "sample_train_hp = ([(u ''metrics'', PList [PStr (u ''accuracy'')]), (u ''subword_option'', PNone),
     (u ''beam_width'', PInt 0), (u ''eos'', PNone), (u ''infer_mode'', PStr (u ''greedy'')),
     (u ''out_dir'', PStr [111]), (u ''best_accuracy'', PInt 0), (u ''best_accuracy_dir'', PStr [98]),
     (u ''epoch_step'', PInt 0)], Map.empty)"

definition sample_train_state :: "(dict_hp, nat, dict_fs) train_state" where
  "sample_train_state = \<lparr>ts_hparams = sample_train_hp, ts_train = 0, ts_eval = 0, ts_infer = 0,
     ts_files = [[114] \<mapsto> utf8_encode [97, 10]], ts_writer = [], ts_events = []\<rparr>"

lemma sample_train_env_sel [simp]:
  "te_files sample_train_env = dict_gfile" "te_hparams sample_train_env = sample_api"
  "te_start_infer sample_train_env s d b = Inr 0" "te_save sample_train_env w s p n = Inr w"
  "te_train sample_train_env s = Trained \<lparr>to_summary = [], to_loss = Finite 2, to_predict_count = 4,
     to_global_step = int s + 1, to_word_count = 8, to_batch_size = 2, to_grad_norm = Finite 1,
     to_learning_rate = 1\<rparr> 1 (s + 1)"
  "mo_global_step (te_models sample_train_env) s = Inr (int s)"
  "te_start_train sample_train_env s k = Inr s"
  by (simp_all add: sample_train_env_def)

lemma sample_train_get:
  "hp_get sample_api sample_train_hp k = map_of (fst sample_train_hp) k"
  by (simp add: dict_hparams_def dict_get_attr_def sample_train_hp_def split: option.splits)

lemma sample_decode_and_evaluate:
  "decode_and_evaluate dict_gfile (te_mean sample_train_env) (te_decode sample_train_env)
     (ts_files sample_train_state) 0 (path_join [111] (u ''output_'' @ u ''dev'')) (Some [114])
     [u ''accuracy''] None 0 None 1 True (u ''greedy'')
   = Some (Inr ([u ''accuracy'' \<mapsto> 100],
       (ts_files sample_train_state)(path_join [111] (u ''output_'' @ u ''dev'') \<mapsto> utf8_encode [97, 10]), 1))"
proof -
  let ?out = "path_join [111] (u ''output_'' @ u ''dev'')" and ?w = "ts_files sample_train_state"
  have y: "yields (te_decode sample_train_env) 0 [Rows [[utf8_encode [97]]]] 1"
    by (simp add: sample_train_env_def)
  have t: "list_all2 (translates (u ''greedy'') (translations_per_input (u ''greedy'') 1 0) None None)
      [Rows [[utf8_encode [97]]]] [[[97]]]"
    using sample_translates_line[of "[97]" None None] by (simp add: translations_per_input_def sample_data_def sample_texts_def)
  have enc: "encodable [97, 10]" by (simp add: encodable_def scalar_def)
  from decode_file_run[OF y t, of dict_gfile ?w ?out] enc
  have dec: "\<exists>n. decode_file dict_gfile (te_decode sample_train_env) ?w 0 ?out None 0 None 1 (u ''greedy'')
      = Some (Inr (n, ?w(?out \<mapsto> utf8_encode [97, 10]), 1))"
    by (auto simp: dict_gfile_text)
  have out: "?out \<noteq> [114]" by (simp add: path_join_def u_def)
  have read: "read_lines dict_gfile (?w(?out \<mapsto> utf8_encode [97, 10])) [114] = Inr [[97, 10]]"
    "read_lines dict_gfile (?w(?out \<mapsto> utf8_encode [97, 10])) ?out = Inr [[97, 10]]"
    using out by (simp_all add: read_lines_def sample_train_state_def dict_read_encoded enc is_eol_def)
  have "accuracy_metric dict_gfile (?w(?out \<mapsto> utf8_encode [97, 10])) [114] ?out = Inr 100"
    by (simp add: accuracy_metric_def read open_second_def accuracy_step_def readline_def)
  then have "evaluate_file dict_gfile (te_mean sample_train_env) (?w(?out \<mapsto> utf8_encode [97, 10])) ?out (Some [114])
      [u ''accuracy''] None = Inr [u ''accuracy'' \<mapsto> 100]"
    by (simp add: evaluate_file_def truthy_def dict_gfile_text evaluate_def lower_def u_def)
  with dec show ?thesis by (auto simp: decode_and_evaluate_def)
qed

lemma sample_external_eval:
  "\<exists>st'. external_eval sample_train_env sample_train_state 1 [[97]] 32 [114] (u ''dev'') True False
     = Some (Inr ([u ''accuracy'' \<mapsto> 100], st'))"
proof -
  have attrs: "hp_get sample_api sample_train_hp (u ''metrics'') = Some (PList [PStr (u ''accuracy'')])"
    "hp_get sample_api sample_train_hp (u ''out_dir'') = Some (PStr [111])"
    "hp_get sample_api sample_train_hp (u ''subword_option'') = Some PNone"
    "hp_get sample_api sample_train_hp (u ''beam_width'') = Some (PInt 0)"
    "hp_get sample_api sample_train_hp (u ''eos'') = Some PNone"
    "hp_get sample_api sample_train_hp (u ''infer_mode'') = Some (PStr (u ''greedy''))"
    "hp_get sample_api sample_train_hp (u ''best_accuracy'') = Some (PInt 0)"
    "hp_get sample_api sample_train_hp (u ''best_accuracy_dir'') = Some (PStr [98])"
    unfolding sample_train_get by (simp_all add: sample_train_hp_def)
  have label: "best_label False (u ''accuracy'') = u ''best_accuracy''"
    "u ''best_accuracy'' @ u ''_dir'' = u ''best_accuracy_dir''"
    by (simp_all add: best_label_def u_def)
  have set_other: "hp_get sample_api (hp_set sample_api h k v) j = (if j = k then Some v else hp_get sample_api h j)" for h k v j
    by (simp add: dict_store.get_set)
  have hp: "ts_hparams sample_train_state = sample_train_hp" "ts_infer sample_train_state = 0"
    by (simp_all add: sample_train_state_def)
  have json: "hp_to_json sample_api h = []" for h by (simp add: dict_hparams_def)
  show ?thesis
    unfolding external_eval_def Let_def hp
    by (simp add: attrs attr_def attr_str_def attr_int_def opt_attr_def sample_decode_and_evaluate
        record_scores_def record_score_def save_on_best_def dict_get_def label hp set_other Let_def
        save_hparams_def dict_gfile_text json encodable_def)
qed

theorem external_eval_keeps_best_witness:
  "\<exists>st'. external_eval sample_train_env sample_train_state 1 [[97]] 32 [114] (u ''dev'') True False
       = Some (Inr ([u ''accuracy'' \<mapsto> 100], st'))
    \<and> records sample_api (best_label False) [u ''accuracy'' \<mapsto> 100] [u ''accuracy''] sample_train_hp (ts_hparams st')"
proof -
  from sample_external_eval obtain st' where
    run: "external_eval sample_train_env sample_train_state 1 [[97]] 32 [114] (u ''dev'') True False
       = Some (Inr ([u ''accuracy'' \<mapsto> 100], st'))" ..
  have hp: "ts_hparams sample_train_state = sample_train_hp" by (simp add: sample_train_state_def)
  have attrs: "attr_str (te_hparams sample_train_env) (ts_hparams sample_train_state) (u ''out_dir'') = Inr [111]"
    "bindE (attr sample_api sample_train_hp (u ''metrics'')) str_list_value = Inr [u ''accuracy'']"
    unfolding hp attr_str_def attr_def sample_train_env_sel sample_train_get by (simp_all add: sample_train_hp_def)
  have laws: "hparams_laws (te_hparams sample_train_env)" "gfile_laws (te_files sample_train_env)"
    by (simp_all add: dict_store.hparams_laws_axioms dict_files.gfile_laws_axioms)
  from external_eval_keeps_best[OF laws attrs(1) run] run attrs(2) show ?thesis by (auto simp: hp)
qed

end
