(* ===== verification/TrainLoop.thy ===== *)
theory TrainLoop
  imports TrainEval
begin

text \<open>
  Training itself, the rest of \<open>nmt/train.py\<close>: the statistics (\<open>init_stats\<close>, \<open>update_stats\<close>,
  \<open>process_stats\<close>), the preparation (\<open>before_train\<close>), the training loop and \<open>train\<close>. The loop
  has no bound of its own (it ends when the global step that the session reports is large enough,
  or on overflow), so it is a partial function; the inductive relation \<open>train_reach\<close> gives the
  states at its head.
\<close>

section \<open>Statistics\<close>

record train_stats =
  st_step_time :: real
  st_train_loss :: py_float
  st_predict_count :: nat
  st_word_count :: nat
  st_sequence_count :: nat
  st_grad_norm :: py_float

record train_info =
  in_train_ppl :: py_float
  in_speed :: py_float
  in_avg_step_time :: real
  in_avg_grad_norm :: py_float
  in_avg_sequence_count :: real
  in_learning_rate :: real

definition init_stats :: train_stats where
  "init_stats = \<lparr>st_step_time = 0, st_train_loss = Finite 0, st_predict_count = 0, st_word_count = 0,
     st_sequence_count = 0, st_grad_norm = Finite 0\<rparr>"

definition update_stats ::
    "train_stats \<Rightarrow> real \<Rightarrow> train_output \<Rightarrow> train_stats \<times> int \<times> real \<times> bytes" where
  "update_stats stats elapsed output_tuple =
     (let batch_size = to_batch_size output_tuple
      in (stats\<lparr>st_step_time := st_step_time stats + elapsed,
            st_train_loss := st_train_loss stats + fscale (to_loss output_tuple) (real batch_size),
            st_grad_norm := st_grad_norm stats + to_grad_norm output_tuple,
            st_predict_count := st_predict_count stats + to_predict_count output_tuple,
            st_word_count := st_word_count stats + to_word_count output_tuple,
            st_sequence_count := st_sequence_count stats + batch_size\<rparr>,
          to_global_step output_tuple, to_learning_rate output_tuple, to_summary output_tuple))"

definition is_overflow :: "py_float \<Rightarrow> bool" where
  "is_overflow train_ppl \<longleftrightarrow> \<not> is_finite train_ppl \<or> Finite (10 ^ 20) < train_ppl"

definition process_stats :: "train_stats \<Rightarrow> train_info \<Rightarrow> int \<Rightarrow> (train_info \<times> bool) res" where
  "process_stats stats info steps_per_stats =
     bindE (py_div (st_step_time stats) (real_of_int steps_per_stats)) (\<lambda>avg_step_time.
     let train_ppl = safe_exp (np_div (st_train_loss stats) (real (st_predict_count stats)));
         info = info\<lparr>in_avg_step_time := avg_step_time,
           in_avg_grad_norm := np_div (st_grad_norm stats) (real_of_int steps_per_stats),
           in_avg_sequence_count := real (st_sequence_count stats) / real_of_int steps_per_stats,
           in_speed := np_div (Finite (real (st_word_count stats))) (1000 * st_step_time stats),
           in_train_ppl := train_ppl\<rparr>
     in Inr (info, is_overflow train_ppl))"

text \<open>\<open>add_info_summaries\<close>: everything but the learning rate, in the order of the dictionary.\<close>

definition add_info_summaries ::
    "int \<Rightarrow> train_info \<Rightarrow> ('h, 's, 'w) train_state \<Rightarrow> ('h, 's, 'w) train_state" where
  "add_info_summaries global_step info st =
     foldl (\<lambda>st (key, v). add_summary global_step (u key) v st) st
       [(''train_ppl'', in_train_ppl info), (''speed'', in_speed info),
        (''avg_step_time'', Finite (in_avg_step_time info)), (''avg_grad_norm'', in_avg_grad_norm info),
        (''avg_sequence_count'', Finite (in_avg_sequence_count info))]"

definition before_train ::
    "('h, 's, 'w, 'a, 'd) train_env \<Rightarrow> ('h, 's, 'w) train_state
     \<Rightarrow> (train_stats \<times> train_info \<times> ('h, 's, 'w) train_state) res" where
  "before_train E st =
     bindE (te_learning_rate E (ts_train st)) (\<lambda>lr.
     bindE (attr_int (te_hparams E) (ts_hparams st) (u ''batch_size'')) (\<lambda>batch_size.
     bindE (attr_int (te_hparams E) (ts_hparams st) (u ''epoch_step'')) (\<lambda>epoch_step.
     bindE (te_start_train E (ts_train st) (batch_size * epoch_step)) (\<lambda>sess.
     Inr (init_stats,
          \<lparr>in_train_ppl = Finite 0, in_speed = Finite 0, in_avg_step_time = 0, in_avg_grad_norm = Finite 0,
           in_avg_sequence_count = 0, in_learning_rate = lr\<rparr>,
          st\<lparr>ts_train := sess\<rparr>)))))"

section \<open>The training loop\<close>

record train_config =
  tc_out_dir :: pystr
  tc_num_train_steps :: int
  tc_steps_per_stats :: int
  tc_steps_per_eval :: int
  tc_steps_per_external_eval :: int
  tc_avg_ckpts :: bool
  tc_sample_src :: "pystr list"
  tc_sample_tgt :: "pystr list"

record ('h, 's, 'w) loop_state =
  ls_state :: "('h, 's, 'w) train_state"
  ls_global_step :: int
  ls_last_stats_step :: int
  ls_last_eval_step :: int
  ls_last_external_eval_step :: int
  ls_stats :: train_stats
  ls_info :: train_info

definition set_epoch_step :: "'h hparams_api \<Rightarrow> int \<Rightarrow> ('h, 's, 'w) train_state \<Rightarrow> ('h, 's, 'w) train_state" where
  "set_epoch_step A n st = st\<lparr>ts_hparams := hp_set A (ts_hparams st) (u ''epoch_step'') (PInt n)\<rparr>"

definition save_checkpoint ::
    "('h, 's, 'w, 'a, 'd) train_env \<Rightarrow> train_config \<Rightarrow> int \<Rightarrow> ('h, 's, 'w) train_state
     \<Rightarrow> ('h, 's, 'w) train_state res" where
  "save_checkpoint E C global_step st =
     bindE (te_save E (ts_files st) (ts_train st) (path_join (tc_out_dir C) (u ''translate.ckpt'')) global_step) (\<lambda>w.
     Inr (st\<lparr>ts_files := w\<rparr>))"

text \<open>The evaluation with the metrics that the loop runs, with the averaged checkpoint if asked for.\<close>

definition external_round ::
    "('h, 's, 'w, 'a, 'd) train_env \<Rightarrow> train_config \<Rightarrow> int \<Rightarrow> ('h, 's, 'w) train_state
     \<Rightarrow> ('h, 's, 'w) train_state prog" where
  "external_round E C global_step st =
     bindP (Some (run_sample_decode E st (tc_out_dir C) (tc_sample_src C) (tc_sample_tgt C))) (\<lambda>st.
     bindP (run_external_eval E st (tc_out_dir C) True True False) (\<lambda>(_, st).
     if tc_avg_ckpts C
     then bindP (run_avg_external_eval E st (tc_out_dir C) global_step) (\<lambda>(_, st). Some (Inr st))
     else Some (Inr st)))"

definition finish_epoch ::
    "('h, 's, 'w, 'a, 'd) train_env \<Rightarrow> train_config \<Rightarrow> ('h, 's, 'w) loop_state \<Rightarrow> ('h, 's, 'w) loop_state prog" where
  "finish_epoch E C ls =
     (let st = set_epoch_step (te_hparams E) 0 (ls_state ls)
      in bindP (external_round E C (ls_global_step ls) st) (\<lambda>st.
         bindP (Some (te_start_train E (ts_train st) 0)) (\<lambda>sess.
         Some (Inr (ls\<lparr>ls_state := st\<lparr>ts_train := sess\<rparr>\<rparr>)))))"

definition after_step ::
    "('h, 's, 'w, 'a, 'd) train_env \<Rightarrow> train_output \<Rightarrow> real \<Rightarrow> ('h, 's, 'w) loop_state \<Rightarrow> ('h, 's, 'w) loop_state res" where
  "after_step E out elapsed ls =
     bindE (attr_int (te_hparams E) (ts_hparams (ls_state ls)) (u ''epoch_step'')) (\<lambda>epoch_step.
     let st = set_epoch_step (te_hparams E) (epoch_step + 1) (ls_state ls);
         (stats, global_step, learning_rate, step_summary) = update_stats (ls_stats ls) elapsed out
     in Inr (ls\<lparr>ls_state := write_event global_step (Serialized step_summary) st,
            ls_global_step := global_step, ls_stats := stats,
            ls_info := (ls_info ls)\<lparr>in_learning_rate := learning_rate\<rparr>\<rparr>))"

definition stats_round ::
    "('h, 's, 'w, 'a, 'd) train_env \<Rightarrow> train_config \<Rightarrow> ('h, 's, 'w) loop_state
     \<Rightarrow> (('h, 's, 'w) loop_state \<times> bool) res" where
  "stats_round E C ls =
     (if ls_global_step ls - ls_last_stats_step ls \<ge> tc_steps_per_stats C
      then bindE (process_stats (ls_stats ls) (ls_info ls) (tc_steps_per_stats C)) (\<lambda>(info, overflow).
           bindE (get_best_results (te_hparams E) (ts_hparams (ls_state ls))) (\<lambda>_.
           let ls = ls\<lparr>ls_last_stats_step := ls_global_step ls, ls_info := info\<rparr>
           in Inr (if overflow then (ls, True) else (ls\<lparr>ls_stats := init_stats\<rparr>, False))))
      else Inr (ls, False))"

definition eval_round ::
    "('h, 's, 'w, 'a, 'd) train_env \<Rightarrow> train_config \<Rightarrow> ('h, 's, 'w) loop_state \<Rightarrow> ('h, 's, 'w) loop_state prog" where
  "eval_round E C ls =
     (if ls_global_step ls - ls_last_eval_step ls \<ge> tc_steps_per_eval C
      then let g = ls_global_step ls; st = add_info_summaries g (ls_info ls) (ls_state ls)
           in bindP (Some (save_checkpoint E C g st)) (\<lambda>st.
              bindP (Some (run_sample_decode E st (tc_out_dir C) (tc_sample_src C) (tc_sample_tgt C))) (\<lambda>st.
              bindP (run_internal_eval E st (tc_out_dir C) True) (\<lambda>(_, st).
              Some (Inr (ls\<lparr>ls_last_eval_step := g, ls_state := st\<rparr>)))))
      else Some (Inr ls))"

definition external_eval_round ::
    "('h, 's, 'w, 'a, 'd) train_env \<Rightarrow> train_config \<Rightarrow> ('h, 's, 'w) loop_state \<Rightarrow> ('h, 's, 'w) loop_state prog" where
  "external_eval_round E C ls =
     (if ls_global_step ls - ls_last_external_eval_step ls \<ge> tc_steps_per_external_eval C
      then let g = ls_global_step ls
           in bindP (Some (save_checkpoint E C g (ls_state ls))) (\<lambda>st.
              bindP (external_round E C g st) (\<lambda>st.
              Some (Inr (ls\<lparr>ls_last_external_eval_step := g, ls_state := st\<rparr>))))
      else Some (Inr ls))"

text \<open>One pass through the loop; the flag is the \<open>break\<close> on overflow.\<close>

definition train_body ::
    "('h, 's, 'w, 'a, 'd) train_env \<Rightarrow> train_config \<Rightarrow> ('h, 's, 'w) loop_state
     \<Rightarrow> (('h, 's, 'w) loop_state \<times> bool) prog" where
  "train_body E C ls =
     (case te_train E (ts_train (ls_state ls)) of
        TrainEnd sess \<Rightarrow>
          bindP (finish_epoch E C (ls\<lparr>ls_state := (ls_state ls)\<lparr>ts_train := sess\<rparr>\<rparr>)) (\<lambda>ls.
          Some (Inr (ls, False)))
      | Trained out elapsed sess \<Rightarrow>
          bindP (Some (after_step E out elapsed (ls\<lparr>ls_state := (ls_state ls)\<lparr>ts_train := sess\<rparr>\<rparr>))) (\<lambda>ls.
          bindP (Some (stats_round E C ls)) (\<lambda>(ls, overflow).
          if overflow then Some (Inr (ls, True))
          else bindP (eval_round E C ls) (\<lambda>ls.
               bindP (external_eval_round E C ls) (\<lambda>ls.
               Some (Inr (ls, False)))))))"

partial_function (option) train_loop ::
    "('h, 's, 'w, 'a, 'd) train_env \<Rightarrow> train_config \<Rightarrow> ('h, 's, 'w) loop_state \<Rightarrow> ('h, 's, 'w) loop_state prog" where
  "train_loop E C ls =
     (if ls_global_step ls < tc_num_train_steps C
      then bindP (train_body E C ls) (\<lambda>(ls', stop).
           if stop then Some (Inr ls') else train_loop E C ls')
      else Some (Inr ls))"

section \<open>Training\<close>

text \<open>The settings at the start of \<open>train\<close>, with the default period of the external evaluation.\<close>

definition read_config ::
    "('h, 's, 'w, 'a, 'd) train_env \<Rightarrow> 'w \<Rightarrow> 'h \<Rightarrow> train_config res" where
  "read_config E w h =
     (let A = te_hparams E
      in bindE (attr_str A h (u ''out_dir'')) (\<lambda>out_dir.
         bindE (attr_int A h (u ''num_train_steps'')) (\<lambda>num_train_steps.
         bindE (attr_int A h (u ''steps_per_stats'')) (\<lambda>steps_per_stats.
         bindE (attr A h (u ''steps_per_external_eval'')) (\<lambda>external.
         bindE (attr A h (u ''avg_ckpts'')) (\<lambda>avg_ckpts.
         let steps_per_eval = 10 * steps_per_stats
         in bindE (if \<not> is_true external then Inr (5 * steps_per_eval) else int_value external)
              (\<lambda>steps_per_external_eval.
            bindE (data_file A h ''dev_prefix'' ''src'') (\<lambda>dev_src_file.
            bindE (data_file A h ''dev_prefix'' ''tgt'') (\<lambda>dev_tgt_file.
            bindE (load_data (te_files E) w dev_src_file []) (\<lambda>sample_src_data.
            bindE (load_data (te_files E) w dev_tgt_file []) (\<lambda>sample_tgt_data.
            Inr \<lparr>tc_out_dir = out_dir, tc_num_train_steps = num_train_steps,
                 tc_steps_per_stats = steps_per_stats, tc_steps_per_eval = steps_per_eval,
                 tc_steps_per_external_eval = steps_per_external_eval, tc_avg_ckpts = is_true avg_ckpts,
                 tc_sample_src = sample_src_data, tc_sample_tgt = sample_tgt_data\<rparr>)))))))))))"

text \<open>The models of the three modes, one session each, and the model that training goes on with.\<close>

definition open_sessions ::
    "('h, 's, 'w, 'a, 'd) train_env \<Rightarrow> 'w \<Rightarrow> 'h \<Rightarrow> pystr
     \<Rightarrow> (('h, 's, 'w) train_state \<times> int) res" where
  "open_sessions E w h out_dir =
     bindE (train_model_creator (te_hparams E) h) (\<lambda>model_creator.
     bindE (te_new E (u ''train'') model_creator h) (\<lambda>train_sess.
     bindE (te_new E (u ''eval'') model_creator h) (\<lambda>eval_sess.
     bindE (te_new E (u ''infer'') model_creator h) (\<lambda>infer_sess.
     bindE (create_or_load_model (te_models E) w out_dir train_sess) (\<lambda>(train_sess, global_step).
     Inr (\<lparr>ts_hparams = h, ts_train = train_sess, ts_eval = eval_sess, ts_infer = infer_sess,
           ts_files = w, ts_writer = path_join out_dir (u ''train_log''), ts_events = []\<rparr>, global_step))))))"

definition eval_best_model ::
    "('h, 's, 'w, 'a, 'd) train_env \<Rightarrow> train_config \<Rightarrow> pystr \<Rightarrow> ('h, 's, 'w) train_state
     \<Rightarrow> ('h, 's, 'w) train_state prog" where
  "eval_best_model E C dir_key st =
     bindP (Some (attr_str (te_hparams E) (ts_hparams st) dir_key)) (\<lambda>best_model_dir.
     bindP (run_full_eval E (st\<lparr>ts_writer := path_join best_model_dir (u ''train_log'')\<rparr>) best_model_dir
              (tc_sample_src C) (tc_sample_tgt C) False) (\<lambda>(_, st).
     Some (Inr st)))"

definition eval_best_models ::
    "('h, 's, 'w, 'a, 'd) train_env \<Rightarrow> train_config \<Rightarrow> ('h, 's, 'w) train_state
     \<Rightarrow> ('h, 's, 'w) train_state prog" where
  "eval_best_models E C st =
     bindP (Some (bindE (attr (te_hparams E) (ts_hparams st) (u ''metrics'')) str_list_value)) (\<lambda>metrics.
     foldP (\<lambda>st metric.
       bindP (eval_best_model E C (u ''best_'' @ metric @ u ''_dir'') st) (\<lambda>st.
       if tc_avg_ckpts C then eval_best_model E C (u ''avg_best_'' @ metric @ u ''_dir'') st
       else Some (Inr st))) st metrics)"

definition train ::
    "('h, 's, 'w, 'a, 'd) train_env \<Rightarrow> 'w \<Rightarrow> 'h \<Rightarrow> (eval_metrics \<times> int \<times> ('h, 's, 'w) train_state) prog" where
  "train E w h =
     bindP (Some (read_config E w h)) (\<lambda>C.
     bindP (Some (open_sessions E w h (tc_out_dir C))) (\<lambda>(st, global_step).
     bindP (run_full_eval E st (tc_out_dir C) (tc_sample_src C) (tc_sample_tgt C) (tc_avg_ckpts C)) (\<lambda>(_, st).
     bindP (Some (before_train E st)) (\<lambda>(stats, info, st).
     bindP (train_loop E C \<lparr>ls_state = st, ls_global_step = global_step, ls_last_stats_step = global_step,
              ls_last_eval_step = global_step, ls_last_external_eval_step = global_step,
              ls_stats = stats, ls_info = info\<rparr>) (\<lambda>ls.
     bindP (Some (save_checkpoint E C (ls_global_step ls) (ls_state ls))) (\<lambda>st.
     bindP (run_full_eval E st (tc_out_dir C) (tc_sample_src C) (tc_sample_tgt C) (tc_avg_ckpts C))
       (\<lambda>((_, _, final_eval_metrics), st).
     bindP (eval_best_models E C st) (\<lambda>st.
     Some (Inr (final_eval_metrics, ls_global_step ls, st))))))))))"

section \<open>The states of the loop\<close>

inductive train_reach ::
    "('h, 's, 'w, 'a, 'd) train_env \<Rightarrow> train_config \<Rightarrow> ('h, 's, 'w) loop_state \<Rightarrow> ('h, 's, 'w) loop_state \<Rightarrow> bool"
  for E C ls0 where
    start: "train_reach E C ls0 ls0"
  | pass: "train_reach E C ls0 ls \<Longrightarrow> ls_global_step ls < tc_num_train_steps C
      \<Longrightarrow> train_body E C ls = Some (Inr (ls', False)) \<Longrightarrow> train_reach E C ls0 ls'"

lemma train_reach_trans: "train_reach E C b c \<Longrightarrow> train_reach E C a b \<Longrightarrow> train_reach E C a c"
  by (induction rule: train_reach.induct) (auto intro: train_reach.pass)

text \<open>
  A run of the loop goes through reachable states and leaves from one of them, because enough
  steps are done, because the pass stops it, or by an exception.
\<close>

definition loop_left ::
    "('h, 's, 'w, 'a, 'd) train_env \<Rightarrow> train_config \<Rightarrow> ('h, 's, 'w) loop_state \<Rightarrow> ('h, 's, 'w) loop_state res \<Rightarrow> bool" where
  "loop_left E C l r \<longleftrightarrow>
     (\<not> ls_global_step l < tc_num_train_steps C \<and> r = Inr l
      \<or> ls_global_step l < tc_num_train_steps C \<and> (\<exists>x. r = Inr x \<and> train_body E C l = Some (Inr (x, True)))
      \<or> (\<exists>e. r = Inl e))"

lemma train_loop_result:
  assumes "train_loop E C ls = Some r"
  shows "\<exists>last. train_reach E C ls last \<and> loop_left E C last r"
  using assms
proof (induction rule: train_loop.raw_induct[rotated 1, consumes 1, case_names step])
  case (step loop E C ls r)
  show ?case
  proof (cases "ls_global_step ls < tc_num_train_steps C \<and> (\<exists>ls1. train_body E C ls = Some (Inr (ls1, False)))")
    case True
    then obtain ls1 where body: "ls_global_step ls < tc_num_train_steps C" "train_body E C ls = Some (Inr (ls1, False))"
      by blast
    with step(2) have "loop E C ls1 = Some r" by simp
    from step(1)[OF this] obtain last where last: "train_reach E C ls1 last" "loop_left E C last r" by blast
    have "train_reach E C ls ls1" by (rule train_reach.pass[OF train_reach.start body])
    from train_reach_trans[OF last(1) this] last(2) show ?thesis by blast
  next
    case False
    with step(2) have "loop_left E C ls r"
      by (cases "train_body E C ls")
        (auto simp: loop_left_def bindP_def split: if_splits sum.splits prod.splits)
    then show ?thesis by (auto intro: train_reach.start)
  qed
qed

lemma train_loop_reach:
  assumes "train_loop E C ls = Some (Inr ls')"
  shows "\<exists>last. train_reach E C ls last \<and>
    (\<not> ls_global_step last < tc_num_train_steps C \<and> ls' = last
     \<or> ls_global_step last < tc_num_train_steps C \<and> train_body E C last = Some (Inr (ls', True)))"
  using train_loop_result[OF assms] by (auto simp: loop_left_def)

section \<open>What a pass changes\<close>

text \<open>
  \<open>improves A ms h h'\<close>: from \<open>h\<close> to \<open>h'\<close> only the position in the epoch and the best scores of
  the metrics \<open>ms\<close> may have changed, and no best score has got worse.
\<close>

definition improves :: "'h hparams_api \<Rightarrow> pystr list \<Rightarrow> 'h \<Rightarrow> 'h \<Rightarrow> bool" where
  "improves A ms h h' \<longleftrightarrow>
     (\<forall>k. k \<noteq> u ''epoch_step'' \<and> (\<forall>avg. k \<notin> best_label avg ` set ms) \<longrightarrow> hp_get A h' k = hp_get A h k) \<and>
     (\<forall>m \<in> set ms. \<forall>avg old. bindE (attr A h (best_label avg m)) float_value = Inr old \<longrightarrow>
        (\<exists>new \<ge> old. bindE (attr A h' (best_label avg m)) float_value = Inr new))"

lemma improves_refl: "improves A ms h h"
  by (auto simp: improves_def)

lemma improves_trans: "improves A ms h h1 \<Longrightarrow> improves A ms h1 h2 \<Longrightarrow> improves A ms h h2"
proof (unfold improves_def, intro conjI ballI allI impI, goal_cases)
  case (1 k)
  then show ?case by auto
next
  case (2 m avg old)
  then obtain mid where mid: "old \<le> mid" "bindE (attr A h1 (best_label avg m)) float_value = Inr mid" by blast
  with 2 obtain new where "mid \<le> new" "bindE (attr A h2 (best_label avg m)) float_value = Inr new" by blast
  with mid show ?case by (auto intro: order_trans)
qed

lemma best_label_other [simp]:
  "best_label avg m \<noteq> u ''epoch_step''" "u ''epoch_step'' \<noteq> best_label avg m"
  "best_label avg m \<noteq> u ''metrics''" "u ''metrics'' \<noteq> best_label avg m"
  "best_label True m \<noteq> best_label False m'" "best_label False m' \<noteq> best_label True m"
  by (auto simp: best_label_def u_def)

lemma improves_metrics:
  "improves A ms h h' \<Longrightarrow> bindE (attr A h (u ''metrics'')) str_list_value = r \<Longrightarrow>
   bindE (attr A h' (u ''metrics'')) str_list_value = r"
proof -
  assume i: "improves A ms h h'" and r: "bindE (attr A h (u ''metrics'')) str_list_value = r"
  have "u ''metrics'' \<noteq> u ''epoch_step''" "\<forall>avg. u ''metrics'' \<notin> best_label avg ` set ms" by auto
  with i have "hp_get A h' (u ''metrics'') = hp_get A h (u ''metrics'')" unfolding improves_def by blast
  with r show ?thesis by (simp add: attr_def)
qed

lemma improves_records: "records A (best_label avg) scores ms h h' \<Longrightarrow> improves A ms h h'"
  unfolding improves_def
proof (intro conjI ballI allI impI)
  assume r: "records A (best_label avg) scores ms h h'"
  { fix k assume "k \<noteq> u ''epoch_step'' \<and> (\<forall>avg. k \<notin> best_label avg ` set ms)"
    with r show "hp_get A h' k = hp_get A h k" by (simp add: records_def) }
  fix m avg' old
  assume m: "m \<in> set ms" and old: "bindE (attr A h (best_label avg' m)) float_value = Inr old"
  show "\<exists>new \<ge> old. bindE (attr A h' (best_label avg' m)) float_value = Inr new"
  proof (cases "avg' = avg")
    case True
    from r m obtain score old' where "bindE (attr A h (best_label avg m)) float_value = Inr old'"
      "hp_get A h' (best_label avg m) = better score old' (hp_get A h (best_label avg m))"
      unfolding records_def by blast
    with old True show ?thesis
      by (cases "score > old") (auto simp: better_def attr_def split: option.splits)
  next
    case False
    then have "best_label avg' m \<notin> best_label avg ` set ms" by (cases avg; cases avg') auto
    with r have "hp_get A h' (best_label avg' m) = hp_get A h (best_label avg' m)" by (simp add: records_def)
    with old show ?thesis by (auto simp: attr_def)
  qed
qed

text \<open>The passes, one component after the other.\<close>

definition goes_on ::
    "('h, 's, 'w, 'a, 'd) train_env \<Rightarrow> pystr list \<Rightarrow> ('h, 's, 'w) train_state \<Rightarrow> ('h, 's, 'w) train_state \<Rightarrow> bool" where
  "goes_on E ms st st' \<longleftrightarrow>
     bindE (attr (te_hparams E) (ts_hparams st) (u ''metrics'')) str_list_value = Inr ms \<longrightarrow>
     improves (te_hparams E) ms (ts_hparams st) (ts_hparams st')"

lemma goes_on_trans: "goes_on E ms st st1 \<Longrightarrow> goes_on E ms st1 st2 \<Longrightarrow> goes_on E ms st st2"
  unfolding goes_on_def using improves_trans improves_metrics by fast

lemma goes_on_same: "ts_hparams st' = ts_hparams st \<Longrightarrow> goes_on E ms st st'"
  by (simp add: goes_on_def improves_refl)

lemma goes_on_core: "same_core st st' \<Longrightarrow> goes_on E ms st st'"
  by (simp add: same_core_def goes_on_same)

lemma external_eval_goes_on:
  assumes "hparams_laws (te_hparams E)" "external_eval E st g data b tgt name save avg = Some (Inr (scores, st'))"
  shows "goes_on E ms st st' \<and> ts_train st' = ts_train st"
  using external_eval_result[OF assms] improves_records[of "te_hparams E" avg scores _ "ts_hparams st" "ts_hparams st'"]
  by (auto simp: goes_on_def improves_refl split: if_splits)

lemma run_external_eval_goes_on:
  assumes "hparams_laws (te_hparams E)" "run_external_eval E st d save test avg = Some (Inr (r, st'))"
  shows "goes_on E ms st st' \<and> ts_train st' = ts_train st"
proof -
  from assms(2) obtain sess step data b tgt st1 dev where
    1: "external_eval E (st\<lparr>ts_infer := sess\<rparr>) step data b tgt (u ''dev'') save avg = Some (Inr (dev, st1))"
    and 2: "st' = st1 \<or> (\<exists>data tgt sc. external_eval E st1 step data b tgt (u ''test'') False avg = Some (Inr (sc, st')))"
    unfolding run_external_eval_def Let_def by (fastforce elim!: bindP_InrE split: prod.splits if_splits)
  have "goes_on E ms st (st\<lparr>ts_infer := sess\<rparr>)" by (rule goes_on_same) simp
  with external_eval_goes_on[OF assms(1) 1, of ms] have a: "goes_on E ms st st1" "ts_train st1 = ts_train st"
    by (auto intro: goes_on_trans)
  from 2 show ?thesis
  proof
    assume "\<exists>data tgt sc. external_eval E st1 step data b tgt (u ''test'') False avg = Some (Inr (sc, st'))"
    then obtain data tgt sc where "external_eval E st1 step data b tgt (u ''test'') False avg = Some (Inr (sc, st'))" by blast
    from external_eval_goes_on[OF assms(1) this, of ms] a show ?thesis by (auto intro: goes_on_trans)
  qed (use a in simp)
qed

lemma run_avg_external_eval_goes_on:
  assumes "hparams_laws (te_hparams E)" "run_avg_external_eval E st d g = Some (Inr (r, st'))"
  shows "goes_on E ms st st' \<and> ts_train st' = ts_train st"
proof -
  from assms(2) obtain w where "st' = st \<or> st' = st\<lparr>ts_files := w\<rparr>
      \<or> (\<exists>d x. run_external_eval E (st\<lparr>ts_files := w\<rparr>) d True True True = Some (Inr (x, st')))"
    unfolding run_avg_external_eval_def Let_def by (fastforce elim!: bindP_InrE split: prod.splits if_splits)
  then show ?thesis
  proof (elim disjE exE)
    fix d x assume "run_external_eval E (st\<lparr>ts_files := w\<rparr>) d True True True = Some (Inr (x, st'))"
    from run_external_eval_goes_on[OF assms(1) this, of ms]
    have "goes_on E ms (st\<lparr>ts_files := w\<rparr>) st'" "ts_train st' = ts_train st" by auto
    moreover have "goes_on E ms st (st\<lparr>ts_files := w\<rparr>)" by (rule goes_on_same) simp
    ultimately show ?thesis by (blast intro: goes_on_trans)
  qed (simp_all add: goes_on_same)
qed

lemma run_sample_decode_goes_on:
  assumes "run_sample_decode E st d src tgt = Inr st'"
  shows "goes_on E ms st st' \<and> ts_train st' = ts_train st"
  using okE_D[OF run_sample_decode_same assms] goes_on_core by (auto simp: same_core_def)

lemma run_internal_eval_goes_on:
  assumes "run_internal_eval E st d t = Some (Inr (r, st'))"
  shows "goes_on E ms st st' \<and> ts_train st' = ts_train st"
  using okP_D[OF run_internal_eval_same assms] goes_on_core by (auto simp: same_core_def)

lemma external_round_goes_on:
  assumes "hparams_laws (te_hparams E)" "external_round E C g st = Some (Inr st')"
  shows "goes_on E ms st st' \<and> ts_train st' = ts_train st"
proof -
  from assms(2) obtain st1 st2 x where
    1: "run_sample_decode E st (tc_out_dir C) (tc_sample_src C) (tc_sample_tgt C) = Inr st1"
    and 2: "run_external_eval E st1 (tc_out_dir C) True True False = Some (Inr (x, st2))"
    and 3: "st' = st2 \<or> (\<exists>y. run_avg_external_eval E st2 (tc_out_dir C) g = Some (Inr (y, st')))"
    unfolding external_round_def by (fastforce elim!: bindP_InrE split: prod.splits if_splits)
  from run_sample_decode_goes_on[OF 1, of ms] run_external_eval_goes_on[OF assms(1) 2, of ms]
  have "goes_on E ms st st2" "ts_train st2 = ts_train st" by (auto intro: goes_on_trans)
  with 3 run_avg_external_eval_goes_on[OF assms(1), of st2 "tc_out_dir C" g _ st' ms]
  show ?thesis by (auto intro: goes_on_trans)
qed

lemma set_epoch_step_goes_on:
  assumes "hparams_laws (te_hparams E)"
  shows "goes_on E ms st (set_epoch_step (te_hparams E) n st)"
  by (auto simp: goes_on_def improves_def set_epoch_step_def hparams_laws.get_set[OF assms] attr_def)

lemma set_epoch_step_train [simp]: "ts_train (set_epoch_step A n st) = ts_train st"
  by (simp add: set_epoch_step_def)

lemma finish_epoch_result:
  assumes "hparams_laws (te_hparams E)" "finish_epoch E C ls = Some (Inr ls')"
  shows "goes_on E ms (ls_state ls) (ls_state ls')
    \<and> te_start_train E (ts_train (ls_state ls)) 0 = Inr (ts_train (ls_state ls'))
    \<and> ls' = ls\<lparr>ls_state := ls_state ls'\<rparr>"
proof -
  let ?st = "set_epoch_step (te_hparams E) 0 (ls_state ls)"
  from assms(2) obtain st1 sess where 1: "external_round E C (ls_global_step ls) ?st = Some (Inr st1)"
    and 2: "te_start_train E (ts_train st1) 0 = Inr sess" "ls' = ls\<lparr>ls_state := st1\<lparr>ts_train := sess\<rparr>\<rparr>"
    unfolding finish_epoch_def Let_def by (fastforce elim!: bindP_InrE)
  from external_round_goes_on[OF assms(1) 1, of ms]
  have r: "goes_on E ms ?st st1" "ts_train st1 = ts_train (ls_state ls)" by auto
  have "goes_on E ms st1 (st1\<lparr>ts_train := sess\<rparr>)" by (rule goes_on_same) simp
  with set_epoch_step_goes_on[OF assms(1)] r(1) have "goes_on E ms (ls_state ls) (st1\<lparr>ts_train := sess\<rparr>)"
    by (blast intro: goes_on_trans)
  with 2 r(2) show ?thesis by simp
qed

lemma after_step_result:
  assumes "hparams_laws (te_hparams E)" "after_step E out t ls = Inr ls'"
  shows "goes_on E ms (ls_state ls) (ls_state ls') \<and> ls_global_step ls' = to_global_step out
    \<and> ts_train (ls_state ls') = ts_train (ls_state ls)
    \<and> ls_last_stats_step ls' = ls_last_stats_step ls \<and> ls_last_eval_step ls' = ls_last_eval_step ls
    \<and> ls_last_external_eval_step ls' = ls_last_external_eval_step ls"
proof -
  have w: "goes_on E ms st (write_event g e st)" for g e st
    by (rule goes_on_same) simp
  from assms(2) show ?thesis
    using goes_on_trans[where ms = ms, OF set_epoch_step_goes_on[OF assms(1)] w]
    by (auto simp: after_step_def bindE_Inr_iff update_stats_def Let_def)
qed

lemma stats_round_result:
  assumes "stats_round E C ls = Inr (ls', stop)"
  shows "ls_state ls' = ls_state ls \<and> ls_global_step ls' = ls_global_step ls
    \<and> ls_last_eval_step ls' = ls_last_eval_step ls \<and> ls_last_external_eval_step ls' = ls_last_external_eval_step ls
    \<and> ls_last_stats_step ls' = (if ls_global_step ls - ls_last_stats_step ls \<ge> tc_steps_per_stats C
         then ls_global_step ls else ls_last_stats_step ls)
    \<and> (stop \<longrightarrow> is_overflow (in_train_ppl (ls_info ls')))"
  using assms by (auto simp: stats_round_def process_stats_def bindE_Inr_iff Let_def split: if_splits)

lemma add_info_summaries_simps [simp]:
  "ts_hparams (add_info_summaries g info st) = ts_hparams st" "ts_train (add_info_summaries g info st) = ts_train st"
  by (simp_all add: add_info_summaries_def)

lemma save_checkpoint_simps:
  "save_checkpoint E C g st = Inr st' \<Longrightarrow> ts_hparams st' = ts_hparams st \<and> ts_train st' = ts_train st"
  by (auto simp: save_checkpoint_def bindE_Inr_iff)

lemma eval_round_result:
  assumes "eval_round E C ls = Some (Inr ls')"
  shows "goes_on E ms (ls_state ls) (ls_state ls') \<and> ts_train (ls_state ls') = ts_train (ls_state ls)
    \<and> ls_global_step ls' = ls_global_step ls
    \<and> ls_last_stats_step ls' = ls_last_stats_step ls \<and> ls_last_external_eval_step ls' = ls_last_external_eval_step ls
    \<and> ls_last_eval_step ls' = (if ls_global_step ls - ls_last_eval_step ls \<ge> tc_steps_per_eval C
         then ls_global_step ls else ls_last_eval_step ls)"
proof (cases "ls_global_step ls - ls_last_eval_step ls \<ge> tc_steps_per_eval C")
  case False
  with assms show ?thesis by (auto simp: eval_round_def goes_on_same)
next
  case True
  let ?st = "add_info_summaries (ls_global_step ls) (ls_info ls) (ls_state ls)"
  from assms True obtain st1 st2 st3 x where
    1: "save_checkpoint E C (ls_global_step ls) ?st = Inr st1"
    and 2: "run_sample_decode E st1 (tc_out_dir C) (tc_sample_src C) (tc_sample_tgt C) = Inr st2"
    and 3: "run_internal_eval E st2 (tc_out_dir C) True = Some (Inr (x, st3))"
    and ls': "ls' = ls\<lparr>ls_last_eval_step := ls_global_step ls, ls_state := st3\<rparr>"
    unfolding eval_round_def Let_def by (fastforce elim!: bindP_InrE split: prod.splits)
  from save_checkpoint_simps[OF 1] have "goes_on E ms (ls_state ls) st1" "ts_train st1 = ts_train (ls_state ls)"
    by (auto intro: goes_on_same)
  with run_sample_decode_goes_on[OF 2, of ms] run_internal_eval_goes_on[OF 3, of ms] ls' True
  show ?thesis by (auto intro: goes_on_trans)
qed

lemma external_eval_round_result:
  assumes "hparams_laws (te_hparams E)" "external_eval_round E C ls = Some (Inr ls')"
  shows "goes_on E ms (ls_state ls) (ls_state ls') \<and> ts_train (ls_state ls') = ts_train (ls_state ls)
    \<and> ls_global_step ls' = ls_global_step ls
    \<and> ls_last_stats_step ls' = ls_last_stats_step ls \<and> ls_last_eval_step ls' = ls_last_eval_step ls
    \<and> ls_last_external_eval_step ls' = (if ls_global_step ls - ls_last_external_eval_step ls \<ge> tc_steps_per_external_eval C
         then ls_global_step ls else ls_last_external_eval_step ls)"
proof (cases "ls_global_step ls - ls_last_external_eval_step ls \<ge> tc_steps_per_external_eval C")
  case False
  with assms show ?thesis by (auto simp: external_eval_round_def goes_on_same)
next
  case True
  from assms(2) True obtain st1 st2 where
    1: "save_checkpoint E C (ls_global_step ls) (ls_state ls) = Inr st1"
    and 2: "external_round E C (ls_global_step ls) st1 = Some (Inr st2)"
    and ls': "ls' = ls\<lparr>ls_last_external_eval_step := ls_global_step ls, ls_state := st2\<rparr>"
    unfolding external_eval_round_def Let_def by (fastforce elim!: bindP_InrE)
  from save_checkpoint_simps[OF 1] have "goes_on E ms (ls_state ls) st1" "ts_train st1 = ts_train (ls_state ls)"
    by (auto intro: goes_on_same)
  with external_round_goes_on[OF assms(1) 2, of ms] ls' True show ?thesis by (auto intro: goes_on_trans)
qed

text \<open>When the periods were last met: the distance of the global step to the last round.\<close>

definition on_schedule :: "train_config \<Rightarrow> ('h, 's, 'w) loop_state \<Rightarrow> bool" where
  "on_schedule C ls \<longleftrightarrow>
     ls_global_step ls - ls_last_stats_step ls < max 1 (tc_steps_per_stats C) \<and>
     ls_global_step ls - ls_last_eval_step ls < max 1 (tc_steps_per_eval C) \<and>
     ls_global_step ls - ls_last_external_eval_step ls < max 1 (tc_steps_per_external_eval C)"

text \<open>A pass, whole: the end of an epoch, a step that overflows, or a step with its rounds.\<close>

lemma train_body_result:
  assumes "hparams_laws (te_hparams E)" "train_body E C ls = Some (Inr (ls', stop))"
  shows "goes_on E ms (ls_state ls) (ls_state ls')
    \<and> (on_schedule C ls \<and> \<not> stop \<longrightarrow> on_schedule C ls')
    \<and> (case te_train E (ts_train (ls_state ls)) of
         TrainEnd sess \<Rightarrow> \<not> stop \<and> ls_global_step ls' = ls_global_step ls
           \<and> te_start_train E sess 0 = Inr (ts_train (ls_state ls'))
       | Trained out t sess \<Rightarrow> ls_global_step ls' = to_global_step out \<and> ts_train (ls_state ls') = sess
           \<and> (stop \<longrightarrow> is_overflow (in_train_ppl (ls_info ls'))))"
proof (cases "te_train E (ts_train (ls_state ls))")
  case (TrainEnd sess)
  let ?ls = "ls\<lparr>ls_state := (ls_state ls)\<lparr>ts_train := sess\<rparr>\<rparr>"
  from assms(2) TrainEnd have fin: "finish_epoch E C ?ls = Some (Inr ls')" "\<not> stop"
    by (auto simp: train_body_def elim!: bindP_InrE)
  have "goes_on E ms (ls_state ls) (ls_state ?ls)" by (rule goes_on_same) simp
  moreover note f = finish_epoch_result[OF assms(1) fin(1), of ms]
  ultimately have "goes_on E ms (ls_state ls) (ls_state ls')" by (blast intro: goes_on_trans)
  moreover from f have eq: "ls' = ?ls\<lparr>ls_state := ls_state ls'\<rparr>" by blast
  have "ls_global_step ls' = ls_global_step ls" "ls_last_stats_step ls' = ls_last_stats_step ls"
    "ls_last_eval_step ls' = ls_last_eval_step ls" "ls_last_external_eval_step ls' = ls_last_external_eval_step ls"
    by (subst eq, simp)+
  ultimately show ?thesis using f fin(2) TrainEnd by (simp add: on_schedule_def)
next
  case (Trained out t sess)
  let ?ls = "ls\<lparr>ls_state := (ls_state ls)\<lparr>ts_train := sess\<rparr>\<rparr>"
  from assms(2) Trained obtain ls1 ls2 where
    1: "after_step E out t ?ls = Inr ls1" and 2: "stats_round E C ls1 = Inr (ls2, stop)"
    and 3: "if stop then ls' = ls2 else (\<exists>ls3. eval_round E C ls2 = Some (Inr ls3) \<and> external_eval_round E C ls3 = Some (Inr ls'))"
    unfolding train_body_def by (fastforce elim!: bindP_InrE split: prod.splits if_splits)
  note r1 = after_step_result[OF assms(1) 1, of ms] and r2 = stats_round_result[OF 2]
  have "goes_on E ms (ls_state ls) (ls_state ?ls)" by (rule goes_on_same) simp
  with r1 r2 have g: "goes_on E ms (ls_state ls) (ls_state ls2)" by (auto intro: goes_on_trans)
  show ?thesis
  proof (cases stop)
    case True
    with 3 g r1 r2 Trained show ?thesis by auto
  next
    case False
    with 3 obtain ls3 where 4: "eval_round E C ls2 = Some (Inr ls3)" and 5: "external_eval_round E C ls3 = Some (Inr ls')"
      by auto
    note r4 = eval_round_result[OF 4, of ms] and r5 = external_eval_round_result[OF assms(1) 5, of ms]
    have "goes_on E ms (ls_state ls) (ls_state ls')" using g r4 r5 by (blast intro: goes_on_trans)
    moreover have "on_schedule C ls'" using r1 r2 r4 r5 by (auto simp: on_schedule_def)
    ultimately show ?thesis using r1 r2 r4 r5 False Trained by simp
  qed
qed

text \<open>
  What the rounds do besides: an internal evaluation of the step \<open>g\<close> saves the training session
  as the checkpoint of that step, evaluates on the dev set the model that it then finds in the
  output directory, and logs the training perplexity of the last statistics and the perplexity of
  the dev set; an external evaluation from the files \<open>w\<close> decodes the dev set with the model found
  there and, for a trained model, logs the scores of all metrics.
\<close>

definition checkpoint_of ::
    "('h, 's, 'w, 'a, 'd) train_env \<Rightarrow> train_config \<Rightarrow> int \<Rightarrow> ('h, 's, 'w) train_state \<Rightarrow> 'w res" where
  "checkpoint_of E C g st =
     te_save E (ts_files st) (ts_train st) (path_join (tc_out_dir C) (u ''translate.ckpt'')) g"

definition internal_eval_done ::
    "('h, 's, 'w, 'a, 'd) train_env \<Rightarrow> train_config \<Rightarrow> train_info \<Rightarrow> int \<Rightarrow> ('h, 's, 'w) train_state
     \<Rightarrow> ('h, 's, 'w) train_state \<Rightarrow> bool" where
  "internal_eval_done E C info g st st' \<longleftrightarrow>
     (\<exists>w sess step src tgt sess1 ppl sess2.
        checkpoint_of E C g st = Inr w
      \<and> create_or_load_model (te_models E) w (tc_out_dir C) (ts_eval st) = Inr (sess, step)
      \<and> data_file (te_hparams E) (ts_hparams st) ''dev_prefix'' ''src'' = Inr src
      \<and> data_file (te_hparams E) (ts_hparams st) ''dev_prefix'' ''tgt'' = Inr tgt
      \<and> te_start_eval E sess src tgt = Inr sess1
      \<and> compute_perplexity (te_eval E) sess1 = Some (Inr (ppl, sess2))
      \<and> (ts_writer st, g, Scalar (u ''train_ppl'') (in_train_ppl info)) \<in> logged st st'
      \<and> (ts_writer st, step, Scalar (u ''dev_ppl'') ppl) \<in> logged st st')"

definition external_eval_done ::
    "('h, 's, 'w, 'a, 'd) train_env \<Rightarrow> train_config \<Rightarrow> 'w \<Rightarrow> ('h, 's, 'w) train_state
     \<Rightarrow> ('h, 's, 'w) train_state \<Rightarrow> bool" where
  "external_eval_done E C w st st' \<longleftrightarrow>
     (\<exists>infer sess step src tgt data batch_size st1 st2 scores.
        create_or_load_model (te_models E) w (tc_out_dir C) infer = Inr (sess, step)
      \<and> data_file (te_hparams E) (ts_hparams st) ''dev_prefix'' ''src'' = Inr src
      \<and> data_file (te_hparams E) (ts_hparams st) ''dev_prefix'' ''tgt'' = Inr tgt
      \<and> load_data (te_files E) w src [] = Inr data
      \<and> ts_infer st1 = sess \<and> ts_files st1 = w \<and> ts_hparams st1 = ts_hparams st
      \<and> external_eval E st1 step data batch_size tgt (u ''dev'') True False = Some (Inr (scores, st2))
      \<and> (step > 0 \<longrightarrow> (\<exists>metrics.
            bindE (attr (te_hparams E) (ts_hparams st) (u ''metrics'')) str_list_value = Inr metrics
          \<and> (\<forall>m \<in> set metrics. \<exists>score. scores m = Some score
              \<and> (ts_writer st, step, Scalar (u ''dev_'' @ m) (Finite score)) \<in> logged st st'))))"

text \<open>
  The rounds of a pass, from the loop state \<open>ls\<close> to \<open>ls'\<close>: after a training step each evaluation
  takes place if its period is over and only then, the internal one first, and the step itself
  logs just its summary; at the end of an epoch there is an external evaluation of the files as
  they are.
\<close>

definition pass_rounds ::
    "('h, 's, 'w, 'a, 'd) train_env \<Rightarrow> train_config \<Rightarrow> ('h, 's, 'w) loop_state \<Rightarrow> ('h, 's, 'w) loop_state \<Rightarrow> bool" where
  "pass_rounds E C ls ls' \<longleftrightarrow>
     (case te_train E (ts_train (ls_state ls)) of
        TrainEnd sess \<Rightarrow> external_eval_done E C (ts_files (ls_state ls))
          (set_epoch_step (te_hparams E) 0 (ls_state ls)) (ls_state ls')
      | Trained out t sess \<Rightarrow>
          \<exists>st mid. let g = to_global_step out
            in ls_global_step ls' = g \<and> ts_files st = ts_files (ls_state ls) \<and> ts_train st = sess
             \<and> ts_writer st = ts_writer (ls_state ls)
             \<and> ts_events st = ts_events (ls_state ls) @ [(ts_writer st, g, Serialized (to_summary out))]
             \<and> (if g - ls_last_eval_step ls \<ge> tc_steps_per_eval C
                then internal_eval_done E C (ls_info ls') g st mid else mid = st)
             \<and> (if g - ls_last_external_eval_step ls \<ge> tc_steps_per_external_eval C
                then \<exists>w. checkpoint_of E C g mid = Inr w \<and> external_eval_done E C w mid (ls_state ls')
                else ls_state ls' = mid))"

lemma external_round_done:
  assumes "external_round E C g st = Some (Inr st')"
  shows "external_eval_done E C (ts_files st) st st' \<and> logs_on st st'"
proof -
  from assms obtain st1 st2 x where
    1: "run_sample_decode E st (tc_out_dir C) (tc_sample_src C) (tc_sample_tgt C) = Inr st1"
    and 2: "run_external_eval E st1 (tc_out_dir C) True True False = Some (Inr (x, st2))"
    and 3: "st' = st2 \<or> (\<exists>y. run_avg_external_eval E st2 (tc_out_dir C) g = Some (Inr (y, st')))"
    unfolding external_round_def by (fastforce elim!: bindP_InrE split: prod.splits if_splits)
  from okE_D[OF run_sample_decode_same 1] okE_D[OF run_sample_decode_logs 1]
  have st1: "ts_hparams st1 = ts_hparams st" "ts_files st1 = ts_files st" "logs_on st st1"
    by (simp_all add: same_core_def)
  from 2 obtain sess step src tgt data batch_size st2a scores where
    parts: "create_or_load_model (te_models E) (ts_files st) (tc_out_dir C) (ts_infer st1) = Inr (sess, step)"
      "data_file (te_hparams E) (ts_hparams st) ''dev_prefix'' ''src'' = Inr src"
      "data_file (te_hparams E) (ts_hparams st) ''dev_prefix'' ''tgt'' = Inr tgt"
      "load_data (te_files E) (ts_files st) src [] = Inr data"
    and run: "external_eval E (st1\<lparr>ts_infer := sess\<rparr>) step data batch_size tgt (u ''dev'') True False
      = Some (Inr (scores, st2a))"
    and rest: "st2 = st2a \<or> (\<exists>data tgt sc. external_eval E st2a step data batch_size tgt (u ''test'') False False
      = Some (Inr (sc, st2)))"
    unfolding run_external_eval_def Let_def st1(1,2) by (fastforce elim!: bindP_InrE split: prod.splits if_splits)
  let ?st = "st1\<lparr>ts_infer := sess\<rparr>"
  have a: "logs_on st ?st" using st1(3) by (simp add: logs_on_def)
  have b: "logs_on ?st st2a" using external_eval_logs[OF run] by blast
  have "logs_on st2a st2" using rest external_eval_logs[of E st2a step _ batch_size _ "u ''test''" False False _ st2] by blast
  moreover have "logs_on st2 st'" using 3 run_avg_external_eval_logs[of E st2 "tc_out_dir C" g _ st'] by blast
  ultimately have c: "logs_on st2a st'" by (rule logs_on_trans)
  have "step > 0 \<longrightarrow> (\<exists>metrics.
      bindE (attr (te_hparams E) (ts_hparams st) (u ''metrics'')) str_list_value = Inr metrics
      \<and> (\<forall>m \<in> set metrics. \<exists>score. scores m = Some score
          \<and> (ts_writer st, step, Scalar (u ''dev_'' @ m) (Finite score)) \<in> logged st st'))"
    using external_eval_logs[OF run] logged_within[OF a b c] a st1(1) by (simp add: logs_on_def u_def) metis
  with parts run st1 have "external_eval_done E C (ts_files st) st st'"
    unfolding external_eval_done_def
    by (intro exI[of _ "ts_infer st1"] exI[of _ sess] exI[of _ step] exI[of _ src] exI[of _ tgt] exI[of _ data]
        exI[of _ batch_size] exI[of _ ?st] exI[of _ st2a] exI[of _ scores]) simp
  with logs_on_trans[OF a logs_on_trans[OF b c]] show ?thesis by blast
qed

lemma eval_round_done:
  assumes "eval_round E C ls = Some (Inr ls')" "ls_global_step ls - ls_last_eval_step ls \<ge> tc_steps_per_eval C"
  shows "internal_eval_done E C (ls_info ls') (ls_global_step ls) (ls_state ls) (ls_state ls')"
proof -
  let ?g = "ls_global_step ls" and ?st = "ls_state ls"
  let ?sum = "add_info_summaries ?g (ls_info ls) ?st"
  from assms obtain st1 st2 st3 x where
    1: "save_checkpoint E C ?g ?sum = Inr st1"
    and 2: "run_sample_decode E st1 (tc_out_dir C) (tc_sample_src C) (tc_sample_tgt C) = Inr st2"
    and 3: "run_internal_eval E st2 (tc_out_dir C) True = Some (Inr (x, st3))"
    and ls': "ls' = ls\<lparr>ls_last_eval_step := ?g, ls_state := st3\<rparr>"
    unfolding eval_round_def Let_def by (fastforce elim!: bindP_InrE split: prod.splits)
  have sum: "logs_on ?st ?sum" "(ts_writer ?st, ?g, Scalar (u ''train_ppl'') (in_train_ppl (ls_info ls))) \<in> logged ?st ?sum"
    "ts_files ?sum = ts_files ?st" "ts_hparams ?sum = ts_hparams ?st" "ts_eval ?sum = ts_eval ?st" "ts_train ?sum = ts_train ?st"
    by (auto simp: add_info_summaries_def logs_on_def logged_def add_summary_def write_event_def)
  from 1 obtain w where w: "checkpoint_of E C ?g ?st = Inr w" "st1 = ?sum\<lparr>ts_files := w\<rparr>"
    by (auto simp: save_checkpoint_def checkpoint_of_def bindE_Inr_iff sum)
  from okE_D[OF run_sample_decode_same 2] okE_D[OF run_sample_decode_logs 2] w(2) sum
  have st2: "ts_hparams st2 = ts_hparams ?st" "ts_files st2 = w" "ts_eval st2 = ts_eval ?st" "logs_on st1 st2"
    by (simp_all add: same_core_def)
  have a: "logs_on ?sum st2" using st2(4) w(2) by (simp add: logs_on_def)
  note int = run_internal_eval_logs[OF 3, unfolded st2(1-3)]
  have b: "logs_on st2 st3" using int by blast
  from int obtain sess step src tgt st3a where
    parts: "create_or_load_model (te_models E) w (tc_out_dir C) (ts_eval ?st) = Inr (sess, step)"
      "data_file (te_hparams E) (ts_hparams ?st) ''dev_prefix'' ''src'' = Inr src"
      "data_file (te_hparams E) (ts_hparams ?st) ''dev_prefix'' ''tgt'' = Inr tgt"
    and run: "internal_eval E (st2\<lparr>ts_eval := sess\<rparr>) step src tgt (u ''dev'') = Some (Inr (fst x, st3a))"
    and dev: "(ts_writer st2, step, Scalar (u ''dev_ppl'') (fst x)) \<in> logged st2 st3" by blast
  from run obtain sess1 sess2 where "te_start_eval E sess src tgt = Inr sess1"
    "compute_perplexity (te_eval E) sess1 = Some (Inr (fst x, sess2))"
    unfolding internal_eval_def by (fastforce elim!: bindP_InrE split: prod.splits)
  moreover have "(ts_writer ?st, ?g, Scalar (u ''train_ppl'') (in_train_ppl (ls_info ls))) \<in> logged ?st st3"
    by (rule logged_within[OF logs_on_refl sum(1) logs_on_trans[OF a b] sum(2)])
  moreover have "(ts_writer ?st, step, Scalar (u ''dev_ppl'') (fst x)) \<in> logged ?st st3"
    using logged_within[OF logs_on_trans[OF sum(1) a] b logs_on_refl dev] sum(1) a by (simp add: logs_on_def)
  ultimately show ?thesis unfolding internal_eval_done_def ls' using w(1) parts by auto
qed

lemma external_eval_round_done:
  assumes "external_eval_round E C ls = Some (Inr ls')"
    and "ls_global_step ls - ls_last_external_eval_step ls \<ge> tc_steps_per_external_eval C"
  shows "\<exists>w. checkpoint_of E C (ls_global_step ls) (ls_state ls) = Inr w \<and> external_eval_done E C w (ls_state ls) (ls_state ls')"
proof -
  from assms obtain st1 st2 where
    1: "save_checkpoint E C (ls_global_step ls) (ls_state ls) = Inr st1"
    and 2: "external_round E C (ls_global_step ls) st1 = Some (Inr st2)"
    and ls': "ls' = ls\<lparr>ls_last_external_eval_step := ls_global_step ls, ls_state := st2\<rparr>"
    unfolding external_eval_round_def Let_def by (fastforce elim!: bindP_InrE)
  from 1 obtain w where "checkpoint_of E C (ls_global_step ls) (ls_state ls) = Inr w" "st1 = (ls_state ls)\<lparr>ts_files := w\<rparr>"
    by (auto simp: save_checkpoint_def checkpoint_of_def bindE_Inr_iff)
  with external_round_done[OF 2] ls' show ?thesis by (simp add: external_eval_done_def logged_def)
qed

lemma round_not_due:
  "\<not> ls_global_step ls - ls_last_eval_step ls \<ge> tc_steps_per_eval C \<Longrightarrow> eval_round E C ls = Some (Inr ls)"
  "\<not> ls_global_step ls - ls_last_external_eval_step ls \<ge> tc_steps_per_external_eval C \<Longrightarrow>
   external_eval_round E C ls = Some (Inr ls)"
  by (simp_all add: eval_round_def external_eval_round_def)

lemma rounds_keep_info:
  "eval_round E C ls = Some (Inr ls') \<Longrightarrow> ls_info ls' = ls_info ls"
  "external_eval_round E C ls = Some (Inr ls') \<Longrightarrow> ls_info ls' = ls_info ls"
  by (auto simp: eval_round_def external_eval_round_def Let_def elim!: bindP_InrE split: if_splits prod.splits)

lemma train_body_rounds:
  assumes "hparams_laws (te_hparams E)" "train_body E C ls = Some (Inr (ls', False))"
  shows "pass_rounds E C ls ls'"
proof (cases "te_train E (ts_train (ls_state ls))")
  case (TrainEnd sess)
  let ?st = "(ls_state ls)\<lparr>ts_train := sess\<rparr>"
  from assms(2) TrainEnd obtain st1 sess1 where
    1: "external_round E C (ls_global_step ls) (set_epoch_step (te_hparams E) 0 ?st) = Some (Inr st1)"
    and 2: "ls_state ls' = st1\<lparr>ts_train := sess1\<rparr>"
    by (auto simp: train_body_def finish_epoch_def Let_def elim!: bindP_InrE)
  from external_round_done[OF 1] 2 TrainEnd show ?thesis
    by (simp add: pass_rounds_def external_eval_done_def logged_def set_epoch_step_def)
next
  case (Trained out t sess)
  let ?ls = "ls\<lparr>ls_state := (ls_state ls)\<lparr>ts_train := sess\<rparr>\<rparr>"
  from assms(2) Trained obtain ls1 ls2 ls3 where
    1: "after_step E out t ?ls = Inr ls1" and 2: "stats_round E C ls1 = Inr (ls2, False)"
    and 3: "eval_round E C ls2 = Some (Inr ls3)" "external_eval_round E C ls3 = Some (Inr ls')"
    unfolding train_body_def by (fastforce elim!: bindP_InrE split: prod.splits if_splits)
  note r1 = after_step_result[OF assms(1) 1, of "[]"] and r2 = stats_round_result[OF 2]
    and r3 = eval_round_result[OF 3(1), of "[]"] and r4 = external_eval_round_result[OF assms(1) 3(2), of "[]"]
  let ?st = "ls_state ls2" and ?mid = "ls_state ls3"
  from 1 r2 have st: "ts_files ?st = ts_files (ls_state ls)" "ts_train ?st = sess" "ts_writer ?st = ts_writer (ls_state ls)"
    "ts_events ?st = ts_events (ls_state ls) @ [(ts_writer ?st, to_global_step out, Serialized (to_summary out))]"
    by (auto simp: after_step_def bindE_Inr_iff update_stats_def Let_def write_event_def set_epoch_step_def)
  have g: "ls_global_step ls2 = to_global_step out" "ls_global_step ls3 = to_global_step out" "ls_global_step ls' = to_global_step out"
    "ls_last_eval_step ls2 = ls_last_eval_step ls" "ls_last_external_eval_step ls3 = ls_last_external_eval_step ls"
    using r1 r2 r3 r4 by simp_all
  have info: "ls_info ls' = ls_info ls3" using rounds_keep_info(2)[OF 3(2)] .
  have int: "if to_global_step out - ls_last_eval_step ls \<ge> tc_steps_per_eval C
      then internal_eval_done E C (ls_info ls') (to_global_step out) ?st ?mid else ?mid = ?st"
    using eval_round_done[OF 3(1)] round_not_due(1)[where ls = ls2 and C = C and E = E] 3(1) by (auto simp: g info)
  have ext: "if to_global_step out - ls_last_external_eval_step ls \<ge> tc_steps_per_external_eval C
      then \<exists>w. checkpoint_of E C (to_global_step out) ?mid = Inr w \<and> external_eval_done E C w ?mid (ls_state ls')
      else ls_state ls' = ?mid"
    using external_eval_round_done[OF 3(2)] round_not_due(2)[where ls = ls3 and C = C and E = E] 3(2) by (auto simp: g)
  show ?thesis
    unfolding pass_rounds_def Trained trained.case Let_def
    by (rule exI[of _ ?st], rule exI[of _ ?mid]) (intro conjI g st int ext)
qed

lemma train_reach_goes_on:
  "train_reach E C ls0 ls \<Longrightarrow> hparams_laws (te_hparams E) \<Longrightarrow> goes_on E ms (ls_state ls0) (ls_state ls)"
proof (induction rule: train_reach.induct)
  case start
  then show ?case by (simp add: goes_on_same)
next
  case (pass ls ls')
  then show ?case using train_body_result[of E C ls ls' False ms] by (blast intro: goes_on_trans)
qed

section \<open>Termination\<close>

definition passes_left :: "('h, 's, 'w, 'a, 'd) train_env \<Rightarrow> train_config \<Rightarrow> ('h, 's, 'w) loop_state \<Rightarrow> nat" where
  "passes_left E C ls = 2 * nat (tc_num_train_steps C - ls_global_step ls)
     + (case te_train E (ts_train (ls_state ls)) of TrainEnd _ \<Rightarrow> 1 | Trained _ _ _ \<Rightarrow> 0)"

lemma pass_decreases:
  assumes "hparams_laws (te_hparams E)" "train_body E C ls = Some (Inr (ls', False))"
    and "ls_global_step ls < tc_num_train_steps C"
    and "\<And>out t s. te_train E (ts_train (ls_state ls)) = Trained out t s \<Longrightarrow> ls_global_step ls < to_global_step out"
    and "\<And>s s'. te_start_train E s 0 = Inr s' \<Longrightarrow> \<exists>out t s''. te_train E s' = Trained out t s''"
  shows "passes_left E C ls' < passes_left E C ls"
proof -
  note b = train_body_result[OF assms(1,2)]
  show ?thesis
  proof (cases "te_train E (ts_train (ls_state ls))")
    case (TrainEnd sess)
    with b have "te_start_train E sess 0 = Inr (ts_train (ls_state ls'))" "ls_global_step ls' = ls_global_step ls"
      by simp_all
    with assms(5) TrainEnd show ?thesis by (fastforce simp: passes_left_def)
  next
    case (Trained out t s)
    with b assms(4) have "ls_global_step ls < ls_global_step ls'" by simp
    then have "nat (tc_num_train_steps C - ls_global_step ls') < nat (tc_num_train_steps C - ls_global_step ls)"
      using assms(3) by linarith
    then have "2 * nat (tc_num_train_steps C - ls_global_step ls') + 1 < 2 * nat (tc_num_train_steps C - ls_global_step ls)"
      by linarith
    with Trained show ?thesis by (auto simp: passes_left_def split: trained.split)
  qed
qed

lemma train_loop_returns:
  assumes laws: "hparams_laws (te_hparams E)"
    and body: "\<And>ls. P ls \<Longrightarrow> ls_global_step ls < tc_num_train_steps C \<Longrightarrow>
      \<exists>ls' stop. train_body E C ls = Some (Inr (ls', stop)) \<and> P ls'"
    and advance: "\<And>ls out t s. P ls \<Longrightarrow> te_train E (ts_train (ls_state ls)) = Trained out t s \<Longrightarrow>
      ls_global_step ls < to_global_step out"
    and nonempty: "\<And>s s'. te_start_train E s 0 = Inr s' \<Longrightarrow> \<exists>out t s''. te_train E s' = Trained out t s''"
    and "P ls"
  shows "\<exists>ls'. train_loop E C ls = Some (Inr ls') \<and> P ls'
    \<and> (tc_num_train_steps C \<le> ls_global_step ls' \<or> is_overflow (in_train_ppl (ls_info ls')))"
  using \<open>P ls\<close>
proof (induction "passes_left E C ls" arbitrary: ls rule: less_induct)
  case less
  show ?case
  proof (cases "ls_global_step ls < tc_num_train_steps C")
    case False
    with less.prems show ?thesis by (intro exI[of _ ls]) (simp add: train_loop.simps)
  next
    case True
    from body[OF less.prems True] obtain ls1 stop where
      1: "train_body E C ls = Some (Inr (ls1, stop))" "P ls1" by blast
    show ?thesis
    proof (cases stop)
      case True
      with train_body_result[OF laws 1(1), of "[]"] have "is_overflow (in_train_ppl (ls_info ls1))"
        by (cases "te_train E (ts_train (ls_state ls))") auto
      with 1 True \<open>ls_global_step ls < _\<close> show ?thesis
        by (intro exI[of _ ls1]) (simp add: train_loop.simps)
    next
      case False
      with 1(1) have "train_body E C ls = Some (Inr (ls1, False))" by simp
      then have "passes_left E C ls1 < passes_left E C ls"
        by (rule pass_decreases[OF laws _ True]) (fact advance[OF less.prems], fact nonempty)
      from less.hyps[OF this 1(2)] obtain ls' where "train_loop E C ls1 = Some (Inr ls')" "P ls'"
        "tc_num_train_steps C \<le> ls_global_step ls' \<or> is_overflow (in_train_ppl (ls_info ls'))" by blast
      with 1 False \<open>ls_global_step ls < _\<close> show ?thesis
        by (intro exI[of _ ls']) (simp add: train_loop.simps[of E C ls])
    qed
  qed
qed

section \<open>Statistics over several steps\<close>

definition accumulate :: "(train_output \<times> real) list \<Rightarrow> train_stats \<Rightarrow> train_stats" where
  "accumulate outs stats = foldl (\<lambda>st (out, t). fst (update_stats st t out)) stats outs"

lemma accumulate_simps [simp]:
  "accumulate [] stats = stats"
  "accumulate ((out, t) # outs) stats = accumulate outs (fst (update_stats stats t out))"
  by (simp_all add: accumulate_def)

lemma accumulate_counts:
  "st_step_time (accumulate outs stats) = st_step_time stats + (\<Sum>(out, t) \<leftarrow> outs. t)
   \<and> st_predict_count (accumulate outs stats) = st_predict_count stats + (\<Sum>(out, t) \<leftarrow> outs. to_predict_count out)
   \<and> st_word_count (accumulate outs stats) = st_word_count stats + (\<Sum>(out, t) \<leftarrow> outs. to_word_count out)
   \<and> st_sequence_count (accumulate outs stats) = st_sequence_count stats + (\<Sum>(out, t) \<leftarrow> outs. to_batch_size out)"
proof (induction outs arbitrary: stats)
  case (Cons o1 outs)
  obtain out t where "o1 = (out, t)" by (cases o1)
  with Cons[of "fst (update_stats stats t out)"] show ?case by (simp add: update_stats_def Let_def)
qed simp

lemma accumulate_loss:
  "\<forall>(out, t) \<in> set outs. to_loss out = Finite (l out) \<Longrightarrow> st_train_loss stats = Finite a \<Longrightarrow>
   st_train_loss (accumulate outs stats) = Finite (a + (\<Sum>(out, t) \<leftarrow> outs. l out * real (to_batch_size out)))"
proof (induction outs arbitrary: stats a)
  case (Cons o1 outs)
  obtain out t where o1: "o1 = (out, t)" by (cases o1)
  with Cons.prems have "st_train_loss (fst (update_stats stats t out)) = Finite (a + l out * real (to_batch_size out))"
    by (simp add: update_stats_def Let_def)
  with Cons.IH[of "fst (update_stats stats t out)"] Cons.prems(1) o1 show ?case by (simp add: add.assoc)
qed simp

lemma accumulate_NaN:
  "st_train_loss stats = NaN \<or> (\<exists>(out, t) \<in> set outs. to_loss out = NaN) \<Longrightarrow> st_train_loss (accumulate outs stats) = NaN"
proof (induction outs arbitrary: stats)
  case (Cons o1 outs)
  obtain out t where o1: "o1 = (out, t)" by (cases o1)
  have "st_train_loss (fst (update_stats stats t out)) = NaN" if "st_train_loss stats = NaN \<or> to_loss out = NaN"
    using that by (auto simp: update_stats_def Let_def)
  with Cons.IH[of "fst (update_stats stats t out)"] Cons.prems o1 show ?case by auto
qed simp

lemma np_div_NaN: "np_div NaN y = NaN"
  by simp

section \<open>Properties\<close>

text \<open>
  C2. Training never loses a best score: over a whole run of the training loop, with all its
  evaluations of the dev and test sets and of averaged checkpoints, the recorded best score of
  every metric (also of the averaged checkpoints) only grows, and of the settings only these
  scores and the position in the epoch change.
\<close>

theorem train_loop_keeps_best:
  assumes "hparams_laws (te_hparams E)"
    and "bindE (attr (te_hparams E) (ts_hparams (ls_state ls)) (u ''metrics'')) str_list_value = Inr ms"
    and "train_loop E C ls = Some (Inr ls')"
  shows "improves (te_hparams E) ms (ts_hparams (ls_state ls)) (ts_hparams (ls_state ls'))"
proof -
  from train_loop_reach[OF assms(3)] obtain last where last: "train_reach E C ls last"
    "ls' = last \<or> train_body E C last = Some (Inr (ls', True))" by blast
  have "goes_on E ms (ls_state ls) (ls_state last)" by (rule train_reach_goes_on[OF last(1) assms(1)])
  moreover have "goes_on E ms (ls_state last) (ls_state ls')"
    using last(2) train_body_result[OF assms(1), of C last ls' True ms] by (auto simp: goes_on_same)
  ultimately have "goes_on E ms (ls_state ls) (ls_state ls')" by (rule goes_on_trans)
  with assms(2) show ?thesis by (simp add: goes_on_def)
qed


text \<open>
  C20. Training ends: if every pass that starts below the number of steps returns, every training
  step advances the global step, and a freshly started epoch is not empty, then the loop returns,
  and it does so with the number of steps reached or with the overflow that stops it early. The
  measure is twice the steps to go, plus one at the end of an epoch.
\<close>

theorem train_loop_terminates:
  assumes "hparams_laws (te_hparams E)"
    and "\<And>ls. P ls \<Longrightarrow> ls_global_step ls < tc_num_train_steps C \<Longrightarrow>
      \<exists>ls' stop. train_body E C ls = Some (Inr (ls', stop)) \<and> P ls'"
    and "\<And>ls out t s. P ls \<Longrightarrow> te_train E (ts_train (ls_state ls)) = Trained out t s \<Longrightarrow>
      ls_global_step ls < to_global_step out"
    and "\<And>s s'. te_start_train E s 0 = Inr s' \<Longrightarrow> \<exists>out t s''. te_train E s' = Trained out t s''"
    and "P ls"
  shows "\<exists>ls'. train_loop E C ls = Some (Inr ls') \<and> P ls'
    \<and> (tc_num_train_steps C \<le> ls_global_step ls' \<or> is_overflow (in_train_ppl (ls_info ls')))"
  by (rule train_loop_returns[OF assms])

text \<open>
  The statistics of the steps since the last report: for finite losses and a positive number of
  predicted words, the reported perplexity is the exponential of the loss weighted by the batch
  sizes over the number of words, and the averages are the totals over the period; a step with an
  undefined loss always counts as an overflow, and a period of zero raises \<open>ZeroDivisionError\<close>.
\<close>

theorem process_stats_values:
  assumes "n \<noteq> 0" and "0 < (\<Sum>(out, t) \<leftarrow> outs. to_predict_count out)"
  shows "\<exists>info'. process_stats (accumulate outs init_stats) info n = Inr (info', is_overflow (in_train_ppl info'))
    \<and> in_avg_step_time info' = (\<Sum>(out, t) \<leftarrow> outs. t) / real_of_int n
    \<and> in_avg_sequence_count info' = real (\<Sum>(out, t) \<leftarrow> outs. to_batch_size out) / real_of_int n
    \<and> in_learning_rate info' = in_learning_rate info
    \<and> ((\<forall>(out, t) \<in> set outs. to_loss out = Finite (l out)) \<longrightarrow>
        in_train_ppl info' = safe_exp (Finite ((\<Sum>(out, t) \<leftarrow> outs. l out * real (to_batch_size out))
          / real (\<Sum>(out, t) \<leftarrow> outs. to_predict_count out))))
    \<and> ((\<exists>(out, t) \<in> set outs. to_loss out = NaN) \<longrightarrow> is_overflow (in_train_ppl info'))
    \<and> process_stats (accumulate outs init_stats) info 0 = Inl ZeroDivisionError"
proof -
  let ?s = "accumulate outs init_stats"
  let ?ppl = "safe_exp (np_div (st_train_loss ?s) (real (st_predict_count ?s)))"
  note c = accumulate_counts[of outs init_stats]
  have count: "st_predict_count ?s = (\<Sum>(out, t) \<leftarrow> outs. to_predict_count out)"
    using c by (simp add: init_stats_def)
  have "?ppl = safe_exp (Finite ((\<Sum>(out, t) \<leftarrow> outs. l out * real (to_batch_size out))
      / real (\<Sum>(out, t) \<leftarrow> outs. to_predict_count out)))" if "\<forall>(out, t) \<in> set outs. to_loss out = Finite (l out)"
  proof -
    have "st_train_loss ?s = Finite (\<Sum>(out, t) \<leftarrow> outs. l out * real (to_batch_size out))"
      using accumulate_loss[OF that, of init_stats 0] by (simp add: init_stats_def)
    moreover have nz: "real (\<Sum>(out, t) \<leftarrow> outs. to_predict_count out) \<noteq> 0"
      using assms(2) by (simp only: of_nat_eq_0_iff neq0_conv)
    ultimately have "np_div (st_train_loss ?s) (real (st_predict_count ?s))
        = Finite ((\<Sum>(out, t) \<leftarrow> outs. l out * real (to_batch_size out)) / real (\<Sum>(out, t) \<leftarrow> outs. to_predict_count out))"
      by (simp only: count np_div.simps nz if_False)
    then show ?thesis by (rule arg_cong)
  qed
  moreover have "is_overflow ?ppl" if "\<exists>(out, t) \<in> set outs. to_loss out = NaN"
    using accumulate_NaN[of init_stats outs] that by (simp add: is_overflow_def safe_exp_def)
  ultimately show ?thesis
    using c assms(1) by (auto simp: process_stats_def Let_def init_stats_def)
qed

section \<open>A sample run\<close>

definition sample_config :: train_config where
  "sample_config = \<lparr>tc_out_dir = [111], tc_num_train_steps = 3, tc_steps_per_stats = 100, tc_steps_per_eval = 1000,
     tc_steps_per_external_eval = 5000, tc_avg_ckpts = False, tc_sample_src = [], tc_sample_tgt = []\<rparr>"

definition sample_info :: train_info where
  "sample_info = \<lparr>in_train_ppl = Finite 0, in_speed = Finite 0, in_avg_step_time = 0, in_avg_grad_norm = Finite 0,
     in_avg_sequence_count = 0, in_learning_rate = 1\<rparr>"

definition sample_loop :: "(dict_hp, nat, dict_fs) loop_state" where
  "sample_loop = \<lparr>ls_state = sample_train_state, ls_global_step = 0, ls_last_stats_step = 0, ls_last_eval_step = 0,
     ls_last_external_eval_step = 0, ls_stats = init_stats, ls_info = sample_info\<rparr>"

definition sample_loop_inv :: "(dict_hp, nat, dict_fs) loop_state \<Rightarrow> bool" where
  "sample_loop_inv ls \<longleftrightarrow> ls_global_step ls = int (ts_train (ls_state ls)) \<and> ls_global_step ls \<le> 3
     \<and> ls_last_stats_step ls = 0 \<and> ls_last_eval_step ls = 0 \<and> ls_last_external_eval_step ls = 0
     \<and> (\<exists>k. hp_get sample_api (ts_hparams (ls_state ls)) (u ''epoch_step'') = Some (PInt k))"

lemma sample_body:
  assumes "sample_loop_inv ls" "ls_global_step ls < 3"
  shows "\<exists>ls'. train_body sample_train_env sample_config ls = Some (Inr (ls', False)) \<and> sample_loop_inv ls'"
proof -
  from assms(1) obtain k where "hp_get sample_api (ts_hparams (ls_state ls)) (u ''epoch_step'') = Some (PInt k)"
    by (auto simp: sample_loop_inv_def)
  then have "attr_int sample_api (ts_hparams (ls_state ls)) (u ''epoch_step'') = Inr k"
    by (simp add: attr_int_def attr_def)
  with assms show ?thesis
    by (simp add: train_body_def after_step_def update_stats_def stats_round_def eval_round_def
        external_eval_round_def sample_config_def sample_loop_inv_def set_epoch_step_def Let_def
        dict_store.get_set)
qed

lemma sample_loop_start: "sample_loop_inv sample_loop"
  by (simp add: sample_loop_inv_def sample_loop_def sample_train_state_def sample_train_get)
    (simp add: sample_train_hp_def)

lemma sample_pass:
  "sample_loop_inv ls \<Longrightarrow> ls_global_step ls < tc_num_train_steps sample_config \<Longrightarrow>
   \<exists>ls' stop. train_body sample_train_env sample_config ls = Some (Inr (ls', stop)) \<and> sample_loop_inv ls'"
  using sample_body[of ls] by (metis sample_config_def train_config.select_convs(2))

lemma sample_advance:
  "sample_loop_inv ls \<Longrightarrow> te_train sample_train_env (ts_train (ls_state ls)) = Trained out t s \<Longrightarrow>
   ls_global_step ls < to_global_step out"
  by (auto simp: sample_loop_inv_def)

lemma sample_epoch:
  "te_start_train sample_train_env s 0 = Inr s' \<Longrightarrow> \<exists>out t s''. te_train sample_train_env s' = Trained out t s''"
  by simp

lemma sample_laws: "hparams_laws (te_hparams sample_train_env)"
  by (simp add: dict_store.hparams_laws_axioms)

theorem train_loop_terminates_witness:
  "\<exists>ls'. train_loop sample_train_env sample_config sample_loop = Some (Inr ls') \<and> sample_loop_inv ls'
    \<and> (tc_num_train_steps sample_config \<le> ls_global_step ls' \<or> is_overflow (in_train_ppl (ls_info ls')))"
  by (rule train_loop_terminates[OF sample_laws sample_pass sample_advance sample_epoch sample_loop_start])

theorem train_loop_keeps_best_witness:
  "\<exists>ls'. train_loop sample_train_env sample_config sample_loop = Some (Inr ls')
    \<and> improves sample_api [u ''accuracy''] (ts_hparams (ls_state sample_loop)) (ts_hparams (ls_state ls'))"
proof -
  have "\<exists>ls'. train_loop sample_train_env sample_config sample_loop = Some (Inr ls') \<and> sample_loop_inv ls'
    \<and> (tc_num_train_steps sample_config \<le> ls_global_step ls' \<or> is_overflow (in_train_ppl (ls_info ls')))"
    by (rule train_loop_returns[OF sample_laws sample_pass sample_advance sample_epoch sample_loop_start])
  then obtain ls' where run: "train_loop sample_train_env sample_config sample_loop = Some (Inr ls')" by (elim exE conjE)
  have "bindE (attr (te_hparams sample_train_env) (ts_hparams (ls_state sample_loop)) (u ''metrics'')) str_list_value
      = Inr [u ''accuracy'']"
    by (simp add: sample_loop_def sample_train_state_def attr_def sample_train_get) (simp add: sample_train_hp_def)
  from train_loop_keeps_best[OF sample_laws this run] run show ?thesis by auto
qed

text \<open>A run in which the internal evaluation is due after the first step.\<close>

definition due_config :: train_config where
  "due_config = sample_config\<lparr>tc_steps_per_eval := 1, tc_sample_src := [[97]], tc_sample_tgt := [[97]]\<rparr>"

definition due_hparams :: dict_hp where
  "due_hparams = ([(u ''dev_prefix'', PStr (u ''dev'')), (u ''src'', PStr [115]), (u ''tgt'', PStr [116]),
     (u ''test_prefix'', PNone), (u ''infer_mode'', PStr (u ''greedy'')), (u ''eos'', PNone),
     (u ''subword_option'', PNone), (u ''epoch_step'', PInt 0)], Map.empty)"

definition due_loop :: "(dict_hp, nat, dict_fs) loop_state" where
  "due_loop = sample_loop\<lparr>ls_state := sample_train_state\<lparr>ts_hparams := due_hparams\<rparr>\<rparr>"

lemma due_get: "hp_get sample_api due_hparams k = map_of (fst due_hparams) k"
  by (simp add: dict_hparams_def dict_get_attr_def due_hparams_def split: option.splits)

lemma due_attrs:
  "hp_get sample_api due_hparams (u ''dev_prefix'') = Some (PStr (u ''dev''))"
  "hp_get sample_api due_hparams (u ''src'') = Some (PStr [115])"
  "hp_get sample_api due_hparams (u ''tgt'') = Some (PStr [116])"
  "hp_get sample_api due_hparams (u ''test_prefix'') = Some PNone"
  "hp_get sample_api due_hparams (u ''infer_mode'') = Some (PStr (u ''greedy''))"
  "hp_get sample_api due_hparams (u ''eos'') = Some PNone"
  "hp_get sample_api due_hparams (u ''subword_option'') = Some PNone"
  "hp_get sample_api due_hparams (u ''epoch_step'') = Some (PInt 0)"
  unfolding due_get by (simp_all add: due_hparams_def)

lemma sample_load: "create_or_load_model (te_models sample_train_env) w d s = Inr (s, int s)"
  by (simp add: create_or_load_model_def sample_train_env_def)

lemma sample_perplexity: "\<exists>p. compute_perplexity (te_eval sample_train_env) 0 = Some (Inr (p, 1))"
proof -
  have y: "eval_yields sample_eval 0 [sample_batch] 1" by (simp add: sample_eval_def)
  have e: "te_eval sample_train_env = sample_eval" by (simp add: sample_train_env_def)
  show ?thesis using perplexity_loop_yields[OF y, of 0 "Finite 0" 0]
    by (simp add: compute_perplexity_def e total_count_of_def sample_batch_def)
qed

lemma due_sample_decode:
  assumes "hp_get sample_api (ts_hparams st) = (hp_get sample_api due_hparams)(u ''epoch_step'' \<mapsto> v)"
  shows "run_sample_decode sample_train_env st d [[97]] [[97]] = Inr (st\<lparr>ts_infer := 1\<rparr>)"
proof -
  have "get_translation [[utf8_encode [97]]] 0 None None = Inr (utf8_encode [97])"
    by (simp add: get_translation_def list_get_def format_text_def truthy_def)
  moreover have "utf8_decode (utf8_encode [97]) = Inr [97]" by (simp add: utf8_roundtrip encodable_def scalar_def)
  moreover have "te_decode sample_train_env 0 = Batch (Rows [[utf8_encode [97]]]) 1" "te_attention sample_train_env 0 = None"
    "te_randint sample_train_env s n = 0" for s n
    by (simp_all add: sample_train_env_def)
  ultimately show ?thesis
    by (simp add: run_sample_decode_def sample_load decode_sample_def Let_def list_get_def attr_str_def attr_def
        opt_attr_def assms due_attrs with_beams_def)
qed

lemma due_internal_eval:
  assumes "hp_get sample_api (ts_hparams st) = (hp_get sample_api due_hparams)(u ''epoch_step'' \<mapsto> v)"
  shows "\<exists>r. run_internal_eval sample_train_env st d True = Some (Inr r)"
proof -
  obtain p where "compute_perplexity (te_eval sample_train_env) 0 = Some (Inr (p, 1))" using sample_perplexity ..
  moreover have "te_start_eval sample_train_env s a b = Inr 0" for s a b by (simp add: sample_train_env_def)
  ultimately show ?thesis
    by (simp add: run_internal_eval_def sample_load Let_def data_file_def attr_def assms due_attrs internal_eval_def
        has_test_set_def)
qed

lemma due_body:
  "\<exists>ls. train_body sample_train_env due_config due_loop = Some (Inr (ls, False))
    \<and> ls_global_step ls = 1 \<and> ls_last_eval_step ls = 1"
proof -
  define ls1 where "ls1 = due_loop\<lparr>ls_state := write_event 1 (Serialized [])
      (set_epoch_step sample_api 1 (sample_train_state\<lparr>ts_hparams := due_hparams, ts_train := 1\<rparr>)),
    ls_global_step := 1, ls_stats := fst (update_stats init_stats 1 \<lparr>to_summary = [], to_loss = Finite 2, to_predict_count = 4,
      to_global_step = 1, to_word_count = 8, to_batch_size = 2, to_grad_norm = Finite 1, to_learning_rate = 1\<rparr>)\<rparr>"
  have hp: "hp_get sample_api (ts_hparams (ls_state ls1)) = (hp_get sample_api due_hparams)(u ''epoch_step'' \<mapsto> PInt 1)"
    by (simp add: ls1_def set_epoch_step_def dict_store.get_set)
  have 1: "after_step sample_train_env \<lparr>to_summary = [], to_loss = Finite 2, to_predict_count = 4, to_global_step = 1,
      to_word_count = 8, to_batch_size = 2, to_grad_norm = Finite 1, to_learning_rate = 1\<rparr> 1
      (due_loop\<lparr>ls_state := (ls_state due_loop)\<lparr>ts_train := 1\<rparr>\<rparr>) = Inr ls1"
    by (simp add: after_step_def due_loop_def attr_int_def attr_def due_attrs ls1_def sample_loop_def update_stats_def
        Let_def sample_info_def)
  have 2: "stats_round sample_train_env due_config ls1 = Inr (ls1, False)"
    by (simp add: stats_round_def ls1_def due_loop_def sample_loop_def due_config_def sample_config_def)
  let ?st = "add_info_summaries 1 (ls_info ls1) (ls_state ls1)"
  have st: "hp_get sample_api (ts_hparams (?st\<lparr>ts_infer := 1\<rparr>)) = (hp_get sample_api due_hparams)(u ''epoch_step'' \<mapsto> PInt 1)"
    "hp_get sample_api (ts_hparams ?st) = (hp_get sample_api due_hparams)(u ''epoch_step'' \<mapsto> PInt 1)"
    by (simp_all add: hp)
  obtain r where r: "run_internal_eval sample_train_env (?st\<lparr>ts_infer := 1\<rparr>) [111] True = Some (Inr r)"
    using due_internal_eval[OF st(1)] ..
  have save: "save_checkpoint sample_train_env due_config 1 ?st = Inr ?st" by (simp add: save_checkpoint_def)
  have g: "ls_global_step ls1 = 1" "ls_last_eval_step ls1 = 0" "ls_last_external_eval_step ls1 = 0"
    by (simp_all add: ls1_def due_loop_def sample_loop_def)
  have cfg: "tc_out_dir due_config = [111]" "tc_sample_src due_config = [[97]]" "tc_sample_tgt due_config = [[97]]"
    "tc_steps_per_eval due_config = 1" "tc_steps_per_external_eval due_config = 5000"
    by (simp_all add: due_config_def sample_config_def)
  have 3: "eval_round sample_train_env due_config ls1 = Some (Inr (ls1\<lparr>ls_last_eval_step := 1, ls_state := snd r\<rparr>))"
    by (simp add: eval_round_def g cfg Let_def save due_sample_decode[OF st(2)] r del: One_nat_def split: prod.splits)
  have "ts_train (ls_state due_loop) = 0" by (simp add: due_loop_def sample_train_state_def)
  with 1 2 3 show ?thesis by (simp add: train_body_def external_eval_round_def g cfg)
qed


definition sample_output :: train_output where
  "sample_output = \<lparr>to_summary = [], to_loss = Finite 3, to_predict_count = 4, to_global_step = 1, to_word_count = 8,
     to_batch_size = 2, to_grad_norm = Finite 1, to_learning_rate = 1\<rparr>"

theorem process_stats_values_witness:
  "\<exists>info'. process_stats (accumulate [(sample_output, 5)] init_stats) sample_info 1
      = Inr (info', is_overflow (in_train_ppl info'))
    \<and> in_train_ppl info' = safe_exp (Finite (3 / 2)) \<and> in_avg_step_time info' = 5"
  using process_stats_values[of 1 "[(sample_output, 5)]" sample_info "\<lambda>_. 3"]
  by (auto simp: sample_output_def)

section \<open>Training without data\<close>

text \<open>
  C39. A training set without examples, as when the files of the corpus are missing: if every
  session reports the end of the data on its first step, the loop makes no progress and never
  comes to a result, however often it has run the evaluations of an epoch in between.
\<close>

theorem train_loop_needs_data:
  assumes empty: "\<And>sess. \<exists>sess'. te_train E sess = TrainEnd sess'"
    and start: "ls_global_step ls < tc_num_train_steps C"
  shows "train_loop E C ls \<noteq> Some (Inr ls')"
proof
  have pass: "ls_global_step b = ls_global_step a \<and> \<not> stop"
    if body: "train_body E C a = Some (Inr (b, stop))" for a b stop
  proof -
    obtain sess' where "te_train E (ts_train (ls_state a)) = TrainEnd sess'" using empty by blast
    with body show ?thesis
      by (auto simp: train_body_def finish_epoch_def Let_def elim!: bindP_InrE)
  qed
  have step: "ls_global_step last = ls_global_step ls" if "train_reach E C ls last" for last
    using that by induction (auto dest: pass)
  assume "train_loop E C ls = Some (Inr ls')"
  from train_loop_reach[OF this] step start pass show False by fastforce
qed

theorem train_loop_needs_data_witness:
  "\<forall>ls'. train_loop (sample_train_env\<lparr>te_train := TrainEnd\<rparr>) sample_config sample_loop \<noteq> Some (Inr ls')"
  by (intro allI train_loop_needs_data) (simp_all add: sample_loop_def sample_config_def)

end
