(* ===== verification/Iterators.thy ===== *)
theory Iterators
  imports VocabUtils "HOL-Library.Multiset"
begin

text \<open>
  The input pipelines of \<open>nmt/utils/iterator_utils.py\<close>. A \<open>tf.data\<close> dataset is the list of its
  elements in the order in which they are produced; \<open>map\<close>, \<open>filter\<close>, \<open>skip\<close> and \<open>zip\<close> are
  then the functions of that name on lists, and prefetching and parallel calls, which keep the
  order, disappear. The other operations of TensorFlow are parameters: the sharing out of a
  dataset, the shuffling, the grouping by window and the padded batches, beside the tensor
  operations, the splitting of a line into words and the lookup tables. What their documentation
  promises is stated by the four laws \<open>shard_law\<close>, \<open>shuffle_law\<close>, \<open>window_law\<close> and \<open>batch_law\<close>.
\<close>

section \<open>The pipeline operations\<close>

record example =
  ex_src :: "int list"
  ex_tgt_in :: "int list"
  ex_tgt_out :: "int list"
  ex_src_len :: int
  ex_tgt_len :: int

record batch =
  ba_source :: "int list list"
  ba_target_input :: "int list list"
  ba_target_output :: "int list list"
  ba_source_length :: "int list"
  ba_target_length :: "int list"

record infer_batch =
  ib_source :: "int list list"
  ib_source_length :: "int list"

text \<open>
  \<open>de_shard\<close> takes \<open>num_shards\<close> and \<open>shard_index\<close>; \<open>de_padded_batch\<close> and
  \<open>de_infer_padded_batch\<close> are \<open>padded_batch\<close> on the elements of the two pipelines and take the
  batch size, the shape and the padding value of every component, the shape of a vector of any
  length being \<open>[None]\<close> and that of a scalar \<open>[]\<close>.
\<close>

record 't data_env =
  de_tensors :: "'t tensor_ops"
  de_entries :: "'t \<Rightarrow> int list"
  de_split :: "bytes \<Rightarrow> bytes list"
  de_shard :: "int \<Rightarrow> int \<Rightarrow> (bytes \<times> bytes) list \<Rightarrow> (bytes \<times> bytes) list"
  de_shuffle :: "int \<Rightarrow> int option \<Rightarrow> bool \<Rightarrow> (bytes \<times> bytes) list \<Rightarrow> (bytes \<times> bytes) list"
  de_windows :: "(example \<Rightarrow> int) \<Rightarrow> int \<Rightarrow> example list \<Rightarrow> example list list"
  de_padded_batch :: "nat \<Rightarrow> int option list list \<Rightarrow> int list \<Rightarrow> example list \<Rightarrow> batch list"
  de_infer_padded_batch :: "nat \<Rightarrow> int option list list \<Rightarrow> int list \<Rightarrow> (int list \<times> int) list \<Rightarrow> infer_batch list"

text \<open>\<open>tf.cast(x, tf.int32)\<close> of a 64-bit id.\<close>

definition to_int32 :: "int \<Rightarrow> int" where
  "to_int32 x = (x + 2 ^ 31) mod 2 ^ 32 - 2 ^ 31"

lemma to_int32_id: "- (2 ^ 31) \<le> x \<Longrightarrow> x < 2 ^ 31 \<Longrightarrow> to_int32 x = x"
  by (simp add: to_int32_def)

text \<open>\<open>src[:max_len]\<close> when a maximal length is given, that is, neither \<open>None\<close> nor 0.\<close>

definition truncate_to :: "int option \<Rightarrow> 'x list \<Rightarrow> 'x list" where
  "truncate_to max_len xs =
     (case max_len of None \<Rightarrow> xs | Some n \<Rightarrow> if n \<noteq> 0 then py_slice xs 0 n else xs)"

definition source_eos_id :: "(bytes \<Rightarrow> int) \<Rightarrow> bytes \<Rightarrow> bool \<Rightarrow> int" where
  "source_eos_id src_vocab_table eos use_char_encode =
     (if use_char_encode then EOS_CHAR_ID else to_int32 (src_vocab_table eos))"

text \<open>The ids of the source words: of the words, or of the characters of all words in a row.\<close>

definition source_ids ::
    "'t data_env \<Rightarrow> (bytes \<Rightarrow> int) \<Rightarrow> bool \<Rightarrow> bytes list \<Rightarrow> int list res" where
  "source_ids D src_vocab_table use_char_encode src =
     (if use_char_encode
      then bindE (tokens_to_bytes (de_tensors D) src) (\<lambda>rows. Inr (concat (map (de_entries D) rows)))
      else Inr (map (\<lambda>w. to_int32 (src_vocab_table w)) src))"

definition source_length :: "bool \<Rightarrow> int list \<Rightarrow> int" where
  "source_length use_char_encode src =
     (if use_char_encode then int_of_div (int (length src)) DEFAULT_CHAR_MAXLEN else int (length src))"

section \<open>Inference\<close>

definition infer_batching_func ::
    "'t data_env \<Rightarrow> nat \<Rightarrow> int \<Rightarrow> (int list \<times> int) list \<Rightarrow> infer_batch list" where
  "infer_batching_func D batch_size src_eos_id x =
     de_infer_padded_batch D batch_size [[None], []] [src_eos_id, 0] x"

definition get_infer_iterator ::
    "'t data_env \<Rightarrow> bytes list \<Rightarrow> (bytes \<Rightarrow> int) \<Rightarrow> nat \<Rightarrow> bytes \<Rightarrow> int option \<Rightarrow> bool
     \<Rightarrow> infer_batch list res" where
  "get_infer_iterator D src_dataset src_vocab_table batch_size eos src_max_len use_char_encode =
     (let src_eos_id = source_eos_id src_vocab_table eos use_char_encode
      in bindE (mapE (\<lambda>src.
             bindE (source_ids D src_vocab_table use_char_encode (truncate_to src_max_len (de_split D src))) (\<lambda>ids.
             Inr (ids, source_length use_char_encode ids))) src_dataset) (\<lambda>rows.
         Inr (infer_batching_func D batch_size src_eos_id rows)))"

section \<open>Training and evaluation\<close>

record iterator_args =
  ia_batch_size :: nat
  ia_sos :: bytes
  ia_eos :: bytes
  ia_random_seed :: "int option"
  ia_num_buckets :: int
  ia_src_max_len :: "int option"
  ia_tgt_max_len :: "int option"
  ia_output_buffer_size :: "int option"
  ia_skip_count :: "nat option"
  ia_num_shards :: int
  ia_shard_index :: int
  ia_reshuffle :: bool
  ia_use_char_encode :: bool

definition buffer_size :: "iterator_args \<Rightarrow> int" where
  "buffer_size R =
     (case ia_output_buffer_size R of None \<Rightarrow> int (ia_batch_size R) * 1000
      | Some n \<Rightarrow> if n \<noteq> 0 then n else int (ia_batch_size R) * 1000)"

text \<open>The pairs of lines of this worker in the order of training.\<close>

definition line_pairs ::
    "'t data_env \<Rightarrow> iterator_args \<Rightarrow> bytes list \<Rightarrow> bytes list \<Rightarrow> (bytes \<times> bytes) list" where
  "line_pairs D R src_dataset tgt_dataset =
     (let pairs = de_shard D (ia_num_shards R) (ia_shard_index R) (zip src_dataset tgt_dataset);
          pairs = (case ia_skip_count R of None \<Rightarrow> pairs | Some n \<Rightarrow> drop n pairs)
      in de_shuffle D (buffer_size R) (ia_random_seed R) (ia_reshuffle R) pairs)"

definition make_example ::
    "'t data_env \<Rightarrow> iterator_args \<Rightarrow> (bytes \<Rightarrow> int) \<Rightarrow> (bytes \<Rightarrow> int) \<Rightarrow> bytes list \<times> bytes list \<Rightarrow> example res" where
  "make_example D R src_vocab_table tgt_vocab_table p =
     (let tgt_sos_id = to_int32 (tgt_vocab_table (ia_sos R));
          tgt_eos_id = to_int32 (tgt_vocab_table (ia_eos R));
          src = truncate_to (ia_src_max_len R) (fst p);
          tgt = truncate_to (ia_tgt_max_len R) (snd p)
      in bindE (source_ids D src_vocab_table (ia_use_char_encode R) src) (\<lambda>src.
         let tgt = map (\<lambda>w. to_int32 (tgt_vocab_table w)) tgt;
             tgt_in = [tgt_sos_id] @ tgt;
             tgt_out = tgt @ [tgt_eos_id]
         in Inr \<lparr>ex_src = src, ex_tgt_in = tgt_in, ex_tgt_out = tgt_out,
                 ex_src_len = source_length (ia_use_char_encode R) src,
                 ex_tgt_len = int (length tgt_in)\<rparr>))"

definition examples ::
    "'t data_env \<Rightarrow> iterator_args \<Rightarrow> (bytes \<Rightarrow> int) \<Rightarrow> (bytes \<Rightarrow> int) \<Rightarrow> bytes list \<Rightarrow> bytes list
     \<Rightarrow> example list res" where
  "examples D R src_vocab_table tgt_vocab_table src_dataset tgt_dataset =
     (let tokens = map (\<lambda>(src, tgt). (de_split D src, de_split D tgt)) (line_pairs D R src_dataset tgt_dataset);
          nonempty = filter (\<lambda>(src, tgt). length src > 0 \<and> length tgt > 0) tokens
      in mapE (make_example D R src_vocab_table tgt_vocab_table) nonempty)"

definition batching_func :: "'t data_env \<Rightarrow> nat \<Rightarrow> int \<Rightarrow> int \<Rightarrow> example list \<Rightarrow> batch list" where
  "batching_func D batch_size src_eos_id tgt_eos_id x =
     de_padded_batch D batch_size [[None], [None], [None], [], []]
       [src_eos_id, tgt_eos_id, tgt_eos_id, 0, 0] x"

definition key_func :: "iterator_args \<Rightarrow> example \<Rightarrow> int" where
  "key_func R e =
     (let num_buckets = ia_num_buckets R;
          bucket_width = (case ia_src_max_len R of None \<Rightarrow> 10
            | Some src_max_len \<Rightarrow>
                if src_max_len \<noteq> 0 then (src_max_len + num_buckets - 1) div num_buckets else 10);
          bucket_id = max (ex_src_len e div bucket_width) (ex_tgt_len e div bucket_width)
      in min num_buckets bucket_id)"

definition get_iterator ::
    "'t data_env \<Rightarrow> iterator_args \<Rightarrow> (bytes \<Rightarrow> int) \<Rightarrow> (bytes \<Rightarrow> int) \<Rightarrow> bytes list \<Rightarrow> bytes list
     \<Rightarrow> batch list res" where
  "get_iterator D R src_vocab_table tgt_vocab_table src_dataset tgt_dataset =
     (let src_eos_id = source_eos_id src_vocab_table (ia_eos R) (ia_use_char_encode R);
          tgt_eos_id = to_int32 (tgt_vocab_table (ia_eos R));
          batching_func = batching_func D (ia_batch_size R) src_eos_id tgt_eos_id
      in bindE (examples D R src_vocab_table tgt_vocab_table src_dataset tgt_dataset) (\<lambda>exs.
         Inr (if ia_num_buckets R > 1
              then concat (map batching_func (de_windows D (key_func R) (int (ia_batch_size R)) exs))
              else batching_func exs)))"


section \<open>What TensorFlow promises of the pipeline operations\<close>

text \<open>Worker \<open>index\<close> gets the elements whose position leaves that remainder.\<close>

definition shard :: "int \<Rightarrow> int \<Rightarrow> 'x list \<Rightarrow> 'x list" where
  "shard num_shards index xs = map snd (filter (\<lambda>(i, x). int i mod num_shards = index) (enumerate 0 xs))"

text \<open>
  Consecutive elements are batched, the last batch being what is left, and a component of
  vectors is padded to the longest one of the batch.
\<close>

fun chunks :: "nat \<Rightarrow> 'x list \<Rightarrow> 'x list list" where
  "chunks 0 xs = []"
| "chunks (Suc n) [] = []"
| "chunks (Suc n) (x # xs) = (x # take n xs) # chunks (Suc n) (drop n xs)"

definition pad_rows :: "'x \<Rightarrow> 'x list list \<Rightarrow> 'x list list" where
  "pad_rows v rows = map (\<lambda>r. r @ replicate (foldr (max \<circ> length) rows 0 - length r) v) rows"

definition infer_padded_batch :: "nat \<Rightarrow> int \<Rightarrow> (int list \<times> int) list \<Rightarrow> infer_batch list" where
  "infer_padded_batch batch_size src_eos_id rows =
     map (\<lambda>b. \<lparr>ib_source = pad_rows src_eos_id (map fst b), ib_source_length = map snd b\<rparr>)
       (chunks batch_size rows)"

definition padded_batch :: "nat \<Rightarrow> int \<Rightarrow> int \<Rightarrow> int \<Rightarrow> example list \<Rightarrow> batch list" where
  "padded_batch batch_size v w w' exs =
     map (\<lambda>b. \<lparr>ba_source = pad_rows v (map ex_src b), ba_target_input = pad_rows w (map ex_tgt_in b),
            ba_target_output = pad_rows w' (map ex_tgt_out b),
            ba_source_length = map ex_src_len b, ba_target_length = map ex_tgt_len b\<rparr>)
       (chunks batch_size exs)"

text \<open>
  The laws: the shards of a worker among \<open>num_shards\<close>, padded batches of vectors and scalars, a
  shuffled dataset has the elements of the dataset, and the windows of \<open>group_by_window\<close> share
  out the elements, each window being non-empty, of at most the given size, and of one key.
\<close>

definition shard_law :: "'t data_env \<Rightarrow> bool" where
  "shard_law D \<longleftrightarrow> (\<forall>num_shards index xs. 0 \<le> index \<and> index < num_shards \<longrightarrow>
     de_shard D num_shards index xs = shard num_shards index xs)"

definition batch_law :: "'t data_env \<Rightarrow> bool" where
  "batch_law D \<longleftrightarrow>
     (\<forall>n v w w' exs. 0 < n \<longrightarrow>
        de_padded_batch D n [[None], [None], [None], [], []] [v, w, w', 0, 0] exs = padded_batch n v w w' exs) \<and>
     (\<forall>n v rows. 0 < n \<longrightarrow> de_infer_padded_batch D n [[None], []] [v, 0] rows = infer_padded_batch n v rows)"

definition shuffle_law :: "'t data_env \<Rightarrow> bool" where
  "shuffle_law D \<longleftrightarrow> (\<forall>n seed again xs. mset (de_shuffle D n seed again xs) = mset xs)"

definition window_law :: "'t data_env \<Rightarrow> bool" where
  "window_law D \<longleftrightarrow> (\<forall>key n xs. 0 < n \<longrightarrow>
     mset (concat (de_windows D key n xs)) = mset xs \<and>
     (\<forall>w \<in> set (de_windows D key n xs). w \<noteq> [] \<and> int (length w) \<le> n \<and> (\<forall>e \<in> set w. key e = key (hd w))))"

lemma shard_lawD: "shard_law D \<Longrightarrow> 0 \<le> i \<Longrightarrow> i < n \<Longrightarrow> de_shard D n i xs = shard n i xs"
  by (simp add: shard_law_def)

lemma batching_func_padded:
  "batch_law D \<Longrightarrow> 0 < n \<Longrightarrow> batching_func D n v w exs = padded_batch n v w w exs"
  by (simp add: batch_law_def batching_func_def)

lemma infer_batching_func_padded:
  "batch_law D \<Longrightarrow> 0 < n \<Longrightarrow> infer_batching_func D n v rows = infer_padded_batch n v rows"
  by (simp add: batch_law_def infer_batching_func_def)

section \<open>Lemmas on the pipeline operations\<close>

lemma concat_chunks: "0 < n \<Longrightarrow> concat (chunks n xs) = xs"
  by (induction n xs rule: chunks.induct) auto

lemma chunks_sizes: "b \<in> set (chunks n xs) \<Longrightarrow> b \<noteq> [] \<and> length b \<le> n"
  by (induction n xs rule: chunks.induct) auto

lemma chunks_full: "Suc i < length (chunks n xs) \<Longrightarrow> length (chunks n xs ! i) = n"
proof (induction n xs arbitrary: i rule: chunks.induct)
  case (3 n x xs)
  show ?case
  proof (cases i)
    case 0
    with "3.prems" have "drop n xs \<noteq> []" by (cases "drop n xs") auto
    with 0 show ?thesis by simp
  next
    case (Suc j)
    with 3 show ?thesis by simp
  qed
qed auto

lemma length_le_longest: "r \<in> set rows \<Longrightarrow> length r \<le> foldr (max \<circ> length) rows 0"
  by (induction rows) auto

lemma pad_rows_width:
  "r \<in> set (pad_rows v rows) \<Longrightarrow> length r = foldr (max \<circ> length) rows 0"
  using length_le_longest by (fastforce simp: pad_rows_def)

lemma length_pad_rows [simp]: "length (pad_rows v rows) = length rows"
  by (simp add: pad_rows_def)

text \<open>Cutting a padded row to the length of the row gives the row back.\<close>

lemma unpad_rows: "map2 take (map length rows) (pad_rows v rows) = rows"
  by (rule nth_equalityI) (auto simp: pad_rows_def)

lemma tokens_to_bytes_total:
  assumes laws: "tensor_laws T view"
  shows "\<exists>rows. tokens_to_bytes T words = Inr rows
    \<and> length (concat (map view rows)) = nat DEFAULT_CHAR_MAXLEN * length words"
proof -
  have each: "\<exists>t. string_to_bytes T x (int 50) = Inr t \<and> view t = byte_row 50 x" for x
    by (rule string_to_bytes_row[OF laws]) simp
  then obtain f where f: "\<And>x. string_to_bytes T x (int 50) = Inr (f x)"
      "\<And>x. view (f x) = byte_row 50 x"
    by metis
  have "tokens_to_bytes T words = Inr (map f words)"
    unfolding tokens_to_bytes_def Let_def DEFAULT_CHAR_MAXLEN_def
    by (rule mapE_Inr) (use f in simp)
  moreover have "length (concat (map view (map f words))) = nat DEFAULT_CHAR_MAXLEN * length words"
    by (induction words) (simp_all add: f byte_row_def DEFAULT_CHAR_MAXLEN_def)
  ultimately show ?thesis by blast
qed

text \<open>
  The ids of a sentence are always found, and the recorded length is the number of its words,
  with characters (50 ids for a word) as with words (one).
\<close>

lemma source_ids_total:
  assumes laws: "tensor_laws (de_tensors D) (de_entries D)"
  shows "\<exists>ids. source_ids D table uce words = Inr ids
    \<and> length ids = (if uce then nat DEFAULT_CHAR_MAXLEN else 1) * length words
    \<and> source_length uce ids = int (length words)"
proof (cases uce)
  case True
  obtain rows where "tokens_to_bytes (de_tensors D) words = Inr rows"
      "length (concat (map (de_entries D) rows)) = nat DEFAULT_CHAR_MAXLEN * length words"
    using tokens_to_bytes_total[OF laws] by blast
  with True show ?thesis
    by (simp add: source_ids_def source_length_def DEFAULT_CHAR_MAXLEN_def)
qed (simp add: source_ids_def source_length_def)


section \<open>Examples\<close>

text \<open>
  What the model relies on when it reads an example of the word lists \<open>src\<close> and \<open>tgt\<close>: the
  target read is the target to predict one step later, and both recorded lengths are right.
\<close>

definition example_of ::
    "iterator_args \<Rightarrow> (bytes \<Rightarrow> int) \<Rightarrow> bytes list \<times> bytes list \<Rightarrow> example \<Rightarrow> bool" where
  "example_of R tgt_vocab_table p e \<longleftrightarrow>
     hd (ex_tgt_in e) = to_int32 (tgt_vocab_table (ia_sos R)) \<and>
     last (ex_tgt_out e) = to_int32 (tgt_vocab_table (ia_eos R)) \<and>
     tl (ex_tgt_in e) = map (\<lambda>w. to_int32 (tgt_vocab_table w)) (truncate_to (ia_tgt_max_len R) (snd p)) \<and>
     butlast (ex_tgt_out e) = tl (ex_tgt_in e) \<and>
     ex_tgt_in e \<noteq> [] \<and> length (ex_tgt_out e) = length (ex_tgt_in e) \<and>
     ex_tgt_len e = int (length (ex_tgt_in e)) \<and>
     ex_src_len e = int (length (truncate_to (ia_src_max_len R) (fst p))) \<and>
     length (ex_src e) = (if ia_use_char_encode R then nat DEFAULT_CHAR_MAXLEN else 1) * nat (ex_src_len e)"

lemma make_example_example_of:
  assumes "tensor_laws (de_tensors D) (de_entries D)"
  shows "\<exists>e. make_example D R st tt p = Inr e \<and> example_of R tt p e"
proof -
  obtain ids where "source_ids D st (ia_use_char_encode R) (truncate_to (ia_src_max_len R) (fst p)) = Inr ids"
      and "length ids = (if ia_use_char_encode R then nat DEFAULT_CHAR_MAXLEN else 1)
             * length (truncate_to (ia_src_max_len R) (fst p))"
      and "source_length (ia_use_char_encode R) ids = int (length (truncate_to (ia_src_max_len R) (fst p)))"
    using source_ids_total[OF assms] by blast
  then show ?thesis by (simp add: make_example_def example_of_def Let_def)
qed

definition nonempty_pairs ::
    "'t data_env \<Rightarrow> iterator_args \<Rightarrow> bytes list \<Rightarrow> bytes list \<Rightarrow> (bytes list \<times> bytes list) list" where
  "nonempty_pairs D R src_dataset tgt_dataset =
     filter (\<lambda>(src, tgt). src \<noteq> [] \<and> tgt \<noteq> [])
       (map (\<lambda>(src, tgt). (de_split D src, de_split D tgt)) (line_pairs D R src_dataset tgt_dataset))"

lemma examples_nonempty_pairs:
  "examples D R st tt sd td = mapE (make_example D R st tt) (nonempty_pairs D R sd td)"
  by (simp add: examples_def nonempty_pairs_def Let_def)

lemma mapE_list_all2: "mapE f xs = Inr ys \<Longrightarrow> list_all2 (\<lambda>x y. f x = Inr y) xs ys"
  by (auto simp: list_all2_conv_all_nth mapE_length mapE_nth)

text \<open>
  C16. The examples of a pass over the data are computed without an error; there is one for
  every pair of lines that has words on both sides, in order, and it satisfies what the model
  relies on: the target input is the start symbol and the ids of the target words, the target
  output the same ids and the end symbol, the recorded lengths are those of the (cut)
  sentences in words, also when words are spelled out in 50 characters each.
\<close>

theorem examples_well_formed:
  assumes "tensor_laws (de_tensors D) (de_entries D)"
  shows "\<exists>exs. examples D R src_vocab_table tgt_vocab_table src_dataset tgt_dataset = Inr exs
    \<and> list_all2 (example_of R tgt_vocab_table) (nonempty_pairs D R src_dataset tgt_dataset) exs"
proof -
  let ?f = "make_example D R src_vocab_table tgt_vocab_table"
  let ?ps = "nonempty_pairs D R src_dataset tgt_dataset"
  have each: "\<exists>e. ?f p = Inr e \<and> example_of R tgt_vocab_table p e" for p
    by (rule make_example_example_of[OF assms])
  then obtain exs where exs: "mapE ?f ?ps = Inr exs" by (metis mapE_Inr_iff)
  have "example_of R tgt_vocab_table p e" if "?f p = Inr e" for p e
    using each[of p] that by auto
  with mapE_list_all2[OF exs] have "list_all2 (example_of R tgt_vocab_table) ?ps exs"
    by (auto elim: list_all2_mono)
  with exs show ?thesis by (auto simp: examples_nonempty_pairs)
qed

section \<open>Batches\<close>

definition tokens_per_word :: "bool \<Rightarrow> int" where
  "tokens_per_word use_char_encode = (if use_char_encode then DEFAULT_CHAR_MAXLEN else 1)"

text \<open>The examples a batch was made of, read off with the recorded lengths.\<close>

definition unbatch :: "bool \<Rightarrow> batch \<Rightarrow> example list" where
  "unbatch uce b =
     map (\<lambda>(s, ti, to, sl, tl).
         \<lparr>ex_src = take (nat (tokens_per_word uce * sl)) s, ex_tgt_in = take (nat tl) ti,
          ex_tgt_out = take (nat tl) to, ex_src_len = sl, ex_tgt_len = tl\<rparr>)
       (zip (ba_source b) (zip (ba_target_input b) (zip (ba_target_output b)
         (zip (ba_source_length b) (ba_target_length b)))))"

definition lengths_recorded :: "bool \<Rightarrow> example \<Rightarrow> bool" where
  "lengths_recorded uce e \<longleftrightarrow>
     int (length (ex_src e)) = tokens_per_word uce * ex_src_len e \<and>
     int (length (ex_tgt_in e)) = ex_tgt_len e \<and> int (length (ex_tgt_out e)) = ex_tgt_len e"

lemma example_of_lengths:
  "example_of R tt p e \<Longrightarrow> lengths_recorded (ia_use_char_encode R) e"
  by (auto simp: example_of_def lengths_recorded_def tokens_per_word_def DEFAULT_CHAR_MAXLEN_def)

lemma nth_pad_rows:
  "i < length rows \<Longrightarrow> pad_rows v rows ! i
     = rows ! i @ replicate (foldr (max \<circ> length) rows 0 - length (rows ! i)) v"
  by (simp add: pad_rows_def)

lemma unbatch_padded:
  assumes "\<And>e. e \<in> set exs \<Longrightarrow> lengths_recorded uce e"
  shows "unbatch uce \<lparr>ba_source = pad_rows v (map ex_src exs),
            ba_target_input = pad_rows w (map ex_tgt_in exs),
            ba_target_output = pad_rows w (map ex_tgt_out exs),
            ba_source_length = map ex_src_len exs, ba_target_length = map ex_tgt_len exs\<rparr> = exs"
proof (rule nth_equalityI, simp add: unbatch_def)
  fix i assume "i < length (unbatch uce \<lparr>ba_source = pad_rows v (map ex_src exs),
            ba_target_input = pad_rows w (map ex_tgt_in exs),
            ba_target_output = pad_rows w (map ex_tgt_out exs),
            ba_source_length = map ex_src_len exs, ba_target_length = map ex_tgt_len exs\<rparr>)"
  then have i: "i < length exs" by (simp add: unbatch_def)
  with assms have "lengths_recorded uce (exs ! i)" by simp
  then have "nat (tokens_per_word uce * ex_src_len (exs ! i)) = length (ex_src (exs ! i))"
      "nat (ex_tgt_len (exs ! i)) = length (ex_tgt_in (exs ! i))"
      "nat (ex_tgt_len (exs ! i)) = length (ex_tgt_out (exs ! i))"
    by (auto simp: lengths_recorded_def simp flip: nat_int)
  with i show "unbatch uce \<lparr>ba_source = pad_rows v (map ex_src exs),
            ba_target_input = pad_rows w (map ex_tgt_in exs),
            ba_target_output = pad_rows w (map ex_tgt_out exs),
            ba_source_length = map ex_src_len exs, ba_target_length = map ex_tgt_len exs\<rparr> ! i = exs ! i"
    by (cases "exs ! i") (simp add: unbatch_def nth_pad_rows)
qed

lemma unbatch_padded_batch:
  assumes "0 < n" "\<And>e. e \<in> set exs \<Longrightarrow> lengths_recorded uce e"
  shows "concat (map (unbatch uce) (padded_batch n v w w exs)) = exs"
proof -
  have "set b \<subseteq> set exs" if "b \<in> set (chunks n exs)" for b
    using that concat_chunks[OF assms(1), of exs] by (metis set_concat UN_I subsetI image_eqI)
  then have "map (unbatch uce) (padded_batch n v w w exs) = chunks n exs"
    using assms(2) by (force simp: padded_batch_def o_def intro!: map_idI unbatch_padded)
  then show ?thesis by (simp add: concat_chunks assms(1))
qed


definition one_key :: "iterator_args \<Rightarrow> batch \<Rightarrow> bool" where
  "one_key R b \<longleftrightarrow> (\<exists>k. key_func R ` set (unbatch (ia_use_char_encode R) b) \<subseteq> {k})"

definition rectangular :: "batch \<Rightarrow> bool" where
  "rectangular b \<longleftrightarrow>
     (\<forall>r \<in> set (ba_source b). \<forall>r' \<in> set (ba_source b). length r = length r') \<and>
     (\<forall>r \<in> set (ba_target_input b). \<forall>r' \<in> set (ba_target_output b). length r = length r')"

lemma window_lawD:
  "window_law D \<Longrightarrow> 0 < n \<Longrightarrow>
     mset (concat (de_windows D key n xs)) = mset xs \<and>
     (\<forall>w \<in> set (de_windows D key n xs). w \<noteq> [] \<and> int (length w) \<le> n \<and> (\<forall>e \<in> set w. key e = key (hd w)))"
  unfolding window_law_def by blast

lemma pad_rows_same_width:
  assumes "map length rows = map length rows'" "r \<in> set (pad_rows v rows)" "r' \<in> set (pad_rows v' rows')"
  shows "length r = length r'"
proof -
  have "foldr (max \<circ> length) rows 0 = foldr max (map length rows) 0"
      "foldr (max \<circ> length) rows' 0 = foldr max (map length rows') 0"
    by (simp_all add: foldr_map)
  with pad_rows_width[OF assms(2)] pad_rows_width[OF assms(3)] assms(1) show ?thesis by simp
qed

lemma set_subset_concat: "c \<in> set cs \<Longrightarrow> set c \<subseteq> set (concat cs)"
  by auto

lemma padded_batch_good:
  assumes b: "b \<in> set (padded_batch n v w w exs)" and rec: "\<And>e. e \<in> set exs \<Longrightarrow> lengths_recorded uce e"
  shows "ba_source b \<noteq> [] \<and> length (ba_source b) \<le> n \<and> rectangular b"
proof -
  obtain c where c: "c \<in> set (chunks n exs)"
      and b: "b = \<lparr>ba_source = pad_rows v (map ex_src c), ba_target_input = pad_rows w (map ex_tgt_in c),
            ba_target_output = pad_rows w (map ex_tgt_out c),
            ba_source_length = map ex_src_len c, ba_target_length = map ex_tgt_len c\<rparr>"
    using b by (auto simp: padded_batch_def)
  have "0 < n" using c by (cases n) auto
  with set_subset_concat[OF c] have "set c \<subseteq> set exs" by (simp add: concat_chunks)
  with rec have "\<And>e. e \<in> set c \<Longrightarrow> lengths_recorded uce e" by blast
  then have "map length (map ex_tgt_in c) = map length (map ex_tgt_out c)"
    by (force simp: lengths_recorded_def)
  note widths = pad_rows_same_width[OF this] pad_rows_same_width[OF refl]
  have "rectangular b"
    unfolding rectangular_def b by (simp only: batch.simps) (blast intro: widths)
  moreover have "length (ba_source b) = length c" by (simp add: b)
  moreover have "ba_source b = [] \<longleftrightarrow> length (ba_source b) = 0" by simp
  ultimately show ?thesis using chunks_sizes[OF c] by simp
qed

lemma unbatch_subset:
  assumes "0 < n" "b \<in> set (padded_batch n v w w exs)" "\<And>e. e \<in> set exs \<Longrightarrow> lengths_recorded uce e"
  shows "set (unbatch uce b) \<subseteq> set exs"
proof -
  have "unbatch uce b \<in> set (map (unbatch uce) (padded_batch n v w w exs))" using assms(2) by simp
  from set_subset_concat[OF this] show ?thesis
    by (simp only: unbatch_padded_batch[OF assms(1,3)])
qed

text \<open>The batches of the windows of a data set, read back with the recorded lengths.\<close>

lemma windowed_batches:
  assumes win: "window_law D" and n: "0 < ia_batch_size R"
    and rec: "\<And>e. e \<in> set exs \<Longrightarrow> lengths_recorded (ia_use_char_encode R) e"
    and bs: "bs = concat (map (padded_batch (ia_batch_size R) v w w) (de_windows D (key_func R) (int (ia_batch_size R)) exs))"
  shows "mset (concat (map (unbatch (ia_use_char_encode R)) bs)) = mset exs
    \<and> (\<forall>b \<in> set bs. ba_source b \<noteq> [] \<and> length (ba_source b) \<le> ia_batch_size R \<and> rectangular b \<and> one_key R b)"
proof -
  let ?uce = "ia_use_char_encode R" and ?ws = "de_windows D (key_func R) (int (ia_batch_size R)) exs"
  have ws: "mset (concat ?ws) = mset exs"
      "\<forall>c \<in> set ?ws. c \<noteq> [] \<and> int (length c) \<le> int (ia_batch_size R) \<and> (\<forall>e \<in> set c. key_func R e = key_func R (hd c))"
    using window_lawD[OF win, of "int (ia_batch_size R)"] n by simp_all
  have recw: "lengths_recorded ?uce e" if "e \<in> set c" "c \<in> set ?ws" for c e
    using that ws(1) rec by (metis UN_I set_concat set_mset_mset)
  have un: "concat (map (unbatch ?uce) (padded_batch (ia_batch_size R) v w w c)) = c" if "c \<in> set ?ws" for c
    using n recw that by (intro unbatch_padded_batch) auto
  have "concat (map (unbatch ?uce) (concat (map (padded_batch (ia_batch_size R) v w w) cs))) = concat cs"
    if "set cs \<subseteq> set ?ws" for cs
    using that by (induction cs) (simp_all add: un)
  from this[of ?ws] have read: "mset (concat (map (unbatch ?uce) bs)) = mset exs"
    by (simp only: bs subset_refl ws(1))
  have "ba_source b \<noteq> [] \<and> length (ba_source b) \<le> ia_batch_size R \<and> rectangular b \<and> one_key R b"
    if c: "c \<in> set ?ws" and b: "b \<in> set (padded_batch (ia_batch_size R) v w w c)" for b c
  proof -
    have "set (unbatch ?uce b) \<subseteq> set c" using n b recw c by (intro unbatch_subset) auto
    with ws(2) c have "one_key R b" unfolding one_key_def by blast
    with padded_batch_good[OF b recw[OF _ c]] show ?thesis by simp
  qed
  then have "\<forall>b \<in> set bs. ba_source b \<noteq> [] \<and> length (ba_source b) \<le> ia_batch_size R \<and> rectangular b \<and> one_key R b"
    unfolding bs set_concat set_map by blast
  with read show ?thesis by blast
qed

text \<open>Reading the batches back with the recorded lengths.\<close>

lemma get_iterator_reads_back:
  assumes laws: "tensor_laws (de_tensors D) (de_entries D)" and win: "window_law D"
    and batches: "batch_law D" and n: "0 < ia_batch_size R"
  shows "\<exists>exs bs. examples D R st tt src_dataset tgt_dataset = Inr exs
    \<and> get_iterator D R st tt src_dataset tgt_dataset = Inr bs
    \<and> mset (concat (map (unbatch (ia_use_char_encode R)) bs)) = mset exs
    \<and> (\<forall>b \<in> set bs. ba_source b \<noteq> [] \<and> length (ba_source b) \<le> ia_batch_size R \<and> rectangular b
         \<and> (ia_num_buckets R \<le> 1 \<or> one_key R b))"
proof -
  let ?ps = "nonempty_pairs D R src_dataset tgt_dataset" and ?uce = "ia_use_char_encode R"
  let ?f = "make_example D R st tt"
  define v w where "v = source_eos_id st (ia_eos R) ?uce" and "w = to_int32 (tt (ia_eos R))"
  have each: "\<exists>e. ?f p = Inr e \<and> example_of R tt p e" for p
    by (rule make_example_example_of[OF laws])
  then obtain exs where exs: "mapE ?f ?ps = Inr exs" by (metis mapE_Inr_iff)
  have rec: "lengths_recorded ?uce e" if "e \<in> set exs" for e
  proof -
    from mapE_set[OF exs \<open>e \<in> set exs\<close>] obtain p where "?f p = Inr e" by auto
    with each[of p] have "example_of R tt p e" by auto
    then show ?thesis by (rule example_of_lengths)
  qed
  have bs: "get_iterator D R st tt src_dataset tgt_dataset
      = Inr (if ia_num_buckets R > 1
             then concat (map (padded_batch (ia_batch_size R) v w w)
                    (de_windows D (key_func R) (int (ia_batch_size R)) exs))
             else padded_batch (ia_batch_size R) v w w exs)" (is "_ = Inr ?bs")
    by (simp add: get_iterator_def examples_nonempty_pairs exs v_def w_def Let_def
        batching_func_padded[OF batches n] cong: map_cong)
  have "mset (concat (map (unbatch ?uce) ?bs)) = mset exs
    \<and> (\<forall>b \<in> set ?bs. ba_source b \<noteq> [] \<and> length (ba_source b) \<le> ia_batch_size R \<and> rectangular b
         \<and> (ia_num_buckets R \<le> 1 \<or> one_key R b))"
  proof (cases "ia_num_buckets R > 1")
    case False
    with n rec show ?thesis by (simp add: unbatch_padded_batch padded_batch_good[OF _ rec])
  next
    case True
    with windowed_batches[OF win n rec refl, where v = v and w = w] show ?thesis by simp
  qed
  with exs bs show ?thesis by (simp add: examples_nonempty_pairs)
qed

text \<open>
  C8. If windows and padded batches are as documented, an iterator yields every example of the
  pass exactly once: reading the batches back with the recorded lengths gives the examples up
  to their order, so padding loses nothing and hides nothing. No batch is empty or larger than
  the batch size, its rows have one width (the widths of target input and output agree), and
  with buckets the examples of a batch come from a single bucket.
\<close>

theorem get_iterator_covers_examples:
  assumes laws: "tensor_laws (de_tensors D) (de_entries D)" and win: "window_law D"
    and batches: "batch_law D" and n: "0 < ia_batch_size R"
  shows "\<exists>exs bs. examples D R st tt src_dataset tgt_dataset = Inr exs
    \<and> get_iterator D R st tt src_dataset tgt_dataset = Inr bs
    \<and> mset (concat (map (unbatch (ia_use_char_encode R)) bs)) = mset exs
    \<and> (\<forall>b \<in> set bs. ba_source b \<noteq> [] \<and> length (ba_source b) \<le> ia_batch_size R \<and> rectangular b
         \<and> (ia_num_buckets R \<le> 1 \<or> one_key R b))"
  by (rule get_iterator_reads_back[OF laws win batches n])


section \<open>A concrete pipeline\<close>

text \<open>The documented operations on lists: no shuffling, and the windows key by key.\<close>

definition windows_by_key :: "(example \<Rightarrow> int) \<Rightarrow> int \<Rightarrow> example list \<Rightarrow> example list list" where
  "windows_by_key key n xs =
     concat (map (\<lambda>k. chunks (nat n) (filter (\<lambda>e. key e = k) xs)) (remdups (map key xs)))"

lemma mset_filter_by_key:
  "mset (concat (map (\<lambda>k. filter (\<lambda>e. key e = k) xs) (remdups (map key xs)))) = mset xs"
proof -
  have "mset (concat (map (\<lambda>k. filter (\<lambda>e. key e = k) xs) ks)) = mset (filter (\<lambda>e. key e \<in> set ks) xs)"
    if "distinct ks" for ks
    using that
  proof (induction ks)
    case (Cons k ks)
    then have "mset (concat (map (\<lambda>k. filter (\<lambda>e. key e = k) xs) (k # ks)))
        = mset (filter (\<lambda>e. key e = k) xs) + mset (filter (\<lambda>e. key e \<in> set ks) xs)"
      by simp
    also have "\<dots> = mset (filter (\<lambda>e. key e \<in> set (k # ks)) xs)"
      using Cons.prems by (induction xs) auto
    finally show ?case .
  qed simp
  from this[of "remdups (map key xs)"] show ?thesis by (simp cong: filter_cong)
qed

definition list_pipeline :: "int list data_env" where
  "list_pipeline = \<lparr>de_tensors = list_tensors, de_entries = (\<lambda>t. t),
     de_split = (\<lambda>s. filter (\<lambda>w. w \<noteq> []) (split_on (CHR '' '') s)),
     de_shard = shard, de_shuffle = (\<lambda>_ _ _ xs. xs), de_windows = windows_by_key,
     de_padded_batch = (\<lambda>n shapes values. padded_batch n (values ! 0) (values ! 1) (values ! 2)),
     de_infer_padded_batch = (\<lambda>n shapes values. infer_padded_batch n (values ! 0))\<rparr>"

lemma list_pipeline_tensors: "tensor_laws (de_tensors list_pipeline) (de_entries list_pipeline)"
  using list_tensors_laws by (simp add: list_pipeline_def)

lemma list_pipeline_shuffle: "shuffle_law list_pipeline"
  by (simp add: shuffle_law_def list_pipeline_def)

lemma list_pipeline_shard: "shard_law list_pipeline"
  by (simp add: shard_law_def list_pipeline_def)

lemma list_pipeline_batches: "batch_law list_pipeline"
  by (simp add: batch_law_def list_pipeline_def)

lemma list_pipeline_windows: "window_law list_pipeline"
  unfolding window_law_def
proof (intro allI impI conjI)
  fix key :: "example \<Rightarrow> int" and n :: int and xs
  assume n: "0 < n"
  have "concat (concat (map (\<lambda>k. chunks (nat n) (f k)) ks)) = concat (map f ks)" for f and ks :: "int list"
    using n by (induction ks) (simp_all add: concat_chunks)
  then have "concat (windows_by_key key n xs)
      = concat (map (\<lambda>k. filter (\<lambda>e. key e = k) xs) (remdups (map key xs)))"
    by (simp add: windows_by_key_def)
  then show "mset (concat (de_windows list_pipeline key n xs)) = mset xs"
    by (simp add: list_pipeline_def mset_filter_by_key)
  show "\<forall>w \<in> set (de_windows list_pipeline key n xs). w \<noteq> [] \<and> int (length w) \<le> n \<and> (\<forall>e \<in> set w. key e = key (hd w))"
  proof (intro ballI conjI)
    fix w assume "w \<in> set (de_windows list_pipeline key n xs)"
    then obtain k where w: "w \<in> set (chunks (nat n) (filter (\<lambda>e. key e = k) xs))"
      by (auto simp: list_pipeline_def windows_by_key_def)
    show ne: "w \<noteq> []" and "int (length w) \<le> n" using chunks_sizes[OF w] n by auto
    have keys: "key e = k" if "e \<in> set w" for e
      using set_subset_concat[OF w] n that by (auto simp: concat_chunks)
    with ne show "key e = key (hd w)" if "e \<in> set w" for e using that by simp
  qed
qed


definition small_args :: iterator_args where
  "small_args = \<lparr>ia_batch_size = 2, ia_sos = ''<s>'', ia_eos = ''</s>'', ia_random_seed = None,
     ia_num_buckets = 2, ia_src_max_len = Some 4, ia_tgt_max_len = None, ia_output_buffer_size = None,
     ia_skip_count = None, ia_num_shards = 1, ia_shard_index = 0, ia_reshuffle = True,
     ia_use_char_encode = False\<rparr>"

definition word_length :: "bytes \<Rightarrow> int" where
  "word_length w = int (length w)"

theorem examples_well_formed_witness:
  "\<exists>exs. examples list_pipeline small_args word_length word_length [''a cat'', '' '', ''a''] [''un chat'', ''x'', ''le''] = Inr exs
    \<and> list_all2 (example_of small_args word_length)
        (nonempty_pairs list_pipeline small_args [''a cat'', '' '', ''a''] [''un chat'', ''x'', ''le'']) exs"
  by (rule examples_well_formed[OF list_pipeline_tensors])

theorem get_iterator_covers_examples_witness:
  "\<exists>exs bs. examples list_pipeline small_args word_length word_length [''a cat'', ''b''] [''un chat'', ''c''] = Inr exs
    \<and> get_iterator list_pipeline small_args word_length word_length [''a cat'', ''b''] [''un chat'', ''c''] = Inr bs
    \<and> mset (concat (map (unbatch (ia_use_char_encode small_args)) bs)) = mset exs
    \<and> (\<forall>b \<in> set bs. ba_source b \<noteq> [] \<and> length (ba_source b) \<le> ia_batch_size small_args \<and> rectangular b
         \<and> (ia_num_buckets small_args \<le> 1 \<or> one_key small_args b))"
  by (rule get_iterator_covers_examples[OF list_pipeline_tensors list_pipeline_windows list_pipeline_batches])
    (simp add: small_args_def)

section \<open>Buckets\<close>

definition bucket_width :: "iterator_args \<Rightarrow> int" where
  "bucket_width R = (case ia_src_max_len R of None \<Rightarrow> 10
     | Some n \<Rightarrow> if n \<noteq> 0 then (n + ia_num_buckets R - 1) div ia_num_buckets R else 10)"

lemma key_func_width:
  "key_func R e = min (ia_num_buckets R) (max (ex_src_len e div bucket_width R) (ex_tgt_len e div bucket_width R))"
  by (simp add: key_func_def bucket_width_def Let_def)

lemma bucket_width_pos:
  assumes "1 < ia_num_buckets R" "case ia_src_max_len R of None \<Rightarrow> True | Some n \<Rightarrow> 0 \<le> n"
  shows "0 < bucket_width R"
proof (cases "ia_src_max_len R")
  case (Some n)
  then have "n \<noteq> 0 \<Longrightarrow> ia_num_buckets R div ia_num_buckets R \<le> (n + ia_num_buckets R - 1) div ia_num_buckets R"
    using assms by (intro zdiv_mono1) auto
  with assms(1) have "n \<noteq> 0 \<Longrightarrow> 1 \<le> (n + ia_num_buckets R - 1) div ia_num_buckets R" by simp
  then have "n \<noteq> 0 \<Longrightarrow> 0 < (n + ia_num_buckets R - 1) div ia_num_buckets R" by linarith
  with Some show ?thesis by (simp add: bucket_width_def)
qed (simp add: bucket_width_def)

lemma max_div: "0 < (w::int) \<Longrightarrow> max (a div w) (b div w) = max a b div w"
  by (cases "a \<le> b") (simp_all add: max_absorb1 max_absorb2 zdiv_mono1)

lemma le_div_iff:
  assumes w: "0 < (w::int)"
  shows "k \<le> m div w \<longleftrightarrow> k * w \<le> m"
proof
  assume "k \<le> m div w"
  with w have "k * w \<le> m div w * w" by (simp add: mult_right_mono)
  also have "\<dots> \<le> m" using pos_mod_sign[OF w, of m] by (simp add: minus_mod_eq_div_mult[symmetric])
  finally show "k * w \<le> m" .
next
  assume "k * w \<le> m"
  with w have "k * w div w \<le> m div w" by (intro zdiv_mono1)
  with w show "k \<le> m div w" by simp
qed

text \<open>
  C29. The bucket of a pair of sentences is that of the longer one: bucket k below \<open>num_buckets\<close>
  holds the pairs whose longer side has a length from k widths to below k + 1 widths, and all
  longer pairs are in bucket \<open>num_buckets\<close>. The keys that occur are exactly 0 to \<open>num_buckets\<close>:
  one bucket more than the setting and the comment in the code say.
\<close>

theorem key_func_buckets:
  assumes buckets: "1 < ia_num_buckets R" and max: "case ia_src_max_len R of None \<Rightarrow> True | Some n \<Rightarrow> 0 \<le> n"
  shows "key_func R ` {e. 0 \<le> ex_src_len e \<and> 0 \<le> ex_tgt_len e} = {0..ia_num_buckets R}
    \<and> {e. key_func R e = ia_num_buckets R}
        = {e. ia_num_buckets R * bucket_width R \<le> max (ex_src_len e) (ex_tgt_len e)}
    \<and> {(k, e). k < ia_num_buckets R \<and> key_func R e = k}
        = {(k, e). k < ia_num_buckets R \<and> k * bucket_width R \<le> max (ex_src_len e) (ex_tgt_len e)
                 \<and> max (ex_src_len e) (ex_tgt_len e) < (k + 1) * bucket_width R}"
proof -
  let ?n = "ia_num_buckets R" and ?w = "bucket_width R"
  have w: "0 < ?w" by (rule bucket_width_pos[OF buckets max])
  have key: "key_func R e = min ?n (max (ex_src_len e) (ex_tgt_len e) div ?w)" for e
    by (simp add: key_func_width max_div w)
  have le: "k \<le> m div ?w \<longleftrightarrow> k * ?w \<le> m" for k m by (rule le_div_iff[OF w])
  have below: "k < ?n \<and> key_func R e = k \<longleftrightarrow> k < ?n \<and> k * ?w \<le> max (ex_src_len e) (ex_tgt_len e)
      \<and> max (ex_src_len e) (ex_tgt_len e) < (k + 1) * ?w" for k e
    using le[of k "max (ex_src_len e) (ex_tgt_len e)"] le[of "k + 1" "max (ex_src_len e) (ex_tgt_len e)"]
    by (auto simp only: key min_def not_le split: if_splits)
  have top: "key_func R e = ?n \<longleftrightarrow> ?n * ?w \<le> max (ex_src_len e) (ex_tgt_len e)" for e
    using le[of ?n "max (ex_src_len e) (ex_tgt_len e)"] by (auto simp: key min_def)
  have "key_func R ` {e. 0 \<le> ex_src_len e \<and> 0 \<le> ex_tgt_len e} = {0..?n}"
  proof (intro equalityI subsetI)
    fix k assume k: "k \<in> {0..?n}"
    let ?e = "\<lparr>ex_src = [], ex_tgt_in = [], ex_tgt_out = [], ex_src_len = k * ?w, ex_tgt_len = 0\<rparr>"
    have kw: "0 \<le> k * ?w" using k w by simp
    then have "max (k * ?w) 0 = k * ?w" by (rule max_absorb1)
    then have "key_func R ?e = k" using k w by (simp add: key)
    moreover note kw
    ultimately show "k \<in> key_func R ` {e. 0 \<le> ex_src_len e \<and> 0 \<le> ex_tgt_len e}"
      by (metis (mono_tags, lifting) imageI mem_Collect_eq example.select_convs(4,5) order_refl)
  qed (use buckets w in \<open>auto simp: key pos_imp_zdiv_nonneg_iff le_max_iff_disj\<close>)
  with below top show ?thesis by simp
qed

theorem key_func_buckets_witness:
  "key_func small_args ` {e. 0 \<le> ex_src_len e \<and> 0 \<le> ex_tgt_len e} = {0..ia_num_buckets small_args}
    \<and> {e. key_func small_args e = ia_num_buckets small_args}
        = {e. ia_num_buckets small_args * bucket_width small_args \<le> max (ex_src_len e) (ex_tgt_len e)}
    \<and> {(k, e). k < ia_num_buckets small_args \<and> key_func small_args e = k}
        = {(k, e). k < ia_num_buckets small_args \<and> k * bucket_width small_args \<le> max (ex_src_len e) (ex_tgt_len e)
                 \<and> max (ex_src_len e) (ex_tgt_len e) < (k + 1) * bucket_width small_args}"
  by (rule key_func_buckets) (simp_all add: small_args_def)


section \<open>Workers and passes\<close>

lemma mset_shards:
  assumes n: "0 < n"
  shows "(\<Sum>i \<in> {0..<int n}. mset (shard (int n) i xs)) = mset xs"
proof -
  have "(\<Sum>i \<in> {0..<int n}. mset (map snd (filter (\<lambda>(j, x). int j mod int n = i) js))) = mset (map snd js)"
    for js :: "(nat \<times> 'a) list"
  proof (induction js)
    case (Cons j js)
    obtain a x where j: "j = (a, x)" by fastforce
    have "(\<Sum>i \<in> {0..<int n}. if int a mod int n = i then {#x#} else {#}) = {#x#}"
      using n by (subst sum.delta') auto
    moreover have "mset (map snd (filter (\<lambda>(j, x). int j mod int n = i) (j # js)))
        = (if int a mod int n = i then {#x#} else {#})
          + mset (map snd (filter (\<lambda>(j, x). int j mod int n = i) js))" for i
      by (simp add: j)
    ultimately show ?case using Cons.IH by (simp only: sum.distrib) (simp add: j)
  qed simp
  from this[of "enumerate 0 xs"] show ?thesis by (simp add: shard_def)
qed

section \<open>The sentences to translate\<close>

definition infer_rows :: "bool \<Rightarrow> infer_batch \<Rightarrow> int list list" where
  "infer_rows uce b = map (\<lambda>(s, n). take (nat (tokens_per_word uce * n)) s) (zip (ib_source b) (ib_source_length b))"

lemma infer_rows_padded:
  assumes "\<And>r. r \<in> set rows \<Longrightarrow> int (length (fst r)) = tokens_per_word uce * snd r"
  shows "infer_rows uce \<lparr>ib_source = pad_rows v (map fst rows), ib_source_length = map snd rows\<rparr> = map fst rows"
proof (rule nth_equalityI, simp add: infer_rows_def)
  fix i assume "i < length (infer_rows uce \<lparr>ib_source = pad_rows v (map fst rows), ib_source_length = map snd rows\<rparr>)"
  then have i: "i < length rows" by (simp add: infer_rows_def)
  with assms have "nat (tokens_per_word uce * snd (rows ! i)) = length (fst (rows ! i))"
    by (metis nat_int nth_mem)
  with i show "infer_rows uce \<lparr>ib_source = pad_rows v (map fst rows), ib_source_length = map snd rows\<rparr> ! i = map fst rows ! i"
    by (simp add: infer_rows_def nth_pad_rows)
qed

text \<open>Reading the batches of the translation input back.\<close>

lemma infer_batches_in_order:
  assumes laws: "tensor_laws (de_tensors D) (de_entries D)" and batches: "batch_law D" and n: "0 < batch_size"
  shows "\<exists>bs rows. get_infer_iterator D src_dataset table batch_size eos max_len uce = Inr bs
    \<and> mapE (\<lambda>line. source_ids D table uce (truncate_to max_len (de_split D line))) src_dataset = Inr rows
    \<and> concat (map (infer_rows uce) bs) = rows
    \<and> (\<forall>i < length bs - 1. length (ib_source (bs ! i)) = batch_size)"
proof -
  let ?ws = "\<lambda>line. truncate_to max_len (de_split D line)"
  let ?g = "\<lambda>ids. (ids, source_length uce ids)"
  have each: "\<exists>ids. source_ids D table uce (?ws line) = Inr ids
      \<and> int (length ids) = tokens_per_word uce * source_length uce ids" for line
    using source_ids_total[OF laws, of table uce "?ws line"]
    by (auto simp: tokens_per_word_def DEFAULT_CHAR_MAXLEN_def)
  then obtain f where f: "\<And>line. source_ids D table uce (?ws line) = Inr (f line)"
      "\<And>line. int (length (f line)) = tokens_per_word uce * source_length uce (f line)"
    by metis
  let ?rows = "map (\<lambda>line. ?g (f line)) src_dataset"
  let ?v = "source_eos_id table eos uce"
  have rows: "mapE (\<lambda>line. source_ids D table uce (?ws line)) src_dataset = Inr (map f src_dataset)"
    by (rule mapE_Inr) (rule f(1))
  have "mapE (\<lambda>src. bindE (source_ids D table uce (?ws src)) (\<lambda>ids. Inr (?g ids))) src_dataset = Inr ?rows"
    by (rule mapE_Inr) (simp add: f(1))
  then have "get_infer_iterator D src_dataset table batch_size eos max_len uce
      = Inr (infer_padded_batch batch_size ?v ?rows)"
    by (simp add: get_infer_iterator_def infer_batching_func_padded[OF batches n])
  moreover have "infer_rows uce \<lparr>ib_source = pad_rows ?v (map fst c), ib_source_length = map snd c\<rparr> = map fst c"
    if c: "c \<in> set (chunks batch_size ?rows)" for c
  proof (rule infer_rows_padded)
    fix r assume "r \<in> set c"
    with set_subset_concat[OF c] have "r \<in> set ?rows" by (auto simp: concat_chunks[OF n])
    with f(2) show "int (length (fst r)) = tokens_per_word uce * snd r" by auto
  qed
  then have "map (infer_rows uce) (infer_padded_batch batch_size ?v ?rows) = map (map fst) (chunks batch_size ?rows)"
    by (simp add: infer_padded_batch_def)
  then have "concat (map (infer_rows uce) (infer_padded_batch batch_size ?v ?rows)) = map f src_dataset"
    by (simp add: map_concat[symmetric] concat_chunks[OF n] o_def)
  moreover have "\<forall>i < length (infer_padded_batch batch_size ?v ?rows) - 1.
      length (ib_source (infer_padded_batch batch_size ?v ?rows ! i)) = batch_size"
    by (simp add: infer_padded_batch_def chunks_full)
  ultimately show ?thesis using rows by (intro exI conjI)
qed

text \<open>
  C22. The translation input keeps the sentences in order: reading the batches back with the
  recorded lengths gives the ids of the (cut) sentences one after the other, empty lines
  included, and every batch but the last has exactly \<open>batch_size\<close> sentences, so that the k-th
  translation is that of the k-th line.
\<close>

theorem get_infer_iterator_keeps_order:
  assumes laws: "tensor_laws (de_tensors D) (de_entries D)" and batches: "batch_law D" and n: "0 < batch_size"
  shows "\<exists>bs rows. get_infer_iterator D src_dataset table batch_size eos max_len uce = Inr bs
    \<and> mapE (\<lambda>line. source_ids D table uce (truncate_to max_len (de_split D line))) src_dataset = Inr rows
    \<and> concat (map (infer_rows uce) bs) = rows
    \<and> (\<forall>i < length bs - 1. length (ib_source (bs ! i)) = batch_size)"
  using assms by (rule infer_batches_in_order)

theorem get_infer_iterator_keeps_order_witness:
  "\<exists>bs rows. get_infer_iterator list_pipeline [''a cat'', '''', ''b''] word_length 2 ''</s>'' None True = Inr bs
    \<and> mapE (\<lambda>line. source_ids list_pipeline word_length True (truncate_to None (de_split list_pipeline line)))
        [''a cat'', '''', ''b''] = Inr rows
    \<and> concat (map (infer_rows True) bs) = rows
    \<and> (\<forall>i < length bs - 1. length (ib_source (bs ! i)) = 2)"
  by (rule get_infer_iterator_keeps_order[OF list_pipeline_tensors list_pipeline_batches]) simp

end
