(* ===== verification/Cells.thy ===== *)
theory Cells
  imports PyText
begin

text \<open>
  The recurrent cells of \<open>nmt/model_helper.py\<close>: which cell is built for a layer, with which
  wrappers, on which device, and the gradient clipping and initializers beside them. The classes
  of cells and wrappers are TensorFlow's; a cell is the term of the constructor calls that made
  it, so that what is built can be compared, and nothing is assumed about what a cell computes.
\<close>

section \<open>Cells\<close>

datatype mode = TRAIN | EVAL | INFER

text \<open>The option and mechanism of \<open>create_attention_mechanism\<close> and its tensors are of type 'm.\<close>

datatype residual_fn = GnmtResidualFn

datatype 'm cell =
    BasicLSTMCell int real
  | GRUCell int
  | LayerNormBasicLSTMCell int real bool
  | NASCell int
  | DropoutWrapper "'m cell" real
  | ResidualWrapper "'m cell" "residual_fn option"
  | DeviceWrapper "'m cell" pystr
  | MultiRNNCell "'m cell list"
  | AttentionWrapper "'m cell" 'm "int option" bool bool
  | GNMTAttentionMultiCell "'m cell" "'m cell list" bool

record cell_args =
  ca_unit_type :: pystr
  ca_num_units :: int
  ca_forget_bias :: real
  ca_dropout :: real
  ca_mode :: mode
  ca_residual_connection :: bool
  ca_device_str :: "pystr option"
  ca_residual_fn :: "residual_fn option"

definition get_device_str :: "int \<Rightarrow> int \<Rightarrow> pystr" where
  "get_device_str device_id num_gpus =
     (if num_gpus = 0 then u ''/cpu:0'' else u ''/gpu:'' @ int_str (device_id mod num_gpus))"

definition base_cell :: "cell_args \<Rightarrow> 'm cell res" where
  "base_cell a =
     (if ca_unit_type a = u ''lstm'' then Inr (BasicLSTMCell (ca_num_units a) (ca_forget_bias a))
      else if ca_unit_type a = u ''gru'' then Inr (GRUCell (ca_num_units a))
      else if ca_unit_type a = u ''layer_norm_lstm''
           then Inr (LayerNormBasicLSTMCell (ca_num_units a) (ca_forget_bias a) True)
      else if ca_unit_type a = u ''nas'' then Inr (NASCell (ca_num_units a))
      else Inl ValueError)"

definition single_cell :: "cell_args \<Rightarrow> 'm cell res" where
  "single_cell a =
     (let dropout = (if ca_mode a = TRAIN then ca_dropout a else 0)
      in bindE (base_cell a) (\<lambda>cell.
         let cell = (if dropout > 0 then DropoutWrapper cell (1 - dropout) else cell);
             cell = (if ca_residual_connection a then ResidualWrapper cell (ca_residual_fn a) else cell)
         in Inr (case ca_device_str a of None \<Rightarrow> cell
                 | Some device \<Rightarrow> if device \<noteq> [] then DeviceWrapper cell device else cell)))"

text \<open>The arguments \<open>_cell_list\<close> and \<open>create_rnn_cell\<close> share.\<close>

record 'm cell_config =
  cc_unit_type :: pystr
  cc_num_units :: int
  cc_num_layers :: int
  cc_num_residual_layers :: int
  cc_forget_bias :: real
  cc_dropout :: real
  cc_mode :: mode
  cc_num_gpus :: int
  cc_base_gpu :: int
  cc_single_cell_fn :: "(cell_args \<Rightarrow> 'm cell res) option"
  cc_residual_fn :: "residual_fn option"

definition cell_args_of :: "'m cell_config \<Rightarrow> int \<Rightarrow> cell_args" where
  "cell_args_of C i =
     \<lparr>ca_unit_type = cc_unit_type C, ca_num_units = cc_num_units C, ca_forget_bias = cc_forget_bias C,
      ca_dropout = cc_dropout C, ca_mode = cc_mode C,
      ca_residual_connection = (i \<ge> cc_num_layers C - cc_num_residual_layers C),
      ca_device_str = Some (get_device_str (i + cc_base_gpu C) (cc_num_gpus C)),
      ca_residual_fn = cc_residual_fn C\<rparr>"

definition cell_list :: "'m cell_config \<Rightarrow> 'm cell list res" where
  "cell_list C =
     (let single_cell_fn = (case cc_single_cell_fn C of None \<Rightarrow> single_cell | Some f \<Rightarrow> f)
      in mapE (\<lambda>i. single_cell_fn (cell_args_of C (int i))) [0..<nat (cc_num_layers C)])"

text \<open>The constructor of \<open>MultiRNNCell\<close> refuses an empty list.\<close>

definition multi_rnn_cell :: "'m cell list \<Rightarrow> 'm cell res" where
  "multi_rnn_cell cells = (if cells = [] then Inl ValueError else Inr (MultiRNNCell cells))"

definition create_rnn_cell :: "'m cell_config \<Rightarrow> 'm cell res" where
  "create_rnn_cell C =
     bindE (cell_list (C\<lparr>cc_residual_fn := None\<rparr>)) (\<lambda>cells.
     case cells of [cell] \<Rightarrow> Inr cell | _ \<Rightarrow> multi_rnn_cell cells)"

section \<open>Initializers and gradients\<close>

datatype initializer =
    RandomUniform real real "int option" | GlorotNormal "int option" | GlorotUniform "int option"

definition get_initializer :: "pystr \<Rightarrow> int option \<Rightarrow> real option \<Rightarrow> initializer res" where
  "get_initializer init_op seed init_weight =
     (if init_op = u ''uniform''
      then (case init_weight of None \<Rightarrow> Inl AssertionError
            | Some w \<Rightarrow> bindE (assertE (w \<noteq> 0)) (\<lambda>_. Inr (RandomUniform (- w) w seed)))
      else if init_op = u ''glorot_normal'' then Inr (GlorotNormal seed)
      else if init_op = u ''glorot_uniform'' then Inr (GlorotUniform seed)
      else Inl ValueError)"

text \<open>
  The gradients are of a type 'g; \<open>tf.clip_by_global_norm\<close> and \<open>tf.global_norm\<close> are TensorFlow's.
\<close>

record 'g clip_ops =
  clip_by_global_norm :: "'g list \<Rightarrow> real \<Rightarrow> 'g list \<times> real"
  global_norm :: "'g list \<Rightarrow> real"

definition gradient_clip ::
    "'g clip_ops \<Rightarrow> 'g list \<Rightarrow> real \<Rightarrow> 'g list \<times> (pystr \<times> real) list \<times> real" where
  "gradient_clip T gradients max_gradient_norm =
     (let (clipped_gradients, gradient_norm) = clip_by_global_norm T gradients max_gradient_norm;
          gradient_norm_summary = [(u ''grad_norm'', gradient_norm)];
          gradient_norm_summary =
            gradient_norm_summary @ [(u ''clipped_gradient'', global_norm T clipped_gradients)]
      in (clipped_gradients, gradient_norm_summary, gradient_norm))"

section \<open>What is read off a cell\<close>

fun is_residual :: "'m cell \<Rightarrow> bool" where
  "is_residual (ResidualWrapper c f) = True"
| "is_residual (DropoutWrapper c p) = is_residual c"
| "is_residual (DeviceWrapper c d) = is_residual c"
| "is_residual _ = False"

fun keep_prob :: "'m cell \<Rightarrow> real" where
  "keep_prob (DropoutWrapper c p) = p * keep_prob c"
| "keep_prob (ResidualWrapper c f) = keep_prob c"
| "keep_prob (DeviceWrapper c d) = keep_prob c"
| "keep_prob _ = 1"

fun device_of :: "'m cell \<Rightarrow> pystr option" where
  "device_of (DeviceWrapper c d) = Some d"
| "device_of _ = None"

text \<open>The recurrent unit under the wrappers.\<close>

fun unit_of :: "'m cell \<Rightarrow> 'm cell" where
  "unit_of (DropoutWrapper c p) = unit_of c"
| "unit_of (ResidualWrapper c f) = unit_of c"
| "unit_of (DeviceWrapper c d) = unit_of c"
| "unit_of c = c"

definition known_unit :: "pystr \<Rightarrow> bool" where
  "known_unit unit_type \<longleftrightarrow> unit_type \<in> {u ''lstm'', u ''gru'', u ''layer_norm_lstm'', u ''nas''}"

lemma base_cell_iff: "(\<exists>c. base_cell a = Inr c) \<longleftrightarrow> known_unit (ca_unit_type a)"
  by (simp add: base_cell_def known_unit_def)

lemma base_cell_error: "base_cell a = Inl e \<longleftrightarrow> \<not> known_unit (ca_unit_type a) \<and> e = ValueError"
  by (auto simp: base_cell_def known_unit_def)

lemma base_cell_plain:
  "base_cell a = Inr c \<Longrightarrow> \<not> is_residual c \<and> keep_prob c = 1 \<and> device_of c = None \<and> unit_of c = c"
  by (auto simp: base_cell_def split: if_splits)

lemma single_cell_layer:
  fixes c :: "'m cell"
  assumes "single_cell a = Inr c"
  shows "(is_residual c \<longleftrightarrow> ca_residual_connection a)
    \<and> keep_prob c = (if ca_mode a = TRAIN \<and> ca_dropout a > 0 then 1 - ca_dropout a else 1)
    \<and> base_cell a = Inr (unit_of c)
    \<and> (\<forall>d. ca_device_str a = Some d \<longrightarrow> d \<noteq> [] \<longrightarrow> device_of c = Some d)"
proof -
  obtain b :: "'m cell" where b: "base_cell a = Inr b" using assms by (cases "base_cell a :: 'm cell res") (auto simp: single_cell_def)
  note plain = base_cell_plain[OF b]
  show ?thesis
    using assms plain
    by (cases "ca_device_str a"; cases "ca_residual_connection a"; cases "ca_mode a = TRAIN"; cases "ca_dropout a > 0")
      (auto simp: single_cell_def b Let_def split: if_splits)
qed

lemma single_cell_error: "single_cell a = Inl e \<longleftrightarrow> \<not> known_unit (ca_unit_type a) \<and> e = ValueError"
  by (simp add: single_cell_def bindE_Inl_iff base_cell_error Let_def)

lemma get_device_str_nonempty [simp]: "get_device_str i n \<noteq> []"
  by (simp add: get_device_str_def u_def)


section \<open>The layers of a cell\<close>

lemma cell_list_default:
  fixes C :: "'m cell_config"
  assumes "cc_single_cell_fn C = None" "known_unit (cc_unit_type C)"
  shows "\<exists>cs. cell_list C = Inr cs \<and> length cs = nat (cc_num_layers C)
    \<and> (\<forall>i < nat (cc_num_layers C). single_cell (cell_args_of C (int i)) = Inr (cs ! i))"
proof -
  have "\<exists>c :: 'm cell. single_cell (cell_args_of C i) = Inr c" for i
  proof (cases "single_cell (cell_args_of C i) :: 'm cell res")
    case (Inl e)
    with assms(2) show ?thesis by (simp add: single_cell_error cell_args_of_def)
  qed simp
  then obtain f :: "nat \<Rightarrow> 'm cell" where f: "\<And>i. single_cell (cell_args_of C (int i)) = Inr (f i)"
    using choice[of "\<lambda>i c. single_cell (cell_args_of C (int i)) = Inr c"] by blast
  have "cell_list C = Inr (map f [0..<nat (cc_num_layers C)])"
    unfolding cell_list_def Let_def assms(1) option.case by (rule mapE_Inr) (rule f)
  with f show ?thesis by simp
qed

text \<open>The class of the unit for each unit type, with its arguments.\<close>

lemma base_cell_unit:
  assumes "base_cell a = Inr unit"
  shows "ca_unit_type a = u ''lstm'' \<and> unit = BasicLSTMCell (ca_num_units a) (ca_forget_bias a)
    \<or> ca_unit_type a = u ''gru'' \<and> unit = GRUCell (ca_num_units a)
    \<or> ca_unit_type a = u ''layer_norm_lstm'' \<and> unit = LayerNormBasicLSTMCell (ca_num_units a) (ca_forget_bias a) True
    \<or> ca_unit_type a = u ''nas'' \<and> unit = NASCell (ca_num_units a)"
  using assms by (auto simp: base_cell_def split: if_splits)

text \<open>
  \<open>on_device k g d\<close>: without GPUs \<open>d\<close> is the CPU, and otherwise the GPU whose number is
  below \<open>g\<close> and congruent to \<open>k\<close>.
\<close>

definition on_device :: "int \<Rightarrow> int \<Rightarrow> pystr option \<Rightarrow> bool" where
  "on_device k g d \<longleftrightarrow>
     (if g = 0 then d = Some (u ''/cpu:0'')
      else \<exists>n. d = Some (u ''/gpu:'' @ int_str n) \<and> g dvd (k - n) \<and> (0 < g \<longrightarrow> 0 \<le> n \<and> n < g))"

lemma get_device_str_on: "on_device k g (Some (get_device_str k g))"
  by (auto simp: on_device_def get_device_str_def intro!: exI[of _ "k mod g"])

text \<open>
  C34. The stack of layers, for a known unit type and at least one layer: one cell per layer,
  combined only if there are several; the unit under the wrappers is of the class of the unit
  type, with the number of units and, for the LSTMs, the forget bias of the settings; the last
  \<open>num_residual_layers\<close> layers and no others have a residual connection; inputs are dropped in
  training only and with the configured probability; and layer i is on the CPU if there are no
  GPUs and else on the GPU with the number i + \<open>base_gpu\<close> in round robin.
\<close>

theorem create_rnn_cell_layers:
  fixes C :: "'m cell_config"
  assumes "cc_single_cell_fn C = None" "known_unit (cc_unit_type C)" "0 < cc_num_layers C"
  shows "\<exists>cs unit. create_rnn_cell C = Inr (if cc_num_layers C = 1 then hd cs else MultiRNNCell cs)
    \<and> length cs = nat (cc_num_layers C)
    \<and> {i. i < length cs \<and> is_residual (cs ! i)}
        = {i. i < length cs \<and> cc_num_layers C - cc_num_residual_layers C \<le> int i}
    \<and> (\<forall>c \<in> set cs. unit_of c = unit
         \<and> keep_prob c = (if cc_mode C = TRAIN \<and> cc_dropout C > 0 then 1 - cc_dropout C else 1))
    \<and> (cc_unit_type C = u ''lstm'' \<and> unit = BasicLSTMCell (cc_num_units C) (cc_forget_bias C)
       \<or> cc_unit_type C = u ''gru'' \<and> unit = GRUCell (cc_num_units C)
       \<or> cc_unit_type C = u ''layer_norm_lstm''
           \<and> unit = LayerNormBasicLSTMCell (cc_num_units C) (cc_forget_bias C) True
       \<or> cc_unit_type C = u ''nas'' \<and> unit = NASCell (cc_num_units C))
    \<and> (\<forall>i < length cs. on_device (int i + cc_base_gpu C) (cc_num_gpus C) (device_of (cs ! i)))"
proof -
  let ?C = "C\<lparr>cc_residual_fn := None\<rparr>"
  obtain cs where cs: "cell_list ?C = Inr cs" "length cs = nat (cc_num_layers C)"
      and each: "\<And>i. i < nat (cc_num_layers C) \<Longrightarrow> single_cell (cell_args_of ?C (int i)) = Inr (cs ! i)"
    using cell_list_default[of ?C] assms by auto
  have one: "cc_num_layers C = 1 \<longleftrightarrow> length cs = 1" using cs(2) by linarith
  have "create_rnn_cell C = Inr (if cc_num_layers C = 1 then hd cs else MultiRNNCell cs)"
    unfolding one by (cases cs rule: remdups_adj.cases) (use assms(3) cs(2) in \<open>simp_all add: create_rnn_cell_def cs(1) multi_rnn_cell_def\<close>)
  moreover obtain unit :: "'m cell" where unit: "base_cell (cell_args_of ?C 0) = Inr unit"
    using base_cell_iff[of "cell_args_of ?C 0"] assms(2) by (auto simp: cell_args_of_def)
  have base: "base_cell (cell_args_of ?C j) = (base_cell (cell_args_of ?C 0) :: 'm cell res)" for j
    by (simp add: base_cell_def cell_args_of_def)
  have layer: "(is_residual (cs ! i) \<longleftrightarrow> int i \<ge> cc_num_layers C - cc_num_residual_layers C)
      \<and> keep_prob (cs ! i) = (if cc_mode C = TRAIN \<and> cc_dropout C > 0 then 1 - cc_dropout C else 1)
      \<and> unit_of (cs ! i) = unit
      \<and> on_device (int i + cc_base_gpu C) (cc_num_gpus C) (device_of (cs ! i))"
    if "i < length cs" for i
    using single_cell_layer[OF each[of i]] that cs(2) unit unfolding base[of "int i"]
    by (simp add: cell_args_of_def get_device_str_on)
  moreover have "\<forall>c \<in> set cs. unit_of c = unit
         \<and> keep_prob c = (if cc_mode C = TRAIN \<and> cc_dropout C > 0 then 1 - cc_dropout C else 1)"
    using layer by (metis in_set_conv_nth)
  moreover note base_cell_unit[OF unit, unfolded cell_args_of_def cell_args.select_convs cell_config.select_convs cell_config.simps]
  ultimately show ?thesis using cs(2) by (intro exI[of _ cs] exI[of _ unit] conjI) auto
qed

definition sample_cells :: "unit cell_config" where
  "sample_cells = \<lparr>cc_unit_type = u ''lstm'', cc_num_units = 32, cc_num_layers = 4, cc_num_residual_layers = 2,
     cc_forget_bias = 1, cc_dropout = 1 / 5, cc_mode = TRAIN, cc_num_gpus = 2, cc_base_gpu = 0,
     cc_single_cell_fn = None, cc_residual_fn = None\<rparr>"

theorem create_rnn_cell_layers_witness:
  "\<exists>cs. create_rnn_cell sample_cells = Inr (MultiRNNCell cs) \<and> length cs = 4
    \<and> {i. i < length cs \<and> is_residual (cs ! i)} = {i. i < length cs \<and> 2 \<le> int i}
    \<and> (\<forall>c \<in> set cs. unit_of c = BasicLSTMCell 32 1 \<and> keep_prob c = 4 / 5)
    \<and> (\<forall>i < length cs. on_device (int i) 2 (device_of (cs ! i)))"
proof -
  have "cc_single_cell_fn sample_cells = None" "known_unit (cc_unit_type sample_cells)" "0 < cc_num_layers sample_cells"
    by (simp_all add: sample_cells_def known_unit_def)
  from create_rnn_cell_layers[OF this] show ?thesis by (simp add: sample_cells_def)
qed

section \<open>The load of the devices\<close>

lemma add_mod_same:
  assumes "r < g" "(a + r) mod g = r" "a < (g::nat)"
  shows "a = 0"
proof (cases "a + r < g")
  case True
  with assms(2) show ?thesis by simp
next
  case False
  then have "(a + r) mod g = a + r - g" using assms by (simp add: le_mod_geq)
  with assms False show ?thesis by simp
qed

lemma card_residue:
  assumes "r < (g::nat)"
  shows "card {i. i < n \<and> i mod g = r} = (n + g - 1 - r) div g"
proof (induction n)
  case 0
  have "(g - 1 - r) div g = 0" using assms by simp
  then show ?case by simp
next
  case (Suc n)
  let ?m = "n + g - 1 - r"
  have eq: "Suc n + g - 1 - r = Suc ?m" using assms by simp
  have "Suc ?m mod g = 0 \<longleftrightarrow> n mod g = r"
  proof -
    have "Suc ?m + r = n + g" using assms by simp
    then have "(Suc ?m + r) mod g = n mod g" by (simp only: mod_add_self2)
    moreover have "Suc ?m mod g = 0 \<longleftrightarrow> (Suc ?m + r) mod g = r"
    proof
      assume "(Suc ?m + r) mod g = r"
      then have "(Suc ?m mod g + r) mod g = r" by (simp add: mod_add_left_eq)
      moreover have "Suc ?m mod g < g" using assms by simp
      ultimately show "Suc ?m mod g = 0" by (rule add_mod_same[OF assms])
    next
      assume "Suc ?m mod g = 0"
      then show "(Suc ?m + r) mod g = r" using assms by (metis add_0 mod_add_left_eq mod_less)
    qed
    ultimately show ?thesis by simp
  qed
  then have d: "(Suc n + g - 1 - r) div g = ?m div g + (if n mod g = r then 1 else 0)"
    unfolding eq by (simp only: div_Suc) simp
  let ?S = "{i. i < n \<and> i mod g = r}"
  have fin: "finite ?S" by simp
  show ?case
  proof (cases "n mod g = r")
    case True
    then have "{i. i < Suc n \<and> i mod g = r} = insert n ?S" by (auto simp: less_Suc_eq)
    then have "card {i. i < Suc n \<and> i mod g = r} = Suc (card ?S)" using fin by simp
    with True d Suc.IH show ?thesis by simp
  next
    case False
    then have "{i. i < Suc n \<and> i mod g = r} = ?S" by (auto simp: less_Suc_eq)
    with False d Suc.IH show ?thesis by simp
  qed
qed


lemma gpu_device:
  assumes "0 < (g::int)" "0 \<le> d" "d < g"
  shows "get_device_str k g = u ''/gpu:'' @ int_str d \<longleftrightarrow> k mod g = d"
  using assms by (simp add: get_device_str_def)

text \<open>
  The layers are spread evenly: with \<open>num_gpus\<close> GPUs every GPU gets the n-th part of the
  layers, rounded down or up, whatever the first GPU is.
\<close>

theorem cell_list_balanced:
  fixes C :: "'m cell_config"
  assumes "cc_single_cell_fn C = None" "known_unit (cc_unit_type C)" "0 \<le> cc_num_layers C"
    and g: "0 < cc_num_gpus C" and d: "0 \<le> d" "d < cc_num_gpus C"
  shows "\<exists>cs. cell_list C = Inr cs \<and>
    int (card {i. i < length cs \<and> device_of (cs ! i) = Some (u ''/gpu:'' @ int_str d)})
      \<in> {cc_num_layers C div cc_num_gpus C .. cc_num_layers C div cc_num_gpus C + 1}"
proof -
  obtain cs where cs: "cell_list C = Inr cs" "length cs = nat (cc_num_layers C)"
      and each: "\<And>i. i < nat (cc_num_layers C) \<Longrightarrow> single_cell (cell_args_of C (int i)) = Inr (cs ! i)"
    using cell_list_default[OF assms(1,2)] by auto
  define n where "n = nat (cc_num_layers C)"
  define g' where "g' = nat (cc_num_gpus C)"
  define r where "r = nat ((d - cc_base_gpu C) mod cc_num_gpus C)"
  have g': "0 < g'" "cc_num_gpus C = int g'" "cc_num_layers C = int n" using g assms(3) by (auto simp: g'_def n_def)
  have r: "r < g'" "int r = (d - cc_base_gpu C) mod cc_num_gpus C"
    using g by (auto simp: r_def g'_def nat_less_iff)
  have "device_of (cs ! i) = Some (u ''/gpu:'' @ int_str d) \<longleftrightarrow> i mod g' = r" if "i < n" for i
  proof -
    have "device_of (cs ! i) = Some (get_device_str (int i + cc_base_gpu C) (cc_num_gpus C))"
      using single_cell_layer[OF each] that by (simp add: n_def cell_args_of_def)
    moreover have "(int i + cc_base_gpu C) mod cc_num_gpus C = d \<longleftrightarrow> int i mod cc_num_gpus C = int r"
    proof -
      have "d mod cc_num_gpus C = d" using d by simp
      then have "(int i + cc_base_gpu C) mod cc_num_gpus C = d
          \<longleftrightarrow> (int i + cc_base_gpu C) mod cc_num_gpus C = d mod cc_num_gpus C" by simp
      also have "\<dots> \<longleftrightarrow> int i mod cc_num_gpus C = (d - cc_base_gpu C) mod cc_num_gpus C"
        by (simp add: mod_eq_dvd_iff algebra_simps)
      finally show ?thesis by (simp add: r(2))
    qed
    ultimately show ?thesis
      using gpu_device[OF g d] by (simp add: g'(2) flip: zmod_int)
  qed
  then have "{i. i < length cs \<and> device_of (cs ! i) = Some (u ''/gpu:'' @ int_str d)} = {i. i < n \<and> i mod g' = r}"
    using cs(2) by (auto simp: n_def)
  then have "card {i. i < length cs \<and> device_of (cs ! i) = Some (u ''/gpu:'' @ int_str d)} = (n + g' - 1 - r) div g'"
    by (simp add: card_residue[OF r(1)])
  moreover have "n div g' \<le> (n + g' - 1 - r) div g'" "(n + g' - 1 - r) div g' \<le> (n + g') div g'"
    using r(1) by (rule_tac[!] div_le_mono) simp_all
  ultimately show ?thesis using cs(1) g' by (intro exI[of _ cs]) (simp add: zdiv_int[symmetric])
qed

theorem cell_list_balanced_witness:
  "\<exists>cs. cell_list sample_cells = Inr cs \<and>
    int (card {i. i < length cs \<and> device_of (cs ! i) = Some (u ''/gpu:'' @ int_str 1)})
      \<in> {cc_num_layers sample_cells div cc_num_gpus sample_cells
          .. cc_num_layers sample_cells div cc_num_gpus sample_cells + 1}"
  by (rule cell_list_balanced) (simp_all add: sample_cells_def known_unit_def)

end
