(* ===== verification/Embeddings.thy ===== *)
theory Embeddings
  imports VocabUtils
begin

text \<open>
  The embedding matrices of \<open>nmt/model_helper.py\<close>: a fresh variable, or the rows of a file of
  pretrained vectors below a trainable variable for the special tokens. A matrix is described by
  the variable behind it (the scopes it is in, from the outside in: their names and, for those
  that are opened with one, their partitioners; its shape and device) and the constant rows. What
  TensorFlow makes of the partitioners of nested scopes is left to it. The numbers in the file
  are of a type 'f, read by the parameter \<open>parse_float\<close>.
\<close>

section \<open>One matrix\<close>

record emb_variable =
  ev_scopes :: "pystr list"
  ev_name :: pystr
  ev_rows :: int
  ev_cols :: int
  ev_device :: pystr
  ev_partitions :: "int option list"

datatype 'f embedding = NewVariable emb_variable | PretrainedBelow emb_variable "'f list list"

record ('w, 'f) emb_env =
  ee_gfile :: "'w gfile"
  ee_world :: 'w
  ee_parse_int :: "pystr \<Rightarrow> int res"
  ee_parse_float :: "pystr \<Rightarrow> 'f res"
  ee_zero :: 'f

definition VOCAB_SIZE_THRESHOLD_CPU :: int where "VOCAB_SIZE_THRESHOLD_CPU = 50000"

definition get_embed_device :: "int \<Rightarrow> pystr" where
  "get_embed_device vocab_size =
     (if vocab_size > VOCAB_SIZE_THRESHOLD_CPU then u ''/cpu:0'' else u ''/gpu:0'')"

text \<open>
  The rows for the words of the vocabulary and, of them, those below the trainable ones.
  TensorFlow and Numpy refuse (with a \<open>ValueError\<close>) a matrix whose rows have different
  lengths, one that does not fit the variable, and a slice that starts behind the last row.
\<close>

definition add_trainable ::
    "'f \<Rightarrow> int option \<Rightarrow> (pystr \<rightharpoonup> 'f list) \<Rightarrow> pystr \<Rightarrow> (pystr \<rightharpoonup> 'f list) res" where
  "add_trainable zero dims vecs token =
     (if vecs token = None
      then (case dims of None \<Rightarrow> Inl TypeError
            | Some n \<Rightarrow> Inr (vecs(token \<mapsto> replicate (nat n) zero)))
      else Inr vecs)"

definition const_rows :: "int option \<Rightarrow> nat \<Rightarrow> 'f list list \<Rightarrow> 'f list list res" where
  "const_rows dims num_trainable_tokens rows =
     (if rows \<noteq> [] \<and> num_trainable_tokens \<le> length rows
         \<and> (\<forall>r \<in> set rows. dims = Some (int (length r)))
      then Inr (drop num_trainable_tokens rows) else Inl ValueError)"

definition create_pretrained_emb_from_txt ::
    "('w, 'f) emb_env \<Rightarrow> pystr \<Rightarrow> pystr \<Rightarrow> nat \<Rightarrow> pystr list \<Rightarrow> int option list \<Rightarrow> 'f embedding res" where
  "create_pretrained_emb_from_txt E vocab_file embed_file num_trainable_tokens scopes partitions =
     bindE (load_vocab (ee_gfile E) (ee_world E) vocab_file) (\<lambda>(vocab, _).
     let trainable_tokens = take num_trainable_tokens vocab
     in bindE (load_embed_txt (ee_gfile E) (ee_parse_int E) (ee_parse_float E) (ee_world E) embed_file)
          (\<lambda>(vecs, dims).
        bindE (foldE (add_trainable (ee_zero E) dims) vecs trainable_tokens) (\<lambda>vecs.
        bindE (mapE (dict_get vecs) vocab) (\<lambda>emb_mat.
        bindE (const_rows dims num_trainable_tokens emb_mat) (\<lambda>emb_mat_const.
        Inr (PretrainedBelow
               \<lparr>ev_scopes = scopes @ [u ''pretrain_embeddings''], ev_name = u ''emb_mat_var'',
                ev_rows = int num_trainable_tokens, ev_cols = the dims,
                ev_device = get_embed_device (int num_trainable_tokens), ev_partitions = partitions\<rparr>
               emb_mat_const))))))"

definition create_or_load_embed ::
    "('w, 'f) emb_env \<Rightarrow> pystr \<Rightarrow> pystr option \<Rightarrow> pystr option \<Rightarrow> int \<Rightarrow> int \<Rightarrow> pystr list \<Rightarrow> int option list
     \<Rightarrow> 'f embedding res" where
  "create_or_load_embed E embed_name vocab_file embed_file vocab_size embed_size scopes partitions =
     (if truthy vocab_file \<and> truthy embed_file
      then create_pretrained_emb_from_txt E (the vocab_file) (the embed_file) 3 scopes partitions
      else Inr (NewVariable
             \<lparr>ev_scopes = scopes, ev_name = embed_name, ev_rows = vocab_size, ev_cols = embed_size,
              ev_device = get_embed_device vocab_size, ev_partitions = partitions\<rparr>))"

section \<open>The two matrices\<close>

record emb_args =
  ea_share_vocab :: bool
  ea_src_vocab_size :: int
  ea_tgt_vocab_size :: int
  ea_src_embed_size :: int
  ea_tgt_embed_size :: int
  ea_num_enc_partitions :: int
  ea_num_dec_partitions :: int
  ea_src_vocab_file :: "pystr option"
  ea_tgt_vocab_file :: "pystr option"
  ea_src_embed_file :: "pystr option"
  ea_tgt_embed_file :: "pystr option"
  ea_use_char_encode :: bool
  ea_scope :: "pystr option"

definition fixed_size_partitioner :: "int \<Rightarrow> int option" where
  "fixed_size_partitioner n = (if n \<le> 1 then None else Some n)"

definition py_or :: "pystr option \<Rightarrow> pystr option \<Rightarrow> pystr option" where
  "py_or a b = (if truthy a then a else b)"

definition create_emb_for_encoder_and_decoder ::
    "('w, 'f) emb_env \<Rightarrow> emb_args \<Rightarrow> ('f embedding option \<times> 'f embedding) res" where
  "create_emb_for_encoder_and_decoder E A =
     (let enc_partitioner = fixed_size_partitioner (ea_num_enc_partitions A);
          dec_partitioner = fixed_size_partitioner (ea_num_dec_partitions A);
          scope = (if truthy (ea_scope A) then the (ea_scope A) else u ''embeddings'')
      in bindE (raise_if (truthy (ea_src_embed_file A) \<and> enc_partitioner \<noteq> None) ValueError) (\<lambda>_.
         bindE (raise_if (truthy (ea_tgt_embed_file A) \<and> dec_partitioner \<noteq> None) ValueError) (\<lambda>_.
         if ea_share_vocab A
         then bindE (raise_if (ea_src_vocab_size A \<noteq> ea_tgt_vocab_size A) ValueError) (\<lambda>_.
              bindE (assertE (ea_src_embed_size A = ea_tgt_embed_size A)) (\<lambda>_.
              let vocab_file = py_or (ea_src_vocab_file A) (ea_tgt_vocab_file A);
                  embed_file = py_or (ea_src_embed_file A) (ea_tgt_embed_file A)
              in bindE (create_or_load_embed E (u ''embedding_share'') vocab_file embed_file
                          (ea_src_vocab_size A) (ea_src_embed_size A) [scope] [enc_partitioner]) (\<lambda>emb.
                 Inr (Some emb, emb))))
         else bindE (if \<not> ea_use_char_encode A
                     then bindE (create_or_load_embed E (u ''embedding_encoder'') (ea_src_vocab_file A)
                                   (ea_src_embed_file A) (ea_src_vocab_size A) (ea_src_embed_size A)
                                   [scope, u ''encoder''] [enc_partitioner, enc_partitioner])
                            (\<lambda>emb. Inr (Some emb))
                     else Inr None) (\<lambda>embedding_encoder.
              bindE (create_or_load_embed E (u ''embedding_decoder'') (ea_tgt_vocab_file A)
                       (ea_tgt_embed_file A) (ea_tgt_vocab_size A) (ea_tgt_embed_size A)
                       [scope, u ''decoder''] [enc_partitioner, dec_partitioner]) (\<lambda>embedding_decoder.
              Inr (embedding_encoder, embedding_decoder))))))"


section \<open>Rows of pretrained vectors\<close>

text \<open>The vector of a word: the one of the file, or zeros for a trainable word without one.\<close>

definition vector_of :: "'f \<Rightarrow> int \<Rightarrow> pystr list \<Rightarrow> (pystr \<rightharpoonup> 'f list) \<Rightarrow> pystr \<Rightarrow> 'f list option" where
  "vector_of zero n trainable vecs token =
     (if vecs token = None \<and> token \<in> set trainable then Some (replicate (nat n) zero) else vecs token)"

lemma add_trainable_all:
  "foldE (add_trainable zero (Some n)) vecs ts = Inr (vector_of zero n ts vecs)"
proof (induction ts arbitrary: vecs)
  case Nil
  then show ?case by (auto simp: vector_of_def)
next
  case (Cons t ts)
  have "add_trainable zero (Some n) vecs t = Inr (if vecs t = None then vecs(t \<mapsto> replicate (nat n) zero) else vecs)"
    by (simp add: add_trainable_def)
  then have "foldE (add_trainable zero (Some n)) vecs (t # ts)
      = Inr (vector_of zero n ts (if vecs t = None then vecs(t \<mapsto> replicate (nat n) zero) else vecs))"
    by (simp only: foldE.simps bindE_simps Cons.IH)
  also have "vector_of zero n ts (if vecs t = None then vecs(t \<mapsto> replicate (nat n) zero) else vecs)
      = vector_of zero n (t # ts) vecs"
    by (auto simp: vector_of_def fun_eq_iff)
  finally show ?case .
qed

lemma mapE_dict_get:
  "mapE (dict_get m) ks = (if \<exists>k \<in> set ks. m k = None then Inl KeyError else Inr (map (the \<circ> m) ks))"
  by (induction ks) (auto simp: dict_get_def split: option.splits)

text \<open>
  C35. The matrix made of pretrained vectors, for a vocabulary of at least three words and a file
  without bare words: row i belongs to the i-th word of the vocabulary. The first three rows are
  one trainable variable, and every later row is the vector the file has for its word, of the
  size of the variable. The call raises \<open>KeyError\<close> exactly when some word after the first three
  is neither in the file nor a repetition of one of them.
\<close>

theorem pretrained_rows:
  assumes vocab: "load_vocab (ee_gfile E) (ee_world E) vocab_file = Inr (vocab, k)" "3 \<le> length vocab"
    and emb: "read_text (ee_gfile E) (ee_world E) embed_file = Inr text"
      "load_embed_txt (ee_gfile E) (ee_parse_int E) (ee_parse_float E) (ee_world E) embed_file = Inr (vecs, Some n)"
    and wide: "0 < n" "\<not> (\<exists>line \<in> set (splitlines_keep text). bare_word_line line)"
  shows "create_pretrained_emb_from_txt E vocab_file embed_file 3 scopes partitions =
    (if set (drop 3 vocab) \<subseteq> dom vecs \<union> set (take 3 vocab)
     then Inr (PretrainedBelow
            \<lparr>ev_scopes = scopes @ [u ''pretrain_embeddings''], ev_name = u ''emb_mat_var'', ev_rows = 3,
             ev_cols = n, ev_device = get_embed_device 3, ev_partitions = partitions\<rparr>
            (map (\<lambda>word. the (vector_of (ee_zero E) n (take 3 vocab) vecs word)) (drop 3 vocab)))
     else Inl KeyError)"
proof -
  let ?m = "vector_of (ee_zero E) n (take 3 vocab) vecs"
  have missing: "(\<exists>w \<in> set vocab. ?m w = None) \<longleftrightarrow> \<not> set (drop 3 vocab) \<subseteq> dom vecs \<union> set (take 3 vocab)"
    unfolding set_append[symmetric] using set_append[of "take 3 vocab" "drop 3 vocab"]
    by (auto simp: vector_of_def split: if_splits)
  have len: "int (length (the (?m w))) = n" if "?m w \<noteq> None" for w
  proof (cases "vecs w")
    case None
    with that wide(1) show ?thesis by (auto simp: vector_of_def split: if_splits)
  next
    case (Some vec)
    have "if vec = [] then \<exists>line \<in> set (splitlines_keep text). bare_word_line line
        else Some n = Some (int (length vec))"
      using embed_file_sizes[OF emb Some] .
    with wide(2) Some show ?thesis by (auto simp: vector_of_def split: if_splits)
  qed
  show ?thesis
  proof (cases "\<exists>w \<in> set vocab. ?m w = None")
    case True
    then show ?thesis
      by (simp add: create_pretrained_emb_from_txt_def vocab emb add_trainable_all mapE_dict_get Let_def flip: missing)
  next
    case False
    then have "\<forall>r \<in> set (map (the \<circ> ?m) vocab). Some n = Some (int (length r))" using len by auto
    moreover have "map (the \<circ> ?m) vocab \<noteq> []" using vocab(2) by auto
    ultimately have "const_rows (Some n) 3 (map (the \<circ> ?m) vocab) = Inr (map (the \<circ> ?m) (drop 3 vocab))"
      using vocab(2) by (simp add: const_rows_def drop_map)
    with False show ?thesis
      by (simp add: create_pretrained_emb_from_txt_def vocab emb add_trainable_all mapE_dict_get o_def Let_def flip: missing)
  qed
qed


definition sample_embed_env :: "(dict_fs, int) emb_env" where
  "sample_embed_env =
     \<lparr>ee_gfile = dict_gfile,
      ee_world = [[118] \<mapsto> utf8_encode [97, 10, 98, 10, 99, 10, 100, 10],
                  [101] \<mapsto> utf8_encode [97, 32, 49, 32, 50, 10, 100, 32, 51, 32, 52, 10]],
      ee_parse_int = digits_sum, ee_parse_float = digits_sum, ee_zero = 0\<rparr>"

lemma sample_embed_env_simps:
  "ee_gfile sample_embed_env = dict_gfile" "ee_parse_int sample_embed_env = digits_sum"
  "ee_parse_float sample_embed_env = digits_sum" "ee_zero sample_embed_env = 0"
  by (simp_all add: sample_embed_env_def)

lemma sample_embed_files:
  "read_text dict_gfile (ee_world sample_embed_env) [118] = Inr [97, 10, 98, 10, 99, 10, 100, 10]"
  "read_text dict_gfile (ee_world sample_embed_env) [101] = Inr [97, 32, 49, 32, 50, 10, 100, 32, 51, 32, 52, 10]"
  by (rule dict_read_encoded; simp add: sample_embed_env_def encodable_def scalar_def)+

definition four_words :: "pystr list" where
  "four_words = [[97], [98], [99], [100]]"

definition sample_vectors :: "pystr \<rightharpoonup> int list" where
  "sample_vectors = [[97] \<mapsto> [1, 2], [100] \<mapsto> [3, 4]]"

lemma sample_embed_vectors:
  "load_embed_txt dict_gfile digits_sum digits_sum (ee_world sample_embed_env) [101]
    = Inr (sample_vectors, Some 2)"
  by (simp add: sample_vectors_def load_embed_txt_def sample_embed_files embed_line_def Let_def
        rstrip_def is_space_def is_eol_def split_on_def digits_sum_def)

lemma sample_embed_vocab:
  "load_vocab dict_gfile (ee_world sample_embed_env) [118] = Inr (four_words, 4)"
  by (simp add: four_words_def load_vocab_eq sample_embed_files is_eol_def strip_def lstrip_def rstrip_def is_space_def)

theorem pretrained_rows_witness:
  "create_pretrained_emb_from_txt sample_embed_env [118] [101] 3 [] [] =
    (if set (drop 3 four_words) \<subseteq> dom sample_vectors \<union> set (take 3 four_words)
     then Inr (PretrainedBelow
            \<lparr>ev_scopes = [] @ [u ''pretrain_embeddings''], ev_name = u ''emb_mat_var'', ev_rows = 3,
             ev_cols = 2, ev_device = get_embed_device 3, ev_partitions = []\<rparr>
            (map (\<lambda>word. the (vector_of (ee_zero sample_embed_env) 2 (take 3 four_words)
                sample_vectors word)) (drop 3 four_words)))
     else Inl KeyError)"
proof (rule pretrained_rows)
  show "\<not> (\<exists>line \<in> set (splitlines_keep [97, 32, 49, 32, 50, 10, 100, 32, 51, 32, 52, 10]). bare_word_line line)"
    by (simp add: bare_word_line_def is_eol_def rstrip_def is_space_def split_on_def)
qed (simp_all add: sample_embed_env_simps sample_embed_files sample_embed_vectors sample_embed_vocab,
    simp add: four_words_def)

section \<open>Which matrices, and where\<close>

fun variable_of :: "'f embedding \<Rightarrow> emb_variable" where
  "variable_of (NewVariable v) = v"
| "variable_of (PretrainedBelow v rows) = v"

text \<open>
  \<open>placed emb scopes parts rows cols pretrained\<close>: the variable of the matrix is in these scopes,
  split by these partitioners, on the CPU if it has more than 50000 rows and on the GPU
  otherwise; it has the given size, or three trainable rows above the constant pretrained ones.
\<close>

definition placed ::
    "'f embedding \<Rightarrow> pystr list \<Rightarrow> int option list \<Rightarrow> int \<Rightarrow> int \<Rightarrow> bool \<Rightarrow> bool" where
  "placed emb scopes parts rows cols pretrained \<longleftrightarrow>
     (let v = variable_of emb
      in ev_partitions v = parts
       \<and> ev_device v = (if 50000 < ev_rows v then u ''/cpu:0'' else u ''/gpu:0'')
       \<and> (if pretrained
          then (\<exists>vectors. emb = PretrainedBelow v vectors) \<and> ev_rows v = 3
             \<and> ev_scopes v = scopes @ [u ''pretrain_embeddings'']
          else emb = NewVariable v \<and> ev_rows v = rows \<and> ev_cols v = cols \<and> ev_scopes v = scopes))"

lemma get_embed_device_rows: "get_embed_device n = (if 50000 < n then u ''/cpu:0'' else u ''/gpu:0'')"
  by (simp add: get_embed_device_def VOCAB_SIZE_THRESHOLD_CPU_def)

lemma create_or_load_embed_placed:
  "create_or_load_embed E name vocab_file embed_file rows cols scopes parts = Inr emb \<Longrightarrow>
     placed emb scopes parts rows cols (truthy vocab_file \<and> truthy embed_file)"
  by (auto simp: placed_def create_or_load_embed_def create_pretrained_emb_from_txt_def bindE_Inr_iff Let_def
      get_embed_device_rows split: if_splits prod.splits)

text \<open>
  C36. The two matrices, whenever they are built, and the file they are read from, if any. A shared
  vocabulary has one matrix for both sides, in the scope alone, and needs equal vocabulary and
  embedding sizes. Otherwise the variables are in different scopes inside it, with the
  sizes of their own side and their own partitioner inside that of the encoder, and there is no
  encoder matrix exactly when words are spelled out in characters. A variable of more than 50000
  rows is on the CPU, every other one on the GPU; the trainable part of a pretrained matrix has
  three rows. A side with a file of pretrained vectors never has a partitioner of its own.
\<close>

theorem embeddings_placed:
  fixes enc :: "'f embedding option"
  assumes "create_emb_for_encoder_and_decoder E A = Inr (enc, dec)"
  shows "let scope = (if truthy (ea_scope A) then the (ea_scope A) else u ''embeddings'');
             enc_parts = (if ea_num_enc_partitions A \<le> 1 then None else Some (ea_num_enc_partitions A));
             dec_parts = (if ea_num_dec_partitions A \<le> 1 then None else Some (ea_num_dec_partitions A))
         in \<not> (truthy (ea_src_embed_file A) \<and> 1 < ea_num_enc_partitions A)
          \<and> \<not> (truthy (ea_tgt_embed_file A) \<and> 1 < ea_num_dec_partitions A)
          \<and> (if ea_share_vocab A
             then ea_src_vocab_size A = ea_tgt_vocab_size A \<and> ea_src_embed_size A = ea_tgt_embed_size A
               \<and> enc = Some dec
               \<and> placed dec [scope] [enc_parts] (ea_src_vocab_size A) (ea_src_embed_size A)
                   ((truthy (ea_src_vocab_file A) \<or> truthy (ea_tgt_vocab_file A))
                    \<and> (truthy (ea_src_embed_file A) \<or> truthy (ea_tgt_embed_file A)))
             else (enc = None \<longleftrightarrow> ea_use_char_encode A)
               \<and> (\<forall>e. enc = Some e \<longrightarrow>
                    placed e [scope, u ''encoder''] [enc_parts, enc_parts] (ea_src_vocab_size A) (ea_src_embed_size A)
                      (truthy (ea_src_vocab_file A) \<and> truthy (ea_src_embed_file A)))
               \<and> placed dec [scope, u ''decoder''] [enc_parts, dec_parts] (ea_tgt_vocab_size A) (ea_tgt_embed_size A)
                   (truthy (ea_tgt_vocab_file A) \<and> truthy (ea_tgt_embed_file A)))"
proof (cases "ea_share_vocab A")
  case True
  have "truthy (py_or a b) \<longleftrightarrow> truthy a \<or> truthy b" for a b by (simp add: py_or_def)
  with assms True show ?thesis
    by (auto simp: create_emb_for_encoder_and_decoder_def fixed_size_partitioner_def bindE_Inr_iff Let_def
        dest!: create_or_load_embed_placed split: if_splits)
next
  case False
  with assms show ?thesis
    by (auto simp: create_emb_for_encoder_and_decoder_def fixed_size_partitioner_def bindE_Inr_iff Let_def
        dest!: create_or_load_embed_placed split: if_splits)
qed

definition sample_emb_args :: emb_args where
  "sample_emb_args = \<lparr>ea_share_vocab = False, ea_src_vocab_size = 60000, ea_tgt_vocab_size = 6,
     ea_src_embed_size = 2, ea_tgt_embed_size = 2, ea_num_enc_partitions = 2, ea_num_dec_partitions = 0,
     ea_src_vocab_file = None, ea_tgt_vocab_file = Some [118], ea_src_embed_file = None,
     ea_tgt_embed_file = None, ea_use_char_encode = False, ea_scope = None\<rparr>"

definition sample_decoder_matrix :: "int embedding" where
  "sample_decoder_matrix = NewVariable
     \<lparr>ev_scopes = [u ''embeddings'', u ''decoder''], ev_name = u ''embedding_decoder'', ev_rows = 6,
      ev_cols = 2, ev_device = u ''/gpu:0'', ev_partitions = [Some 2, None]\<rparr>"

definition sample_encoder_matrix :: "int embedding" where
  "sample_encoder_matrix = NewVariable
     \<lparr>ev_scopes = [u ''embeddings'', u ''encoder''], ev_name = u ''embedding_encoder'', ev_rows = 60000,
      ev_cols = 2, ev_device = u ''/cpu:0'', ev_partitions = [Some 2, Some 2]\<rparr>"

theorem embeddings_placed_witness:
  "placed sample_encoder_matrix [u ''embeddings'', u ''encoder''] [Some 2, Some 2] 60000 2 False
    \<and> placed sample_decoder_matrix [u ''embeddings'', u ''decoder''] [Some 2, None] 6 2 False"
proof -
  have "create_emb_for_encoder_and_decoder sample_embed_env sample_emb_args
      = Inr (Some sample_encoder_matrix, sample_decoder_matrix)"
    by (simp add: create_emb_for_encoder_and_decoder_def sample_emb_args_def truthy_def fixed_size_partitioner_def
        create_or_load_embed_def sample_encoder_matrix_def sample_decoder_matrix_def get_embed_device_rows Let_def)
  from embeddings_placed[OF this] show ?thesis by (simp add: sample_emb_args_def truthy_def Let_def)
qed

end
