(* ===== verification/Networks.thy ===== *)
theory Networks
  imports Cells Embeddings
begin

text \<open>
  The objects the model classes of \<open>nmt/\<close> build their graphs from: tensors, attention
  mechanisms and the nested states of cells, and the part of \<open>BaseModel\<close> that reads the
  hyper-parameters (\<open>_set_params_initializer\<close>, \<open>init_embeddings\<close>). A tensor is the term of the
  TensorFlow calls that made it. The state of a cell is known by its structure only: how many
  tensors the state of a recurrent unit has is the parameter \<open>B\<close>.
\<close>

section \<open>Tensors\<close>

datatype side = Encoder | Decoder
datatype direction = Forward | Backward

datatype tensor =
    Input pystr
  | Transpose tensor "nat list"
  | EmbeddingLookup side tensor
  | RnnOutputs "attention cell" direction tensor tensor bool
  | ConcatUnits "tensor list"
  | SliceUnits tensor "int option" "int option"
  | StackLayers "tensor list"
  | TileBatch tensor int
and attention =
    LuongAttention int tensor tensor bool
  | BahdanauAttention int tensor tensor bool

definition source :: tensor where "source = Input (u ''source'')"
definition target_input :: tensor where "target_input = Input (u ''target_input'')"
definition target_output :: tensor where "target_output = Input (u ''target_output'')"
definition source_sequence_length :: tensor where
  "source_sequence_length = Input (u ''source_sequence_length'')"
definition target_sequence_length :: tensor where
  "target_sequence_length = Input (u ''target_sequence_length'')"

text \<open>\<open>tf.transpose(x)\<close> of a matrix swaps its two axes.\<close>

definition transpose_matrix :: "tensor \<Rightarrow> tensor" where
  "transpose_matrix t = Transpose t [1, 0]"

section \<open>States\<close>

datatype 'a nest = Leaf 'a | Tuple "'a nest list" | AttentionState "'a nest"

datatype leaf =
    FinalOf "attention cell" direction tensor "nat list"
  | ZeroOf "attention cell" "nat list"
  | Tiled leaf int

type_synonym unit_states = "attention cell \<Rightarrow> nat option"

fun state_size :: "unit_states \<Rightarrow> attention cell \<Rightarrow> unit nest" where
  "state_size B (DropoutWrapper c p) = state_size B c"
| "state_size B (ResidualWrapper c f) = state_size B c"
| "state_size B (DeviceWrapper c d) = state_size B c"
| "state_size B (MultiRNNCell cs) = Tuple (map (state_size B) cs)"
| "state_size B (AttentionWrapper c m n h a) = AttentionState (state_size B c)"
| "state_size B (GNMTAttentionMultiCell c cs b) = Tuple (state_size B c # map (state_size B) cs)"
| "state_size B c = (case B c of None \<Rightarrow> Leaf () | Some k \<Rightarrow> Tuple (replicate k (Leaf ())))"

lemma size_zip_member [termination_simp]:
  "(i, n) \<in> set (zip is ns) \<Longrightarrow> size n < Suc (size_list size ns)"
  by (auto dest!: set_zip_rightD simp: less_Suc_eq_le intro: size_list_estimation')

fun fill :: "(nat list \<Rightarrow> 'a) \<Rightarrow> unit nest \<Rightarrow> 'a nest" where
  "fill f (Leaf _) = Leaf (f [])"
| "fill f (Tuple ns) = Tuple (map (\<lambda>(i, n). fill (\<lambda>p. f (i # p)) n) (zip [0..<length ns] ns))"
| "fill f (AttentionState n) = AttentionState (fill f n)"

definition shape :: "'a nest \<Rightarrow> unit nest" where
  "shape n = map_nest (\<lambda>_. ()) n"

definition final_state :: "unit_states \<Rightarrow> attention cell \<Rightarrow> direction \<Rightarrow> tensor \<Rightarrow> leaf nest" where
  "final_state B cell dir inputs = fill (FinalOf cell dir inputs) (state_size B cell)"

definition zero_state :: "unit_states \<Rightarrow> attention cell \<Rightarrow> leaf nest" where
  "zero_state B cell = fill (ZeroOf cell) (state_size B cell)"

text \<open>
  \<open>state[i]\<close>, \<open>clone(cell_state=...)\<close> and \<open>tile_batch\<close> of a state. Only the state of an attention
  wrapper has a \<open>clone\<close>, and it refuses (with a \<open>ValueError\<close>) a cell state of another structure.
\<close>

fun nest_get :: "'a nest \<Rightarrow> nat \<Rightarrow> 'a nest res" where
  "nest_get (Tuple ns) i = (if i < length ns then Inr (ns ! i) else Inl IndexError)"
| "nest_get _ i = Inl TypeError"

fun nest_items :: "'a nest \<Rightarrow> 'a nest list res" where
  "nest_items (Tuple ns) = Inr ns"
| "nest_items _ = Inl TypeError"

fun clone_cell_state :: "'a nest \<Rightarrow> 'a nest \<Rightarrow> 'a nest res" where
  "clone_cell_state (AttentionState n) es = (if shape es = shape n then Inr (AttentionState es) else Inl ValueError)"
| "clone_cell_state _ _ = Inl AttributeError"

definition tile_state :: "int \<Rightarrow> leaf nest \<Rightarrow> leaf nest" where
  "tile_state multiplier n = map_nest (\<lambda>l. Tiled l multiplier) n"

lemma shape_simps [simp]:
  "shape (Leaf x) = Leaf ()" "shape (Tuple ns) = Tuple (map shape ns)"
  "shape (AttentionState n) = AttentionState (shape n)"
  by (simp_all add: shape_def)

lemma shape_fill [simp]: "shape (fill f n) = n"
proof (induction n arbitrary: f)
  case (Tuple ns)
  have "map (\<lambda>(i, n). shape (fill (\<lambda>p. f (i # p)) n)) (zip [0..<length ns] ns) = map snd (zip [0..<length ns] ns)"
    by (rule map_cong) (auto simp: Tuple.IH dest: set_zip_rightD)
  then show ?case by (simp add: o_def case_prod_unfold)
qed auto

lemma shape_final [simp]: "shape (final_state B c d t) = state_size B c"
  by (simp add: final_state_def)

lemma shape_zero [simp]: "shape (zero_state B c) = state_size B c"
  by (simp add: zero_state_def)

lemma shape_tile [simp]: "shape (tile_state k n) = shape n"
  by (simp add: tile_state_def shape_def nest.map_comp o_def)

section \<open>Hyper-parameters and parameters of a model\<close>

record net_hparams =
  hn_unit_type :: pystr
  hn_num_units :: int
  hn_forget_bias :: real
  hn_dropout :: real
  hn_num_gpus :: int
  hn_time_major :: bool
  hn_use_char_encode :: bool
  hn_num_sampled_softmax :: int
  hn_num_encoder_layers :: int
  hn_num_decoder_layers :: int
  hn_num_residual_layers :: "int option"
  hn_num_encoder_residual_layers :: int
  hn_num_decoder_residual_layers :: int
  hn_random_seed :: "int option"
  hn_init_op :: pystr
  hn_init_weight :: "real option"
  hn_share_vocab :: bool
  hn_src_vocab_size :: int
  hn_tgt_vocab_size :: int
  hn_num_enc_emb_partitions :: int
  hn_num_dec_emb_partitions :: int
  hn_src_vocab_file :: pystr
  hn_tgt_vocab_file :: pystr
  hn_src_embed_file :: "pystr option"
  hn_tgt_embed_file :: "pystr option"
  hn_encoder_type :: pystr
  hn_attention :: pystr
  hn_attention_architecture :: pystr
  hn_output_attention :: bool
  hn_pass_hidden_state :: bool
  hn_language_model :: bool
  hn_infer_mode :: pystr
  hn_beam_width :: int
  hn_length_penalty_weight :: real
  hn_coverage_penalty_weight :: real
  hn_sampling_temperature :: real
  hn_tgt_max_len_infer :: "int option"
  hn_sos :: pystr
  hn_eos :: pystr
  hn_optimizer :: pystr
  hn_colocate_gradients_with_ops :: bool
  hn_max_gradient_norm :: real
  hn_num_keep_ckpts :: int
  hn_extract_encoder_layers :: bool

type_synonym mechanism_fn = "pystr \<Rightarrow> int \<Rightarrow> tensor \<Rightarrow> tensor \<Rightarrow> mode \<Rightarrow> attention res"

record extra_args =
  xa_single_cell_fn :: "(cell_args \<Rightarrow> attention cell res) option"
  xa_attention_mechanism_fn :: "mechanism_fn option"
  xa_encoder_emb_lookup_fn :: "(tensor \<Rightarrow> tensor res) option"
  xa_model_device_fn :: "(pystr \<Rightarrow> pystr) option"

record 'f net =
  nt_mode :: mode
  nt_num_gpus :: int
  nt_time_major :: bool
  nt_num_sampled_softmax :: int
  nt_single_cell_fn :: "(cell_args \<Rightarrow> attention cell res) option"
  nt_num_units :: int
  nt_num_encoder_layers :: int
  nt_num_decoder_layers :: int
  nt_num_encoder_residual_layers :: int
  nt_num_decoder_residual_layers :: int
  nt_random_seed :: "int option"
  nt_initializer :: initializer
  nt_encoder_emb_lookup_fn :: "tensor \<Rightarrow> tensor res"
  nt_embedding_encoder :: "'f embedding option"
  nt_embedding_decoder :: "'f embedding"
  nt_attention_mechanism_fn :: "mechanism_fn option"
  nt_has_attention :: bool
  nt_is_gnmt_attention :: bool

definition init_embeddings ::
    "('w, 'f) emb_env \<Rightarrow> net_hparams \<Rightarrow> pystr option \<Rightarrow> ('f embedding option \<times> 'f embedding) res" where
  "init_embeddings E h scope =
     create_emb_for_encoder_and_decoder E
       \<lparr>ea_share_vocab = hn_share_vocab h, ea_src_vocab_size = hn_src_vocab_size h,
        ea_tgt_vocab_size = hn_tgt_vocab_size h, ea_src_embed_size = hn_num_units h,
        ea_tgt_embed_size = hn_num_units h, ea_num_enc_partitions = hn_num_enc_emb_partitions h,
        ea_num_dec_partitions = hn_num_dec_emb_partitions h,
        ea_src_vocab_file = Some (hn_src_vocab_file h), ea_tgt_vocab_file = Some (hn_tgt_vocab_file h),
        ea_src_embed_file = hn_src_embed_file h, ea_tgt_embed_file = hn_tgt_embed_file h,
        ea_use_char_encode = hn_use_char_encode h, ea_scope = scope\<rparr>"

text \<open>\<open>tf.nn.embedding_lookup\<close> refuses to look up in \<open>None\<close>.\<close>

definition embedding_lookup :: "side \<Rightarrow> 'f embedding option \<Rightarrow> tensor \<Rightarrow> tensor res" where
  "embedding_lookup side emb ids =
     (if emb = None then Inl ValueError else Inr (EmbeddingLookup side ids))"

definition set_params_initializer ::
    "('w, 'f) emb_env \<Rightarrow> net_hparams \<Rightarrow> mode \<Rightarrow> pystr option \<Rightarrow> extra_args option \<Rightarrow> 'f net res" where
  "set_params_initializer E h mode scope extra_args =
     bindE (if hn_use_char_encode h then assertE (\<not> hn_time_major h) else Inr ()) (\<lambda>_.
     bindE (assertE (hn_num_encoder_layers h \<noteq> 0)) (\<lambda>_.
     bindE (assertE (hn_num_decoder_layers h \<noteq> 0)) (\<lambda>_.
     let (enc_residual, dec_residual) =
           (case hn_num_residual_layers h of
              Some n \<Rightarrow> (n, n)
            | None \<Rightarrow> (hn_num_encoder_residual_layers h, hn_num_decoder_residual_layers h))
     in bindE (get_initializer (hn_init_op h) (hn_random_seed h) (hn_init_weight h)) (\<lambda>initializer.
        bindE (init_embeddings E h scope) (\<lambda>(embedding_encoder, embedding_decoder).
        Inr \<lparr>nt_mode = mode, nt_num_gpus = hn_num_gpus h, nt_time_major = hn_time_major h,
             nt_num_sampled_softmax = hn_num_sampled_softmax h,
             nt_single_cell_fn = (case extra_args of None \<Rightarrow> None | Some x \<Rightarrow> xa_single_cell_fn x),
             nt_num_units = hn_num_units h, nt_num_encoder_layers = hn_num_encoder_layers h,
             nt_num_decoder_layers = hn_num_decoder_layers h,
             nt_num_encoder_residual_layers = enc_residual, nt_num_decoder_residual_layers = dec_residual,
             nt_random_seed = hn_random_seed h, nt_initializer = initializer,
             nt_encoder_emb_lookup_fn =
               (case extra_args of
                  Some x \<Rightarrow> (case xa_encoder_emb_lookup_fn x of
                     Some f \<Rightarrow> f | None \<Rightarrow> embedding_lookup Encoder embedding_encoder)
                | None \<Rightarrow> embedding_lookup Encoder embedding_encoder),
             nt_embedding_encoder = embedding_encoder, nt_embedding_decoder = embedding_decoder,
             nt_attention_mechanism_fn = None, nt_has_attention = False, nt_is_gnmt_attention = False\<rparr>)))))"

end
