(* ===== verification/Encoders.thy ===== *)
theory Encoders
  imports Networks
begin

text \<open>
  The encoders: the unidirectional and bidirectional ones of \<open>nmt/model.py\<close> and the one of
  \<open>nmt/gnmt_model.py\<close>, with the shape of the state they hand to the decoder and the layout of
  their outputs. Which axis of a tensor is the batch and which is time is read off its term.
\<close>

section \<open>Building an encoder\<close>

record encoded =
  en_outputs :: tensor
  en_state :: "leaf nest"
  en_emb_inp :: tensor
  en_state_list :: "tensor list"

definition cell_config_of :: "'f net \<Rightarrow> net_hparams \<Rightarrow> int \<Rightarrow> int \<Rightarrow> int \<Rightarrow> attention cell_config" where
  "cell_config_of T h num_layers num_residual_layers base_gpu =
     \<lparr>cc_unit_type = hn_unit_type h, cc_num_units = nt_num_units T, cc_num_layers = num_layers,
      cc_num_residual_layers = num_residual_layers, cc_forget_bias = hn_forget_bias h,
      cc_dropout = hn_dropout h, cc_mode = nt_mode T, cc_num_gpus = hn_num_gpus h,
      cc_base_gpu = base_gpu, cc_single_cell_fn = nt_single_cell_fn T, cc_residual_fn = None\<rparr>"

definition build_encoder_cell :: "'f net \<Rightarrow> net_hparams \<Rightarrow> int \<Rightarrow> int \<Rightarrow> int \<Rightarrow> attention cell res" where
  "build_encoder_cell T h num_layers num_residual_layers base_gpu =
     create_rnn_cell (cell_config_of T h num_layers num_residual_layers base_gpu)"

definition dynamic_rnn ::
    "unit_states \<Rightarrow> attention cell \<Rightarrow> tensor \<Rightarrow> tensor \<Rightarrow> bool \<Rightarrow> tensor \<times> leaf nest" where
  "dynamic_rnn B cell inputs sequence_length time_major =
     (RnnOutputs cell Forward inputs sequence_length time_major, final_state B cell Forward inputs)"

definition build_bidirectional_rnn ::
    "unit_states \<Rightarrow> 'f net \<Rightarrow> net_hparams \<Rightarrow> tensor \<Rightarrow> tensor \<Rightarrow> int \<Rightarrow> int \<Rightarrow> int
     \<Rightarrow> (tensor \<times> leaf nest) res" where
  "build_bidirectional_rnn B T h inputs sequence_length num_bi_layers num_bi_residual_layers base_gpu =
     bindE (build_encoder_cell T h num_bi_layers num_bi_residual_layers base_gpu) (\<lambda>fw_cell.
     bindE (build_encoder_cell T h num_bi_layers num_bi_residual_layers (base_gpu + num_bi_layers)) (\<lambda>bw_cell.
     Inr (ConcatUnits [RnnOutputs fw_cell Forward inputs sequence_length (nt_time_major T),
                       RnnOutputs bw_cell Backward inputs sequence_length (nt_time_major T)],
          Tuple [final_state B fw_cell Forward inputs, final_state B bw_cell Backward inputs])))"

text \<open>Forward and backward states, layer by layer.\<close>

definition interleave_states :: "leaf nest \<Rightarrow> nat \<Rightarrow> leaf nest list res" where
  "interleave_states bi_encoder_state num_bi_layers =
     bindE (nest_get bi_encoder_state 0) (\<lambda>forward.
     bindE (nest_get bi_encoder_state 1) (\<lambda>backward.
     foldE (\<lambda>encoder_state layer_id.
       bindE (nest_get forward layer_id) (\<lambda>fw.
       bindE (nest_get backward layer_id) (\<lambda>bw.
       Inr (encoder_state @ [fw] @ [bw])))) [] [0..<num_bi_layers]))"

definition run_encoder ::
    "unit_states \<Rightarrow> 'f net \<Rightarrow> net_hparams \<Rightarrow> tensor \<Rightarrow> tensor \<Rightarrow> (tensor \<times> leaf nest) res" where
  "run_encoder B T h encoder_emb_inp sequence_length =
     (let num_layers = nt_num_encoder_layers T;
          num_residual_layers = nt_num_encoder_residual_layers T
      in if hn_encoder_type h = u ''uni''
         then bindE (build_encoder_cell T h num_layers num_residual_layers 0) (\<lambda>cell.
              Inr (dynamic_rnn B cell encoder_emb_inp sequence_length (nt_time_major T)))
         else if hn_encoder_type h = u ''bi''
         then let num_bi_layers = int_of_div num_layers 2;
                  num_bi_residual_layers = int_of_div num_residual_layers 2
              in bindE (build_bidirectional_rnn B T h encoder_emb_inp sequence_length
                          num_bi_layers num_bi_residual_layers 0) (\<lambda>(encoder_outputs, bi_encoder_state).
                 if num_bi_layers = 1 then Inr (encoder_outputs, bi_encoder_state)
                 else bindE (interleave_states bi_encoder_state (nat num_bi_layers)) (\<lambda>encoder_state.
                      Inr (encoder_outputs, Tuple encoder_state)))
         else Inl ValueError)"

definition build_encoder_from_sequence ::
    "unit_states \<Rightarrow> 'f net \<Rightarrow> net_hparams \<Rightarrow> tensor \<Rightarrow> tensor \<Rightarrow> encoded res" where
  "build_encoder_from_sequence B T h sequence sequence_length =
     (let sequence = (if nt_time_major T then transpose_matrix sequence else sequence)
      in bindE (nt_encoder_emb_lookup_fn T sequence) (\<lambda>encoder_emb_inp.
         bindE (run_encoder B T h encoder_emb_inp sequence_length) (\<lambda>(encoder_outputs, encoder_state).
         Inr \<lparr>en_outputs = encoder_outputs, en_state = encoder_state, en_emb_inp = encoder_emb_inp,
              en_state_list = [encoder_outputs]\<rparr>)))"

definition build_encoder :: "unit_states \<Rightarrow> 'f net \<Rightarrow> net_hparams \<Rightarrow> encoded res" where
  "build_encoder B T h = build_encoder_from_sequence B T h source source_sequence_length"

section \<open>The GNMT encoder\<close>

definition uni_cell_config :: "'f net \<Rightarrow> net_hparams \<Rightarrow> int \<Rightarrow> attention cell_config" where
  "uni_cell_config T h num_uni_layers =
     \<lparr>cc_unit_type = hn_unit_type h, cc_num_units = hn_num_units h, cc_num_layers = num_uni_layers,
      cc_num_residual_layers = nt_num_encoder_residual_layers T, cc_forget_bias = hn_forget_bias h,
      cc_dropout = hn_dropout h, cc_mode = nt_mode T, cc_num_gpus = nt_num_gpus T,
      cc_base_gpu = 1, cc_single_cell_fn = nt_single_cell_fn T, cc_residual_fn = None\<rparr>"

definition build_all_encoder_layers ::
    "unit_states \<Rightarrow> 'f net \<Rightarrow> net_hparams \<Rightarrow> tensor \<Rightarrow> int \<Rightarrow> (leaf nest \<times> tensor \<times> tensor list) res" where
  "build_all_encoder_layers B T h bi_encoder_outputs num_uni_layers =
     bindE (create_rnn_cell (uni_cell_config T h num_uni_layers)) (\<lambda>uni_cell.
     let (encoder_outputs, encoder_state) =
           dynamic_rnn B uni_cell bi_encoder_outputs source_sequence_length (nt_time_major T)
     in Inr (encoder_state, encoder_outputs, [encoder_outputs]))"

definition run_layer ::
    "unit_states \<Rightarrow> bool \<Rightarrow> tensor \<times> leaf nest list \<times> tensor list \<Rightarrow> attention cell
     \<Rightarrow> tensor \<times> leaf nest list \<times> tensor list" where
  "run_layer B time_major = (\<lambda>(encoder_inp, encoder_states, state_list) cell.
     let (encoder_inp, encoder_state) = dynamic_rnn B cell encoder_inp source_sequence_length time_major
     in (encoder_inp, encoder_states @ [encoder_state], state_list @ [encoder_inp]))"

definition build_individual_encoder_layers ::
    "unit_states \<Rightarrow> 'f net \<Rightarrow> net_hparams \<Rightarrow> tensor \<Rightarrow> int \<Rightarrow> (leaf nest \<times> tensor \<times> tensor list) res" where
  "build_individual_encoder_layers B T h bi_encoder_outputs num_uni_layers =
     bindE (cell_list (uni_cell_config T h num_uni_layers)) (\<lambda>uni_cell_lists.
     let (encoder_inp, encoder_states, state_list) =
           foldl (run_layer B (nt_time_major T))
             (bi_encoder_outputs, [], [SliceUnits bi_encoder_outputs None (Some (hn_num_units h)),
                                       SliceUnits bi_encoder_outputs (Some (hn_num_units h)) None])
             uni_cell_lists
     in Inr (Tuple encoder_states, last state_list, state_list))"

definition gnmt_build_encoder :: "unit_states \<Rightarrow> 'f net \<Rightarrow> net_hparams \<Rightarrow> encoded res" where
  "gnmt_build_encoder B T h =
     (if hn_encoder_type h = u ''uni'' \<or> hn_encoder_type h = u ''bi'' then build_encoder B T h
      else if hn_encoder_type h \<noteq> u ''gnmt'' then Inl ValueError
      else let num_bi_layers = 1;
               num_uni_layers = nt_num_encoder_layers T - num_bi_layers;
               source = (if nt_time_major T then transpose_matrix source else source)
           in bindE (nt_encoder_emb_lookup_fn T source) (\<lambda>encoder_emb_inp.
              bindE (build_bidirectional_rnn B T h encoder_emb_inp source_sequence_length num_bi_layers 0 0)
                (\<lambda>(bi_encoder_outputs, bi_encoder_state).
              bindE (if hn_extract_encoder_layers h
                     then build_individual_encoder_layers B T h bi_encoder_outputs num_uni_layers
                     else build_all_encoder_layers B T h bi_encoder_outputs num_uni_layers)
                (\<lambda>(encoder_state, encoder_outputs, state_list).
              bindE (nest_get bi_encoder_state 1) (\<lambda>backward.
              bindE (if num_uni_layers = 1 then Inr [encoder_state] else nest_items encoder_state) (\<lambda>rest.
              Inr \<lparr>en_outputs = encoder_outputs, en_state = Tuple ([backward] @ rest),
                   en_emb_inp = encoder_emb_inp, en_state_list = state_list\<rparr>))))))"

definition build_encoder_states :: "'f net \<Rightarrow> encoded \<Rightarrow> bool \<Rightarrow> tensor res" where
  "build_encoder_states T en include_embeddings =
     bindE (assertE (nt_mode T = INFER)) (\<lambda>_.
     let stack_state_list =
           (if include_embeddings then StackLayers ([en_emb_inp en] @ en_state_list en)
            else StackLayers (en_state_list en))
     in Inr (if nt_time_major T then Transpose stack_state_list [1, 0, 2, 3] else stack_state_list))"


section \<open>Layouts\<close>

datatype axis_order = BatchMajor | TimeMajor

fun swapped :: "axis_order \<Rightarrow> axis_order" where
  "swapped BatchMajor = TimeMajor"
| "swapped TimeMajor = BatchMajor"

definition layout_of :: "bool \<Rightarrow> axis_order" where
  "layout_of time_major = (if time_major then TimeMajor else BatchMajor)"

definition common :: "axis_order option list \<Rightarrow> axis_order option" where
  "common ls = (case ls of [] \<Rightarrow> None | l # ls \<Rightarrow> if set ls \<subseteq> {l} then l else None)"

text \<open>
  The layout of a tensor, if its term makes sense: the iterator gives batches, a transposition
  swaps or keeps the first two axes, \<open>dynamic_rnn\<close> must be told the layout its input has, and
  \<open>tile_batch\<close> repeats entries of the first axis, which must be the batch.
\<close>

fun axes :: "tensor \<Rightarrow> axis_order option" where
  "axes (Input s) = Some BatchMajor"
| "axes (Transpose t perm) =
     (if take 2 perm = [1, 0] then map_option swapped (axes t)
      else if take 2 perm = [0, 1] then axes t else None)"
| "axes (EmbeddingLookup side t) = axes t"
| "axes (RnnOutputs c d t len time_major) =
     (if axes t = Some (layout_of time_major) then axes t else None)"
| "axes (ConcatUnits ts) = common (map axes ts)"
| "axes (SliceUnits t i j) = axes t"
| "axes (StackLayers ts) = common (map axes ts)"
| "axes (TileBatch t k) = (if axes t = Some BatchMajor then axes t else None)"

definition keeps_layout :: "(tensor \<Rightarrow> tensor res) \<Rightarrow> bool" where
  "keeps_layout f \<longleftrightarrow> (\<forall>t t'. f t = Inr t' \<longrightarrow> axes t' = axes t)"

lemma keeps_layout_lookup: "keeps_layout (embedding_lookup side emb)"
  by (auto simp: keeps_layout_def embedding_lookup_def split: if_splits)

lemma axes_source [simp]:
  "axes (if time_major then transpose_matrix source else source) = Some (layout_of time_major)"
  by (simp add: source_def transpose_matrix_def layout_of_def)

lemma common_all: "ls \<noteq> [] \<Longrightarrow> set ls \<subseteq> {l} \<Longrightarrow> common ls = l"
  by (auto simp: common_def split: list.splits)

lemma bidirectional_layout:
  assumes "build_bidirectional_rnn B T h inputs len n r g = Inr (outputs, state)"
    and "axes inputs = Some (layout_of (nt_time_major T))"
  shows "axes outputs = Some (layout_of (nt_time_major T))"
  using assms by (auto simp: build_bidirectional_rnn_def bindE_Inr_iff common_def)

lemma run_encoder_layout:
  assumes "axes inputs = Some (layout_of (nt_time_major T))"
  shows "okE (run_encoder B T h inputs len) (\<lambda>(outputs, state). axes outputs = Some (layout_of (nt_time_major T)))"
  unfolding run_encoder_def Let_def
proof (intro okE_if)
  show "okE (bindE (build_encoder_cell T h (nt_num_encoder_layers T) (nt_num_encoder_residual_layers T) 0)
        (\<lambda>cell. Inr (dynamic_rnn B cell inputs len (nt_time_major T))))
        (\<lambda>(outputs, state). axes outputs = Some (layout_of (nt_time_major T)))"
    using assms by (auto intro!: okE_rules simp: dynamic_rnn_def)
  show "okE (bindE (build_bidirectional_rnn B T h inputs len (int_of_div (nt_num_encoder_layers T) 2)
            (int_of_div (nt_num_encoder_residual_layers T) 2) 0) (\<lambda>(encoder_outputs, bi_encoder_state).
        if int_of_div (nt_num_encoder_layers T) 2 = 1 then Inr (encoder_outputs, bi_encoder_state)
        else bindE (interleave_states bi_encoder_state (nat (int_of_div (nt_num_encoder_layers T) 2)))
               (\<lambda>encoder_state. Inr (encoder_outputs, Tuple encoder_state))))
        (\<lambda>(outputs, state). axes outputs = Some (layout_of (nt_time_major T)))"
    using bidirectional_layout[OF _ assms]
    by (intro okE_rules) auto
qed (rule okE_result)

lemma looked_up_layout:
  assumes "keeps_layout (nt_encoder_emb_lookup_fn T)"
    and "nt_encoder_emb_lookup_fn T (if nt_time_major T then transpose_matrix source else source) = Inr emb"
  shows "axes emb = Some (layout_of (nt_time_major T))"
  using assms axes_source unfolding keeps_layout_def by metis

text \<open>Built tensors all have the layout the flag says.\<close>

definition encoded_layout :: "'f net \<Rightarrow> encoded \<Rightarrow> bool" where
  "encoded_layout T en \<longleftrightarrow> (\<forall>t \<in> set ([en_emb_inp en, en_outputs en] @ en_state_list en).
     axes t = Some (layout_of (nt_time_major T))) \<and> en_state_list en \<noteq> []"

lemma build_encoder_layout:
  assumes "keeps_layout (nt_encoder_emb_lookup_fn T)"
  shows "okE (build_encoder B T h) (encoded_layout T)"
  unfolding build_encoder_def build_encoder_from_sequence_def Let_def
proof (rule okE_bind_any)
  fix emb assume "nt_encoder_emb_lookup_fn T (if nt_time_major T then transpose_matrix source else source) = Inr emb"
  then have emb: "axes emb = Some (layout_of (nt_time_major T))" by (rule looked_up_layout[OF assms])
  show "okE (bindE (run_encoder B T h emb source_sequence_length) (\<lambda>(encoder_outputs, encoder_state).
         Inr \<lparr>en_outputs = encoder_outputs, en_state = encoder_state, en_emb_inp = emb,
              en_state_list = [encoder_outputs]\<rparr>)) (encoded_layout T)"
    using run_encoder_layout[OF emb, of B h source_sequence_length] emb
    by (intro okE_rules) (auto simp: encoded_layout_def dest: okE_D)
qed

lemma run_layer_simp:
  "run_layer B time_major (x, ss, ts) c =
     (RnnOutputs c Forward x source_sequence_length time_major, ss @ [final_state B c Forward x],
      ts @ [RnnOutputs c Forward x source_sequence_length time_major])"
  by (simp add: run_layer_def dynamic_rnn_def)

lemma individual_layers_layout:
  assumes "axes x = Some (layout_of time_major)" "\<forall>t \<in> set ts. axes t = Some (layout_of time_major)"
    and "foldl (run_layer B time_major) (x, ss, ts) cells = (x', ss', ts')"
  shows "\<forall>t \<in> set ts'. axes t = Some (layout_of time_major)"
  using assms
proof (induction cells arbitrary: x ss ts)
  case (Cons c cs)
  show ?case
    by (rule Cons.IH) (use Cons.prems in \<open>auto simp: run_layer_simp\<close>)
qed auto

lemma individual_layers_list:
  assumes "foldl (run_layer B time_major) (x, ss, ts) cells = (x', ss', ts')"
  shows "\<exists>us. ts' = ts @ us \<and> map shape ss' = map shape ss @ map (state_size B) cells"
  using assms
proof (induction cells arbitrary: x ss ts)
  case (Cons c cs)
  then have "foldl (run_layer B time_major)
      (RnnOutputs c Forward x source_sequence_length time_major, ss @ [final_state B c Forward x],
       ts @ [RnnOutputs c Forward x source_sequence_length time_major]) cs = (x', ss', ts')"
    by (simp add: run_layer_simp)
  from Cons.IH[OF this] show ?case by auto
qed auto

lemma gnmt_build_encoder_layout:
  assumes "keeps_layout (nt_encoder_emb_lookup_fn T)"
  shows "okE (gnmt_build_encoder B T h) (encoded_layout T)"
  unfolding gnmt_build_encoder_def Let_def
proof (intro okE_rules build_encoder_layout[OF assms])
  fix emb p bi st q s o2 out ts backward rest
  assume "nt_encoder_emb_lookup_fn T (if nt_time_major T then transpose_matrix source else source) = Inr emb"
  then have emb: "axes emb = Some (layout_of (nt_time_major T))" by (rule looked_up_layout[OF assms])
  assume "build_bidirectional_rnn B T h emb source_sequence_length 1 0 0 = Inr p" "p = (bi, st)"
  then have bi: "axes bi = Some (layout_of (nt_time_major T))" using bidirectional_layout[OF _ emb] by blast
  assume q: "(if hn_extract_encoder_layers h
        then build_individual_encoder_layers B T h bi (nt_num_encoder_layers T - 1)
        else build_all_encoder_layers B T h bi (nt_num_encoder_layers T - 1)) = Inr q"
  assume "q = (s, o2)" "o2 = (out, ts)"
  then have q3: "q = (s, out, ts)" by simp
  have "ts \<noteq> [] \<and> (\<forall>t \<in> set (out # ts). axes t = Some (layout_of (nt_time_major T)))"
  proof (cases "hn_extract_encoder_layers h")
    case True
    with q q3 have run: "build_individual_encoder_layers B T h bi (nt_num_encoder_layers T - 1) = Inr (s, out, ts)"
      by simp
    then obtain cells where cells: "cell_list (uni_cell_config T h (nt_num_encoder_layers T - 1)) = Inr cells"
      by (auto simp: build_individual_encoder_layers_def bindE_Inr_iff)
    obtain x ss us where fold: "foldl (run_layer B (nt_time_major T))
             (bi, [], [SliceUnits bi None (Some (hn_num_units h)), SliceUnits bi (Some (hn_num_units h)) None])
             cells = (x, ss, us)" by (metis prod_cases3)
    with run cells have out: "us = ts" "out = last ts"
      by (auto simp: build_individual_encoder_layers_def)
    note fold = fold[unfolded out]
    have "\<forall>t \<in> set ts. axes t = Some (layout_of (nt_time_major T))"
      by (rule individual_layers_layout[OF bi _ fold]) (simp add: bi)
    moreover have "ts \<noteq> []" using individual_layers_list[OF fold] by auto
    ultimately show ?thesis using out by simp
  next
    case False
    with q q3 bi show ?thesis by (auto simp: build_all_encoder_layers_def dynamic_rnn_def bindE_Inr_iff)
  qed
  then show "encoded_layout T \<lparr>en_outputs = out, en_state = Tuple ([backward] @ rest), en_emb_inp = emb,
      en_state_list = ts\<rparr>"
    using emb q3 by (simp add: encoded_layout_def)
qed

section \<open>The shapes of encoder states\<close>

lemma state_size_unit: "state_size B (unit_of c) = state_size B c"
  by (induction c rule: unit_of.induct) auto

text \<open>The shape of the state of one layer: that of the unit, which the wrappers keep.\<close>

definition layer_state :: "unit_states \<Rightarrow> pystr \<Rightarrow> int \<Rightarrow> real \<Rightarrow> unit nest" where
  "layer_state B unit_type num_units forget_bias =
     state_size B (if unit_type = u ''lstm'' then BasicLSTMCell num_units forget_bias
       else if unit_type = u ''gru'' then GRUCell num_units
       else if unit_type = u ''layer_norm_lstm'' then LayerNormBasicLSTMCell num_units forget_bias True
       else NASCell num_units)"

lemma base_cell_state:
  "base_cell a = Inr c \<Longrightarrow> state_size B c = layer_state B (ca_unit_type a) (ca_num_units a) (ca_forget_bias a)"
  by (auto simp: base_cell_def layer_state_def split: if_splits)

lemma cell_list_states:
  fixes C :: "attention cell_config"
  assumes "cc_single_cell_fn C = None" "known_unit (cc_unit_type C)"
  shows "\<exists>cs. cell_list C = Inr cs \<and> length cs = nat (cc_num_layers C) \<and> map (state_size B) cs
    = replicate (nat (cc_num_layers C)) (layer_state B (cc_unit_type C) (cc_num_units C) (cc_forget_bias C))"
proof -
  obtain cs where cs: "cell_list C = Inr cs" "length cs = nat (cc_num_layers C)"
      and each: "\<And>i. i < nat (cc_num_layers C) \<Longrightarrow> single_cell (cell_args_of C (int i)) = Inr (cs ! i)"
    using cell_list_default[OF assms] by auto
  have "state_size B (cs ! i) = layer_state B (cc_unit_type C) (cc_num_units C) (cc_forget_bias C)"
    if "i < nat (cc_num_layers C)" for i
  proof -
    have "base_cell (cell_args_of C (int i)) = Inr (unit_of (cs ! i))"
      using single_cell_layer[OF each[OF that]] by blast
    from base_cell_state[OF this, of B] show ?thesis by (simp add: cell_args_of_def state_size_unit)
  qed
  with cs show ?thesis by (intro exI[of _ cs] conjI nth_equalityI) auto
qed

definition stacked :: "nat \<Rightarrow> unit nest \<Rightarrow> unit nest" where
  "stacked n s = (if n = 1 then s else Tuple (replicate n s))"

lemma create_rnn_cell_state:
  fixes C :: "attention cell_config"
  assumes "cc_single_cell_fn C = None" "known_unit (cc_unit_type C)" "0 < cc_num_layers C"
  shows "\<exists>c. create_rnn_cell C = Inr c \<and> state_size B c
    = stacked (nat (cc_num_layers C)) (layer_state B (cc_unit_type C) (cc_num_units C) (cc_forget_bias C))"
proof -
  let ?C = "C\<lparr>cc_residual_fn := None\<rparr>" and ?n = "nat (cc_num_layers C)"
  let ?s = "layer_state B (cc_unit_type C) (cc_num_units C) (cc_forget_bias C)"
  obtain cs where cs: "cell_list ?C = Inr cs" "length cs = ?n" "map (state_size B) cs = replicate ?n ?s"
    using cell_list_states[of ?C B] assms by auto
  show ?thesis
  proof (cases "?n = 1")
    case True
    with cs obtain c where "cs = [c]" by (cases cs) auto
    with cs True show ?thesis by (simp add: create_rnn_cell_def stacked_def)
  next
    case False
    with cs(2) assms(3) obtain c c' cs' where "cs = c # c' # cs'" by (cases cs rule: remdups_adj.cases) auto
    with cs False show ?thesis by (simp add: create_rnn_cell_def multi_rnn_cell_def stacked_def)
  qed
qed

definition plain_units :: "'f net \<Rightarrow> net_hparams \<Rightarrow> bool" where
  "plain_units T h \<longleftrightarrow> nt_single_cell_fn T = None \<and> known_unit (hn_unit_type h) \<and> nt_num_units T = hn_num_units h"

definition unit_state :: "unit_states \<Rightarrow> net_hparams \<Rightarrow> unit nest" where
  "unit_state B h = layer_state B (hn_unit_type h) (hn_num_units h) (hn_forget_bias h)"

lemma build_encoder_cell_state:
  assumes "plain_units T h" "0 < n"
  shows "\<exists>c. build_encoder_cell T h n r g = Inr c \<and> state_size B c = stacked (nat n) (unit_state B h)"
  using create_rnn_cell_state[of "cell_config_of T h n r g" B] assms
  by (simp add: build_encoder_cell_def cell_config_of_def plain_units_def unit_state_def)

lemma bidirectional_state:
  assumes "plain_units T h" "0 < n"
  shows "\<exists>out fw bw. build_bidirectional_rnn B T h inputs len n r g = Inr (out, Tuple [fw, bw])
    \<and> shape fw = stacked (nat n) (unit_state B h) \<and> shape bw = stacked (nat n) (unit_state B h)"
proof -
  from build_encoder_cell_state[OF assms] obtain c d where
      "build_encoder_cell T h n r g = Inr c" "state_size B c = stacked (nat n) (unit_state B h)"
      "build_encoder_cell T h n r (g + n) = Inr d" "state_size B d = stacked (nat n) (unit_state B h)"
    by metis
  then show ?thesis by (simp add: build_bidirectional_rnn_def)
qed

lemma interleaved:
  assumes "k \<le> length fs" "k \<le> length bs"
  shows "interleave_states (Tuple [Tuple fs, Tuple bs]) k = Inr (concat (map (\<lambda>i. [fs ! i, bs ! i]) [0..<k]))"
proof -
  have "foldE (\<lambda>encoder_state layer_id. bindE (nest_get (Tuple fs) layer_id) (\<lambda>fw.
       bindE (nest_get (Tuple bs) layer_id) (\<lambda>bw. Inr (encoder_state @ [fw] @ [bw])))) [] [0..<k]
      = Inr (concat (map (\<lambda>i. [fs ! i, bs ! i]) [0..<k]))"
    using assms by (induction k) (simp_all add: foldE_append)
  then show ?thesis by (simp add: interleave_states_def)
qed

lemma shape_Tuple: "shape n = Tuple ss \<Longrightarrow> \<exists>ns. n = Tuple ns \<and> map shape ns = ss"
  by (cases n) auto

lemma run_encoder_state:
  assumes units: "plain_units T h" and n: "nt_num_encoder_layers T = int n"
    and kind: "hn_encoder_type h = u ''uni'' \<and> 0 < n \<or> hn_encoder_type h = u ''bi'' \<and> even n \<and> 0 < n"
  shows "\<exists>out st. run_encoder B T h inputs len = Inr (out, st) \<and> shape st = stacked n (unit_state B h)"
proof (cases "hn_encoder_type h = u ''uni''")
  case True
  with kind have "0 < int n" by (auto simp: u_def)
  from build_encoder_cell_state[OF units this, of "nt_num_encoder_residual_layers T" 0 B]
  obtain c where "build_encoder_cell T h (int n) (nt_num_encoder_residual_layers T) 0 = Inr c"
      "state_size B c = stacked n (unit_state B h)" by auto
  with True n show ?thesis by (simp add: run_encoder_def dynamic_rnn_def)
next
  case False
  with kind obtain k where bi: "hn_encoder_type h = u ''bi''" and k: "n = 2 * k" "0 < k" by (auto elim!: evenE)
  have half: "int_of_div (int n) 2 = int k" using k by simp
  obtain out fw bw where rnn: "build_bidirectional_rnn B T h inputs len (int k)
        (int_of_div (nt_num_encoder_residual_layers T) 2) 0 = Inr (out, Tuple [fw, bw])"
      and shapes: "shape fw = stacked k (unit_state B h)" "shape bw = stacked k (unit_state B h)"
    using bidirectional_state[OF units, of "int k" B inputs len _ 0] k(2) by fastforce
  show ?thesis
  proof (cases "k = 1")
    case True
    with rnn shapes bi False n half k show ?thesis
      by (auto simp: run_encoder_def stacked_def eval_nat_numeral)
  next
    case not1: False
    obtain fs bs where fs: "fw = Tuple fs" "map shape fs = replicate k (unit_state B h)"
        and bs: "bw = Tuple bs" "map shape bs = replicate k (unit_state B h)"
      using shapes not1 shape_Tuple[of fw] shape_Tuple[of bw] by (auto simp: stacked_def)
    then have len: "length fs = k" "length bs = k" by (metis length_map length_replicate)+
    let ?st = "concat (map (\<lambda>i. [fs ! i, bs ! i]) [0..<k])"
    have each: "shape (fs ! i) = unit_state B h" "shape (bs ! i) = unit_state B h" if "i < k" for i
      using that fs(2) bs(2) len by (metis nth_map nth_replicate)+
    have "map shape (concat (map (\<lambda>i. [fs ! i, bs ! i]) [0..<j])) = replicate (2 * j) (unit_state B h)" if "j \<le> k" for j
      using that each by (induction j) (simp_all add: replicate_app_Cons_same)
    from this[of k] have "map shape ?st = replicate n (unit_state B h)" by (simp add: k)
    moreover have "interleave_states (Tuple [fw, bw]) k = Inr ?st"
      using interleaved[of k fs bs] len fs bs by simp
    ultimately show ?thesis using rnn bi n half not1 k
      by (simp add: run_encoder_def stacked_def u_def)
  qed
qed

end
