(* ===== verification/Decoders.thy ===== *)
theory Decoders
  imports Encoders Params
begin

text \<open>
  The decoder cells: without attention (\<open>Model\<close> in \<open>nmt/model.py\<close>), with standard attention
  (\<open>nmt/attention_model.py\<close>) and with the attention of GNMT (\<open>nmt/gnmt_model.py\<close>), with their
  initial states, and the decoder of \<open>nmt/model.py\<close> around them in its three modes.
\<close>

section \<open>Attention\<close>

definition create_attention_mechanism :: mechanism_fn where
  "create_attention_mechanism attention_option num_units memory memory_sequence_length mode =
     (if attention_option = u ''luong''
      then Inr (LuongAttention num_units memory memory_sequence_length False)
      else if attention_option = u ''scaled_luong''
      then Inr (LuongAttention num_units memory memory_sequence_length True)
      else if attention_option = u ''bahdanau''
      then Inr (BahdanauAttention num_units memory memory_sequence_length False)
      else if attention_option = u ''normed_bahdanau''
      then Inr (BahdanauAttention num_units memory memory_sequence_length True)
      else Inl ValueError)"

text \<open>What \<open>AttentionModel.__init__\<close> and \<open>GNMTModel.__init__\<close> set before the base class runs.\<close>

definition attention_init :: "net_hparams \<Rightarrow> extra_args option \<Rightarrow> 'f net \<Rightarrow> 'f net" where
  "attention_init h extra_args T =
     (let has_attention = (hn_attention_architecture h \<noteq> [] \<and> hn_attention h \<noteq> []);
          fn = (case extra_args of None \<Rightarrow> None | Some x \<Rightarrow> xa_attention_mechanism_fn x)
      in T\<lparr>nt_has_attention := has_attention,
           nt_attention_mechanism_fn :=
             (if has_attention
              then Some (case fn of Some f \<Rightarrow> f | None \<Rightarrow> create_attention_mechanism)
              else nt_attention_mechanism_fn T)\<rparr>)"

definition gnmt_init :: "net_hparams \<Rightarrow> extra_args option \<Rightarrow> 'f net \<Rightarrow> 'f net" where
  "gnmt_init h extra_args T =
     attention_init h extra_args
       (T\<lparr>nt_is_gnmt_attention :=
            (hn_attention_architecture h = u ''gnmt'' \<or> hn_attention_architecture h = u ''gnmt_v2'')\<rparr>)"

definition attention_mechanism_of ::
    "'f net \<Rightarrow> pystr \<Rightarrow> int \<Rightarrow> tensor \<Rightarrow> tensor \<Rightarrow> attention res" where
  "attention_mechanism_of T attention_option num_units memory memory_sequence_length =
     (case nt_attention_mechanism_fn T of
        None \<Rightarrow> Inl AttributeError
      | Some fn \<Rightarrow> fn attention_option num_units memory memory_sequence_length (nt_mode T))"

section \<open>Decoder cells\<close>

definition is_beam_search :: "'f net \<Rightarrow> net_hparams \<Rightarrow> bool" where
  "is_beam_search T h \<longleftrightarrow> nt_mode T = INFER \<and> hn_infer_mode h = u ''beam_search''"

definition decoder_cell_config :: "'f net \<Rightarrow> net_hparams \<Rightarrow> int \<Rightarrow> int \<Rightarrow> residual_fn option \<Rightarrow> attention cell_config" where
  "decoder_cell_config T h num_units base_gpu residual_fn =
     \<lparr>cc_unit_type = hn_unit_type h, cc_num_units = num_units, cc_num_layers = nt_num_decoder_layers T,
      cc_num_residual_layers = nt_num_decoder_residual_layers T, cc_forget_bias = hn_forget_bias h,
      cc_dropout = hn_dropout h, cc_mode = nt_mode T, cc_num_gpus = nt_num_gpus T,
      cc_base_gpu = base_gpu, cc_single_cell_fn = nt_single_cell_fn T, cc_residual_fn = residual_fn\<rparr>"

text \<open>A state is not there when a language model has no encoder.\<close>

definition build_decoder_cell ::
    "unit_states \<Rightarrow> 'f net \<Rightarrow> net_hparams \<Rightarrow> leaf nest option \<Rightarrow> (attention cell \<times> leaf nest) res" where
  "build_decoder_cell B T h encoder_state =
     bindE (raise_if (hn_attention h \<noteq> []) ValueError) (\<lambda>_.
     bindE (create_rnn_cell (decoder_cell_config T h (nt_num_units T) 0 None)) (\<lambda>cell.
     bindE (if hn_language_model h then Inr (zero_state B cell)
            else bindE (raise_if (\<not> hn_pass_hidden_state h) ValueError) (\<lambda>_.
                 case encoder_state of None \<Rightarrow> Inl TypeError | Some s \<Rightarrow> Inr s)) (\<lambda>encoder_state.
     Inr (cell, if is_beam_search T h then tile_state (hn_beam_width h) encoder_state else encoder_state))))"

definition prepare_beam_search_decoder_inputs ::
    "int \<Rightarrow> tensor \<Rightarrow> tensor \<Rightarrow> leaf nest \<Rightarrow> tensor \<times> tensor \<times> leaf nest" where
  "prepare_beam_search_decoder_inputs beam_width memory memory_sequence_length encoder_state =
     (TileBatch memory beam_width, TileBatch memory_sequence_length beam_width,
      tile_state beam_width encoder_state)"

text \<open>The memory with the batch first, and what the attention reads, beams included.\<close>

definition attention_inputs ::
    "'f net \<Rightarrow> net_hparams \<Rightarrow> tensor \<Rightarrow> tensor \<Rightarrow> leaf nest \<Rightarrow> tensor \<times> tensor \<times> leaf nest" where
  "attention_inputs T h encoder_outputs memory_sequence_length encoder_state =
     (let memory = (if nt_time_major T then Transpose encoder_outputs [1, 0, 2] else encoder_outputs)
      in if is_beam_search T h
         then prepare_beam_search_decoder_inputs (hn_beam_width h) memory memory_sequence_length encoder_state
         else (memory, memory_sequence_length, encoder_state))"

definition attention_decoder_cell ::
    "unit_states \<Rightarrow> 'f net \<Rightarrow> net_hparams \<Rightarrow> tensor \<Rightarrow> leaf nest \<Rightarrow> tensor \<Rightarrow> (attention cell \<times> leaf nest) res" where
  "attention_decoder_cell B T h encoder_outputs encoder_state memory_sequence_length =
     (if \<not> nt_has_attention T then build_decoder_cell B T h (Some encoder_state)
      else if hn_attention_architecture h \<noteq> u ''standard'' then Inl ValueError
      else let num_units = hn_num_units h;
               num_layers = nt_num_decoder_layers T;
               (memory, memory_sequence_length, encoder_state) =
                 attention_inputs T h encoder_outputs memory_sequence_length encoder_state
           in bindE (attention_mechanism_of T (hn_attention h) num_units memory memory_sequence_length)
                (\<lambda>attention_mechanism.
              bindE (create_rnn_cell (decoder_cell_config T h num_units 0 None)) (\<lambda>cell.
              let alignment_history = (nt_mode T = INFER \<and> hn_infer_mode h \<noteq> u ''beam_search'');
                  cell = AttentionWrapper cell attention_mechanism (Some num_units) alignment_history
                           (hn_output_attention h);
                  cell = DeviceWrapper cell (get_device_str (num_layers - 1) (nt_num_gpus T))
              in bindE (if hn_pass_hidden_state h
                        then clone_cell_state (zero_state B cell) encoder_state
                        else Inr (zero_state B cell)) (\<lambda>decoder_initial_state.
                 Inr (cell, decoder_initial_state)))))"

definition pass_state :: "leaf nest \<Rightarrow> leaf nest \<Rightarrow> leaf nest res" where
  "pass_state zs es = (case zs of AttentionState _ \<Rightarrow> clone_cell_state zs es | _ \<Rightarrow> Inr es)"

definition gnmt_decoder_cell ::
    "unit_states \<Rightarrow> 'f net \<Rightarrow> net_hparams \<Rightarrow> tensor \<Rightarrow> leaf nest \<Rightarrow> tensor \<Rightarrow> (attention cell \<times> leaf nest) res" where
  "gnmt_decoder_cell B T h encoder_outputs encoder_state memory_sequence_length =
     (if \<not> nt_is_gnmt_attention T
      then attention_decoder_cell B T h encoder_outputs encoder_state memory_sequence_length
      else let num_units = hn_num_units h;
               (memory, memory_sequence_length, encoder_state) =
                 attention_inputs T h encoder_outputs memory_sequence_length encoder_state
           in bindE (attention_mechanism_of T (hn_attention h) num_units memory memory_sequence_length)
                (\<lambda>attention_mechanism.
              bindE (cell_list (decoder_cell_config T h num_units 0 (Some GnmtResidualFn))) (\<lambda>cells.
              bindE (case cells of [] \<Rightarrow> Inl IndexError | cell # rest \<Rightarrow> Inr (cell, rest)) (\<lambda>(attention_cell, cells).
              let alignment_history = (nt_mode T = INFER \<and> hn_infer_mode h \<noteq> u ''beam_search'');
                  attention_cell = AttentionWrapper attention_cell attention_mechanism None alignment_history False
              in bindE (if hn_attention_architecture h = u ''gnmt''
                        then Inr (GNMTAttentionMultiCell attention_cell cells False)
                        else if hn_attention_architecture h = u ''gnmt_v2''
                        then Inr (GNMTAttentionMultiCell attention_cell cells True)
                        else Inl ValueError) (\<lambda>cell.
                 if hn_pass_hidden_state h
                 then bindE (nest_items (zero_state B cell)) (\<lambda>zss.
                      bindE (nest_items encoder_state) (\<lambda>ess.
                      bindE (mapE (\<lambda>(zs, es). pass_state zs es) (zip zss ess)) (\<lambda>states.
                      Inr (cell, Tuple states))))
                 else Inr (cell, zero_state B cell))))))"


section \<open>The model classes\<close>

definition model_init :: "model_class \<Rightarrow> net_hparams \<Rightarrow> extra_args option \<Rightarrow> 'f net \<Rightarrow> 'f net" where
  "model_init cls h extra_args T =
     (case cls of Model \<Rightarrow> T | AttentionModel \<Rightarrow> attention_init h extra_args T
      | GNMTModel \<Rightarrow> gnmt_init h extra_args T)"

definition encoder_of :: "model_class \<Rightarrow> unit_states \<Rightarrow> 'f net \<Rightarrow> net_hparams \<Rightarrow> encoded res" where
  "encoder_of cls B T h = (if cls = GNMTModel then gnmt_build_encoder B T h else build_encoder B T h)"

definition decoder_cell_of ::
    "model_class \<Rightarrow> unit_states \<Rightarrow> 'f net \<Rightarrow> net_hparams \<Rightarrow> (tensor \<times> leaf nest) option \<Rightarrow> tensor
     \<Rightarrow> (attention cell \<times> leaf nest) res" where
  "decoder_cell_of cls B T h encoded memory_sequence_length =
     (case encoded of
        None \<Rightarrow>
          if cls = Model \<or> \<not> nt_has_attention T \<and> \<not> nt_is_gnmt_attention T
          then build_decoder_cell B T h None else Inl ValueError
      | Some (encoder_outputs, encoder_state) \<Rightarrow>
          (case cls of
             Model \<Rightarrow> build_decoder_cell B T h (Some encoder_state)
           | AttentionModel \<Rightarrow> attention_decoder_cell B T h encoder_outputs encoder_state memory_sequence_length
           | GNMTModel \<Rightarrow> gnmt_decoder_cell B T h encoder_outputs encoder_state memory_sequence_length))"

section \<open>States that fit\<close>

definition known_attention :: "pystr \<Rightarrow> bool" where
  "known_attention option \<longleftrightarrow>
     option \<in> {u ''luong'', u ''scaled_luong'', u ''bahdanau'', u ''normed_bahdanau''}"

lemma create_attention_mechanism_known:
  "known_attention option \<Longrightarrow> \<exists>m. create_attention_mechanism option n memory len mode = Inr m"
  by (auto simp: known_attention_def create_attention_mechanism_def)

definition is_gnmt_architecture :: "net_hparams \<Rightarrow> bool" where
  "is_gnmt_architecture h \<longleftrightarrow>
     hn_attention_architecture h = u ''gnmt'' \<or> hn_attention_architecture h = u ''gnmt_v2''"

text \<open>The settings the classes are made for, with n layers on both sides.\<close>

definition supported_attention :: "model_class \<Rightarrow> net_hparams \<Rightarrow> nat \<Rightarrow> bool" where
  "supported_attention cls h n \<longleftrightarrow>
     hn_attention h = [] \<and> \<not> (cls = GNMTModel \<and> is_gnmt_architecture h)
     \<or> cls \<noteq> Model \<and> hn_attention_architecture h = u ''standard'' \<and> known_attention (hn_attention h)
     \<or> cls = GNMTModel \<and> is_gnmt_architecture h \<and> known_attention (hn_attention h) \<and> 2 \<le> n"

definition supported :: "model_class \<Rightarrow> 'f net \<Rightarrow> net_hparams \<Rightarrow> nat \<Rightarrow> bool" where
  "supported cls T h n \<longleftrightarrow>
     plain_units T h \<and> 0 < n \<and> nt_num_encoder_layers T = int n \<and> nt_num_decoder_layers T = int n \<and>
     hn_pass_hidden_state h \<and> \<not> hn_language_model h \<and> \<not> hn_extract_encoder_layers h \<and>
     (hn_encoder_type h = u ''uni'' \<or> hn_encoder_type h = u ''bi'' \<and> even n
      \<or> hn_encoder_type h = u ''gnmt'' \<and> cls = GNMTModel \<and> 2 \<le> n) \<and>
     supported_attention cls h n"

lemma known_attention_nonempty: "known_attention a \<Longrightarrow> a \<noteq> []"
  by (auto simp: known_attention_def u_def)

lemma model_init_simps [simp]:
  "nt_single_cell_fn (model_init cls h x T) = nt_single_cell_fn T"
  "nt_num_units (model_init cls h x T) = nt_num_units T"
  "nt_num_encoder_layers (model_init cls h x T) = nt_num_encoder_layers T"
  "nt_num_decoder_layers (model_init cls h x T) = nt_num_decoder_layers T"
  "nt_encoder_emb_lookup_fn (model_init cls h x T) = nt_encoder_emb_lookup_fn T"
  "nt_time_major (model_init cls h x T) = nt_time_major T"
  "nt_mode (model_init cls h x T) = nt_mode T"
  by (cases cls; simp add: model_init_def attention_init_def gnmt_init_def Let_def)+

lemma plain_units_init [simp]: "plain_units (model_init cls h x T) h \<longleftrightarrow> plain_units T h"
  by (simp add: plain_units_def)

lemma decoder_config_state:
  assumes "plain_units T h" "nt_num_decoder_layers T = int n" "0 < n"
  shows "\<exists>c. create_rnn_cell (decoder_cell_config T h (hn_num_units h) g f) = Inr c
    \<and> state_size B c = stacked n (unit_state B h)"
  using create_rnn_cell_state[of "decoder_cell_config T h (hn_num_units h) g f" B] assms
  by (simp add: decoder_cell_config_def plain_units_def unit_state_def)

lemma build_decoder_cell_fits:
  assumes "plain_units T h" "nt_num_decoder_layers T = int n" "0 < n"
    and "hn_attention h = []" "\<not> hn_language_model h" "hn_pass_hidden_state h"
    and "shape es = stacked n (unit_state B h)"
  shows "\<exists>cell st. build_decoder_cell B T h (Some es) = Inr (cell, st) \<and> shape st = state_size B cell"
proof -
  have "nt_num_units T = hn_num_units h" using assms(1) by (simp add: plain_units_def)
  with decoder_config_state[OF assms(1-3), of 0 None B] obtain c where
      "create_rnn_cell (decoder_cell_config T h (nt_num_units T) 0 None) = Inr c" "state_size B c = stacked n (unit_state B h)"
    by auto
  with assms show ?thesis by (simp add: build_decoder_cell_def)
qed

lemma attention_inputs_shape:
  "attention_inputs T h out len es = (memory, len', es') \<Longrightarrow> shape es' = shape es"
  by (auto simp: attention_inputs_def prepare_beam_search_decoder_inputs_def Let_def split: if_splits)

lemma fill_AttentionState: "\<exists>m. fill f (AttentionState n) = AttentionState m"
  by simp

lemma attention_decoder_cell_fits:
  assumes "plain_units T h" "nt_num_decoder_layers T = int n" "0 < n"
    and "nt_has_attention T" "hn_attention_architecture h = u ''standard''"
    and "nt_attention_mechanism_fn T = Some create_attention_mechanism" "known_attention (hn_attention h)"
    and "shape es = stacked n (unit_state B h)"
  shows "\<exists>cell st. attention_decoder_cell B T h out es len = Inr (cell, st) \<and> shape st = state_size B cell"
proof -
  obtain memory len' es' where inp: "attention_inputs T h out len es = (memory, len', es')" by (metis prod_cases3)
  from decoder_config_state[OF assms(1-3), of 0 None B] obtain c where
      c: "create_rnn_cell (decoder_cell_config T h (hn_num_units h) 0 None) = Inr c" "state_size B c = stacked n (unit_state B h)"
    by auto
  obtain m where "create_attention_mechanism (hn_attention h) (hn_num_units h) memory len' (nt_mode T) = Inr m"
    using create_attention_mechanism_known[OF assms(7)] by blast
  with assms(4-6,8) inp c attention_inputs_shape[OF inp] show ?thesis
    by (simp add: attention_decoder_cell_def attention_mechanism_of_def zero_state_def Let_def)
qed

text \<open>The decoder cell of GNMT, once its cells are built: the state is passed on layer by layer.\<close>

lemma gnmt_decoder_cell_run:
  assumes "nt_is_gnmt_attention T" "is_gnmt_architecture h" "hn_pass_hidden_state h"
    and "nt_attention_mechanism_fn T = Some create_attention_mechanism" "known_attention (hn_attention h)"
    and "cell_list (decoder_cell_config T h (hn_num_units h) 0 (Some GnmtResidualFn)) = Inr (c # rest)"
  shows "\<exists>cell m images v2 es'. cell = GNMTAttentionMultiCell (AttentionWrapper c m None images False) rest v2
    \<and> shape es' = shape es
    \<and> gnmt_decoder_cell B T h out es len = bindE (nest_items (zero_state B cell)) (\<lambda>zss.
        bindE (nest_items es') (\<lambda>ess. bindE (mapE (\<lambda>(zs, es). pass_state zs es) (zip zss ess)) (\<lambda>states. Inr (cell, Tuple states))))"
proof -
  obtain memory len' es' where inp: "attention_inputs T h out len es = (memory, len', es')" by (metis prod_cases3)
  obtain m where m: "create_attention_mechanism (hn_attention h) (hn_num_units h) memory len' (nt_mode T) = Inr m"
    using create_attention_mechanism_known[OF assms(5)] by blast
  let ?cell = "GNMTAttentionMultiCell (AttentionWrapper c m None (nt_mode T = INFER \<and> hn_infer_mode h \<noteq> u ''beam_search'') False)
      rest (hn_attention_architecture h \<noteq> u ''gnmt'')"
  have "gnmt_decoder_cell B T h out es len = bindE (nest_items (zero_state B ?cell)) (\<lambda>zss.
      bindE (nest_items es') (\<lambda>ess. bindE (mapE (\<lambda>(zs, es). pass_state zs es) (zip zss ess)) (\<lambda>states. Inr (?cell, Tuple states))))"
    using assms inp m
    by (cases "hn_attention_architecture h = u ''gnmt''")
      (simp_all add: gnmt_decoder_cell_def attention_mechanism_of_def is_gnmt_architecture_def Let_def)
  with attention_inputs_shape[OF inp] show ?thesis by blast
qed

lemma passed_states:
  assumes "shape z = AttentionState s" "shape e = s" "\<And>x. s \<noteq> AttentionState x"
    and "map shape zs = replicate k s" "map shape ess = replicate k s"
  shows "\<exists>states. mapE (\<lambda>(zs, es). pass_state zs es) (zip (z # zs) (e # ess)) = Inr states
    \<and> map shape states = AttentionState s # replicate k s"
proof -
  obtain y where "z = AttentionState y" "shape y = s" using assms(1) by (cases z) auto
  then have first: "pass_state z e = Inr (AttentionState e)" using assms(2) by (simp add: pass_state_def)
  have later: "pass_state z' e' = Inr e'" if "shape z' = s" for z' e'
    using that assms(3) by (cases z') (auto simp: pass_state_def)
  have "mapE (\<lambda>(zs, es). pass_state zs es) (zip zs ess) = Inr ess"
    using assms(4,5)
  proof (induction k arbitrary: zs ess)
    case (Suc k)
    then obtain z1 zs1 e1 ess1 where "zs = z1 # zs1" "ess = e1 # ess1" "shape z1 = s" "map shape zs1 = replicate k s"
      "map shape ess1 = replicate k s" by (auto simp: map_eq_Cons_conv)
    with Suc.IH[of zs1 ess1] later show ?case by simp
  qed simp
  with first assms(2,5) show ?thesis by simp
qed

lemma unit_state_no_attention: "unit_state B h \<noteq> AttentionState x"
  by (auto simp: unit_state_def layer_state_def split: option.splits)

lemma gnmt_decoder_cell_fits:
  assumes "plain_units T h" "nt_num_decoder_layers T = int n" "2 \<le> n"
    and "nt_is_gnmt_attention T" "is_gnmt_architecture h"
    and "nt_attention_mechanism_fn T = Some create_attention_mechanism" "known_attention (hn_attention h)"
    and "shape es = stacked n (unit_state B h)" "hn_pass_hidden_state h"
  shows "\<exists>cell st. gnmt_decoder_cell B T h out es len = Inr (cell, st) \<and> shape st = state_size B cell"
proof -
  let ?s = "unit_state B h" and ?C = "decoder_cell_config T h (hn_num_units h) 0 (Some GnmtResidualFn)"
  obtain cs where cs: "cell_list ?C = Inr cs" "length cs = n" "map (state_size B) cs = replicate n ?s"
    using cell_list_states[of ?C B] assms(1,2) by (auto simp: decoder_cell_config_def plain_units_def unit_state_def)
  then obtain c rest where rest: "cs = c # rest" "state_size B c = ?s" "map (state_size B) rest = replicate (n - 1) ?s"
    using assms(3) by (cases cs; cases n) auto
  from gnmt_decoder_cell_run[OF assms(4,5,9,6,7) cs(1)[unfolded rest(1)], of es B out len]
  obtain cell m images v2 es' where cell: "cell = GNMTAttentionMultiCell (AttentionWrapper c m None images False) rest v2"
    and es': "shape es' = shape es"
    and run: "gnmt_decoder_cell B T h out es len = bindE (nest_items (zero_state B cell)) (\<lambda>zss.
        bindE (nest_items es') (\<lambda>ess. bindE (mapE (\<lambda>(zs, es). pass_state zs es) (zip zss ess)) (\<lambda>states. Inr (cell, Tuple states))))"
    by blast
  have "shape es' = Tuple (replicate n ?s)" using es' assms(3,8) by (simp add: stacked_def)
  then obtain e ess where ess: "es' = Tuple (e # ess)" "shape e = ?s" "map shape ess = replicate (n - 1) ?s"
    using shape_Tuple[of es'] assms(3) by (cases n) (auto simp: map_eq_Cons_conv)
  have size: "state_size B cell = Tuple (AttentionState ?s # replicate (n - 1) ?s)"
    by (simp add: cell rest)
  then obtain z zs where zero: "zero_state B cell = Tuple (z # zs)" "shape z = AttentionState ?s"
      "map shape zs = replicate (n - 1) ?s"
    using shape_Tuple[of "zero_state B cell"] by (auto simp: map_eq_Cons_conv)
  from passed_states[OF zero(2) ess(2) unit_state_no_attention zero(3) ess(3)] obtain states where
    states: "mapE (\<lambda>(zs, es). pass_state zs es) (zip (z # zs) (e # ess)) = Inr states"
    "map shape states = AttentionState ?s # replicate (n - 1) ?s" by (elim exE conjE)
  have "gnmt_decoder_cell B T h out es len = Inr (cell, Tuple states)"
    unfolding run zero(1) ess(1) by (simp only: nest_items.simps bindE_simps states(1))
  moreover have "shape (Tuple states) = state_size B cell" by (simp only: size shape_simps states(2))
  ultimately show ?thesis by blast
qed



lemma encoder_of_fits:
  assumes units: "plain_units T h" and n: "nt_num_encoder_layers T = int n" "0 < n"
    and lookup: "\<And>x. \<exists>e. nt_encoder_emb_lookup_fn T x = Inr e"
    and kind: "hn_encoder_type h = u ''uni'' \<or> hn_encoder_type h = u ''bi'' \<and> even n
      \<or> hn_encoder_type h = u ''gnmt'' \<and> cls = GNMTModel \<and> 2 \<le> n \<and> \<not> hn_extract_encoder_layers h"
  shows "\<exists>en. encoder_of cls B T h = Inr en \<and> shape (en_state en) = stacked n (unit_state B h)"
proof (cases "hn_encoder_type h = u ''uni'' \<or> hn_encoder_type h = u ''bi''")
  case True
  obtain e where e: "nt_encoder_emb_lookup_fn T (if nt_time_major T then transpose_matrix source else source) = Inr e"
    using lookup by blast
  from kind True n(2) have "hn_encoder_type h = u ''uni'' \<and> 0 < n \<or> hn_encoder_type h = u ''bi'' \<and> even n \<and> 0 < n"
    by (auto simp: u_def)
  from run_encoder_state[OF units n(1) this, of B e source_sequence_length]
  obtain out st where "run_encoder B T h e source_sequence_length = Inr (out, st)" "shape st = stacked n (unit_state B h)"
    by blast
  with e True show ?thesis
    by (auto simp: encoder_of_def gnmt_build_encoder_def build_encoder_def build_encoder_from_sequence_def)
next
  case False
  with kind have gnmt: "hn_encoder_type h = u ''gnmt''" "cls = GNMTModel" "2 \<le> n" "\<not> hn_extract_encoder_layers h" by auto
  let ?s = "unit_state B h"
  obtain e where e: "nt_encoder_emb_lookup_fn T (if nt_time_major T then transpose_matrix source else source) = Inr e"
    using lookup by blast
  obtain bi fw bw where bi: "build_bidirectional_rnn B T h e source_sequence_length 1 0 0 = Inr (bi, Tuple [fw, bw])"
      and bw: "shape bw = ?s"
    using bidirectional_state[OF units, of 1 B e source_sequence_length 0 0] by (auto simp: stacked_def)
  have pos: "0 < cc_num_layers (uni_cell_config T h (int n - 1))" using gnmt(3) by (simp add: uni_cell_config_def)
  obtain c where c: "create_rnn_cell (uni_cell_config T h (int n - 1)) = Inr c" "state_size B c = stacked (n - 1) ?s"
    using create_rnn_cell_state[OF _ _ pos, of B] units gnmt(3)
    by (auto simp: uni_cell_config_def plain_units_def unit_state_def nat_diff_distrib)
  have "\<exists>rest. (if int n - 1 = 1 then Inr [final_state B c Forward bi] else nest_items (final_state B c Forward bi)) = Inr rest
      \<and> map shape rest = replicate (n - 1) ?s"
  proof (cases "n = 2")
    case True
    with c show ?thesis by (simp add: stacked_def)
  next
    case False
    with gnmt(3) have "n - 1 \<noteq> 1" by simp
    with c(2) have "shape (final_state B c Forward bi) = Tuple (replicate (n - 1) ?s)" by (simp add: stacked_def)
    from shape_Tuple[OF this] False show ?thesis by auto
  qed
  then obtain rest where rest: "(if int n - 1 = 1 then Inr [final_state B c Forward bi]
        else nest_items (final_state B c Forward bi)) = Inr rest" "map shape rest = replicate (n - 1) ?s" by blast
  have "replicate n ?s = ?s # replicate (n - 1) ?s" using gnmt(3) by (cases n) auto
  with rest bw gnmt(3) have "shape (Tuple ([bw] @ rest)) = stacked n ?s" by (simp add: stacked_def)
  with e bi c rest(1) n(1) gnmt False show ?thesis
    by (simp add: encoder_of_def gnmt_build_encoder_def build_all_encoder_layers_def dynamic_rnn_def)
qed

text \<open>Which decoder cell the class of the model leads to.\<close>

lemma decoder_cell_of_plain:
  assumes "hn_attention h = []" "\<not> (cls = GNMTModel \<and> is_gnmt_architecture h)"
  shows "decoder_cell_of cls B (model_init cls h None T) h (Some (out, es)) len
    = build_decoder_cell B (model_init cls h None T) h (Some es)"
proof -
  let ?T = "model_init cls h None T"
  have no: "\<not> nt_has_attention ?T \<or> cls = Model"
    using assms(1) by (cases cls) (auto simp: model_init_def gnmt_init_def attention_init_def Let_def)
  have "cls = GNMTModel \<longrightarrow> \<not> nt_is_gnmt_attention ?T"
    using assms(2) by (auto simp: model_init_def gnmt_init_def attention_init_def is_gnmt_architecture_def Let_def)
  with no show ?thesis
    by (cases cls) (auto simp: decoder_cell_of_def attention_decoder_cell_def gnmt_decoder_cell_def)
qed

lemma decoder_cell_of_standard:
  assumes "cls \<noteq> Model" "hn_attention_architecture h = u ''standard''" "known_attention (hn_attention h)"
  shows "nt_has_attention (model_init cls h None T)"
    "nt_attention_mechanism_fn (model_init cls h None T) = Some create_attention_mechanism"
    "decoder_cell_of cls B (model_init cls h None T) h (Some (out, es)) len
      = attention_decoder_cell B (model_init cls h None T) h out es len"
proof -
  let ?T = "model_init cls h None T"
  have arch: "u ''standard'' \<noteq> u ''gnmt''" "u ''standard'' \<noteq> u ''gnmt_v2''" "u ''standard'' \<noteq> []" by (simp_all add: u_def)
  show has: "nt_has_attention ?T" "nt_attention_mechanism_fn ?T = Some create_attention_mechanism"
    using assms known_attention_nonempty[OF assms(3)] arch
    by (cases cls; simp add: model_init_def gnmt_init_def attention_init_def Let_def)+
  have "cls = GNMTModel \<longrightarrow> \<not> nt_is_gnmt_attention ?T"
    using assms(2) arch by (auto simp: model_init_def gnmt_init_def attention_init_def Let_def)
  with assms(1) show "decoder_cell_of cls B ?T h (Some (out, es)) len = attention_decoder_cell B ?T h out es len"
    by (cases cls) (auto simp: decoder_cell_of_def gnmt_decoder_cell_def)
qed

lemma decoder_cell_of_fits:
  fixes T :: "'f net"
  assumes ok: "supported cls T h n" and lookup: "\<And>x. \<exists>e. nt_encoder_emb_lookup_fn T x = Inr e"
  shows "\<exists>en cell st. encoder_of cls B (model_init cls h None T) h = Inr en
    \<and> decoder_cell_of cls B (model_init cls h None T) h (Some (en_outputs en, en_state en)) source_sequence_length
        = Inr (cell, st)
    \<and> shape st = state_size B cell"
proof -
  let ?T = "model_init cls h None T"
  from ok have units: "plain_units ?T h" and n: "0 < n" "nt_num_encoder_layers ?T = int n" "nt_num_decoder_layers ?T = int n"
      and plain: "hn_pass_hidden_state h" "\<not> hn_language_model h"
      and kind: "hn_encoder_type h = u ''uni'' \<or> hn_encoder_type h = u ''bi'' \<and> even n
        \<or> hn_encoder_type h = u ''gnmt'' \<and> cls = GNMTModel \<and> 2 \<le> n \<and> \<not> hn_extract_encoder_layers h"
      and att: "supported_attention cls h n"
    by (auto simp: supported_def)
  obtain en where en: "encoder_of cls B ?T h = Inr en" "shape (en_state en) = stacked n (unit_state B h)"
    using encoder_of_fits[OF units n(2,1) _ kind] lookup by auto
  from att consider
      (plain) "hn_attention h = []" "\<not> (cls = GNMTModel \<and> is_gnmt_architecture h)"
    | (standard) "cls \<noteq> Model" "hn_attention_architecture h = u ''standard''" "known_attention (hn_attention h)"
    | (gnmt) "cls = GNMTModel" "is_gnmt_architecture h" "known_attention (hn_attention h)" "2 \<le> n"
    by (auto simp: supported_attention_def)
  then have "\<exists>cell st. decoder_cell_of cls B ?T h (Some (en_outputs en, en_state en)) source_sequence_length = Inr (cell, st)
    \<and> shape st = state_size B cell"
  proof cases
    case plain'': plain
    with build_decoder_cell_fits[OF units n(3,1) plain''(1) plain(2,1) en(2)] show ?thesis
      by (simp add: decoder_cell_of_plain)
  next
    case standard
    with attention_decoder_cell_fits[OF units n(3,1) decoder_cell_of_standard(1)[OF standard] standard(2)
        decoder_cell_of_standard(2)[OF standard] standard(3) en(2)]
    show ?thesis by (simp add: decoder_cell_of_standard(3)[OF standard])
  next
    case gnmt
    have arch: "hn_attention_architecture h \<noteq> []" using gnmt(2) by (auto simp: is_gnmt_architecture_def u_def)
    have has: "nt_is_gnmt_attention ?T" "nt_attention_mechanism_fn ?T = Some create_attention_mechanism"
      using gnmt known_attention_nonempty[OF gnmt(3)] arch
      by (simp_all add: model_init_def gnmt_init_def attention_init_def is_gnmt_architecture_def Let_def)
    from gnmt_decoder_cell_fits[OF units n(3) gnmt(4) has(1) gnmt(2) has(2) gnmt(3) en(2) plain(1)] gnmt(1)
    show ?thesis by (simp add: decoder_cell_of_def)
  qed
  with en(1) show ?thesis by blast
qed


text \<open>
  C4. Whichever class is chosen, for the settings it is made for and equally many layers on both
  sides, the encoder and the decoder cell are built without an error, and the state the encoder
  passes on is a state of the decoder cell: the same tuples, the wrapped attention state and the
  same number of tensors everywhere. This covers the interleaved states of the bidirectional
  encoder, the states GNMT puts together, and states repeated for beam search.
\<close>

theorem decoder_state_fits:
  fixes T :: "'f net"
  assumes ok: "supported cls T h n" and lookup: "\<And>x. \<exists>e. nt_encoder_emb_lookup_fn T x = Inr e"
  shows "\<exists>en cell st. encoder_of cls B (model_init cls h None T) h = Inr en
    \<and> decoder_cell_of cls B (model_init cls h None T) h (Some (en_outputs en, en_state en)) source_sequence_length
        = Inr (cell, st)
    \<and> shape st = state_size B cell"
  by (rule decoder_cell_of_fits[OF ok lookup])

definition sample_hp :: net_hparams where
  "sample_hp =
     \<lparr>hn_unit_type = u ''lstm'', hn_num_units = 32, hn_forget_bias = 1, hn_dropout = 1 / 5, hn_num_gpus = 1,
      hn_time_major = True, hn_use_char_encode = False, hn_num_sampled_softmax = 0,
      hn_num_encoder_layers = 4, hn_num_decoder_layers = 4, hn_num_residual_layers = None,
      hn_num_encoder_residual_layers = 2, hn_num_decoder_residual_layers = 2, hn_random_seed = None,
      hn_init_op = u ''uniform'', hn_init_weight = Some (1 / 10), hn_share_vocab = False,
      hn_src_vocab_size = 5, hn_tgt_vocab_size = 6, hn_num_enc_emb_partitions = 0,
      hn_num_dec_emb_partitions = 0, hn_src_vocab_file = u ''v.en'', hn_tgt_vocab_file = u ''v.vi'',
      hn_src_embed_file = None, hn_tgt_embed_file = None, hn_encoder_type = u ''gnmt'',
      hn_attention = u ''normed_bahdanau'', hn_attention_architecture = u ''gnmt_v2'',
      hn_output_attention = True, hn_pass_hidden_state = True, hn_language_model = False,
      hn_infer_mode = u ''beam_search'', hn_beam_width = 10, hn_length_penalty_weight = 1,
      hn_coverage_penalty_weight = 0, hn_sampling_temperature = 0, hn_tgt_max_len_infer = None,
      hn_sos = u ''<s>'', hn_eos = u ''</s>'', hn_optimizer = u ''sgd'', hn_colocate_gradients_with_ops = True,
      hn_max_gradient_norm = 5, hn_num_keep_ckpts = 5, hn_extract_encoder_layers = False\<rparr>"

definition sample_net :: "int net" where
  "sample_net =
     \<lparr>nt_mode = INFER, nt_num_gpus = 1, nt_time_major = True, nt_num_sampled_softmax = 0,
      nt_single_cell_fn = None, nt_num_units = 32, nt_num_encoder_layers = 4, nt_num_decoder_layers = 4,
      nt_num_encoder_residual_layers = 2, nt_num_decoder_residual_layers = 2, nt_random_seed = None,
      nt_initializer = RandomUniform (- (1 / 10)) (1 / 10) None,
      nt_encoder_emb_lookup_fn = embedding_lookup Encoder (Some sample_decoder_matrix),
      nt_embedding_encoder = Some sample_decoder_matrix, nt_embedding_decoder = sample_decoder_matrix,
      nt_attention_mechanism_fn = None, nt_has_attention = False, nt_is_gnmt_attention = False\<rparr>"

definition sample_states :: unit_states where
  "sample_states c = (case c of GRUCell n \<Rightarrow> None | _ \<Rightarrow> Some 2)"

lemma sample_supported: "supported GNMTModel sample_net sample_hp 4"
  by (simp add: supported_def plain_units_def sample_net_def sample_hp_def known_unit_def
      supported_attention_def is_gnmt_architecture_def known_attention_def)

lemma sample_lookup: "nt_encoder_emb_lookup_fn sample_net x = Inr (EmbeddingLookup Encoder x)"
  by (simp add: sample_net_def embedding_lookup_def)

theorem decoder_state_fits_witness:
  "\<exists>en cell st. encoder_of GNMTModel sample_states (model_init GNMTModel sample_hp None sample_net) sample_hp = Inr en
    \<and> decoder_cell_of GNMTModel sample_states (model_init GNMTModel sample_hp None sample_net) sample_hp
        (Some (en_outputs en, en_state en)) source_sequence_length = Inr (cell, st)
    \<and> shape st = state_size sample_states cell"
  by (rule decoder_state_fits[OF sample_supported]) (simp add: sample_lookup)

section \<open>What the attention reads\<close>

fun mechanism_of :: "attention cell \<Rightarrow> attention option" where
  "mechanism_of (DeviceWrapper c d) = mechanism_of c"
| "mechanism_of (AttentionWrapper c m n a b) = Some m"
| "mechanism_of (GNMTAttentionMultiCell c cs b) = mechanism_of c"
| "mechanism_of _ = None"

fun memory_of :: "attention \<Rightarrow> tensor \<times> tensor" where
  "memory_of (LuongAttention n memory len s) = (memory, len)"
| "memory_of (BahdanauAttention n memory len s) = (memory, len)"

definition repeated :: "int option \<Rightarrow> tensor \<Rightarrow> tensor" where
  "repeated beams t = (case beams of None \<Rightarrow> t | Some k \<Rightarrow> TileBatch t k)"

lemma created_memory:
  "create_attention_mechanism option n memory len mode = Inr m \<Longrightarrow> memory_of m = (memory, len)"
  by (auto simp: create_attention_mechanism_def split: if_splits)

lemma attention_inputs_layout:
  assumes "attention_inputs T h out len es = (memory, len', es')"
    and "axes out = Some (layout_of (nt_time_major T))"
  shows "axes memory = Some BatchMajor
    \<and> memory = repeated (if is_beam_search T h then Some (hn_beam_width h) else None)
        (if nt_time_major T then Transpose out [1, 0, 2] else out)
    \<and> len' = repeated (if is_beam_search T h then Some (hn_beam_width h) else None) len
    \<and> es' = (if is_beam_search T h then tile_state (hn_beam_width h) es else es)"
  using assms
  by (cases "nt_time_major T")
    (auto simp: attention_inputs_def prepare_beam_search_decoder_inputs_def layout_of_def repeated_def Let_def split: if_splits)

lemma mechanism_created:
  assumes "attention_mechanism_of (model_init cls h None T) option n memory len = Inr m"
    and "nt_attention_mechanism_fn T = None"
  shows "memory_of m = (memory, len)"
  using assms by (cases cls)
    (auto simp: model_init_def attention_mechanism_of_def attention_init_def gnmt_init_def Let_def
      split: if_splits option.splits dest: created_memory)

lemma no_mechanism_single: "single_cell a = Inr (c :: attention cell) \<Longrightarrow> mechanism_of c = None"
  by (auto simp: single_cell_def base_cell_def bindE_Inr_iff Let_def split: if_splits option.splits)


lemma no_mechanism_created:
  assumes "create_rnn_cell C = Inr c" "cc_single_cell_fn C = None"
  shows "mechanism_of c = None"
proof -
  from assms obtain cs where cs: "cell_list (C\<lparr>cc_residual_fn := None\<rparr>) = Inr cs"
      and c: "(case cs of [cell] \<Rightarrow> Inr cell | _ \<Rightarrow> multi_rnn_cell cs) = Inr c"
    by (auto simp: create_rnn_cell_def bindE_Inr_iff)
  have "mechanism_of x = None" if "x \<in> set cs" for x
    using mapE_set[OF cs[unfolded cell_list_def Let_def] that] assms(2) by (auto intro: no_mechanism_single)
  with c show ?thesis by (auto simp: multi_rnn_cell_def split: list.splits if_splits)
qed

lemma build_decoder_cell_no_mechanism:
  "build_decoder_cell B T h es = Inr (cell, st) \<Longrightarrow> nt_single_cell_fn T = None \<Longrightarrow> mechanism_of cell = None"
  by (auto simp: build_decoder_cell_def decoder_cell_config_def bindE_Inr_iff intro: no_mechanism_created)

lemma attention_decoder_cell_mechanism:
  assumes "attention_decoder_cell B T h out es len = Inr (cell, st)" "mechanism_of cell = Some m"
    and "nt_single_cell_fn T = None"
  shows "\<exists>memory len' es'. attention_inputs T h out len es = (memory, len', es')
    \<and> attention_mechanism_of T (hn_attention h) (hn_num_units h) memory len' = Inr m"
proof -
  obtain memory len' es' where inp: "attention_inputs T h out len es = (memory, len', es')" by (metis prod_cases3)
  have has: "nt_has_attention T"
    using assms build_decoder_cell_no_mechanism by (fastforce simp: attention_decoder_cell_def split: if_splits)
  with assms inp show ?thesis
    by (auto simp: attention_decoder_cell_def bindE_Inr_iff Let_def split: if_splits)
qed

lemma gnmt_decoder_cell_mechanism:
  assumes "gnmt_decoder_cell B T h out es len = Inr (cell, st)" "mechanism_of cell = Some m"
    and "nt_single_cell_fn T = None"
  shows "\<exists>memory len' es'. attention_inputs T h out len es = (memory, len', es')
    \<and> attention_mechanism_of T (hn_attention h) (hn_num_units h) memory len' = Inr m"
proof (cases "nt_is_gnmt_attention T")
  case False
  with assms attention_decoder_cell_mechanism show ?thesis by (simp add: gnmt_decoder_cell_def)
next
  case True
  obtain memory len' es' where inp: "attention_inputs T h out len es = (memory, len', es')" by (metis prod_cases3)
  with True assms show ?thesis
    by (auto simp: gnmt_decoder_cell_def bindE_Inr_iff Let_def split: if_splits list.splits)
qed

text \<open>
  C18. The attention of a decoder reads the outputs of the encoder with the batch first: as they
  are, or with the first two axes exchanged when the encoder works with time first. In beam
  search, and only there, these outputs and the sentence lengths are both repeated as often as
  there are beams.
\<close>

theorem attention_memory_batch_major:
  assumes enc: "encoder_of cls B (model_init cls h None T) h = Inr en"
    and dec: "decoder_cell_of cls B (model_init cls h None T) h (Some (en_outputs en, en_state en)) len = Inr (cell, st)"
    and m: "mechanism_of cell = Some m"
    and plain: "nt_single_cell_fn T = None" "nt_attention_mechanism_fn T = None"
    and lookup: "keeps_layout (nt_encoder_emb_lookup_fn T)"
  shows "axes (fst (memory_of m)) = Some BatchMajor
    \<and> (let beams = (if nt_mode T = INFER \<and> hn_infer_mode h = u ''beam_search'' then Some (hn_beam_width h) else None);
           memory = (if nt_time_major T then Transpose (en_outputs en) [1, 0, 2] else en_outputs en)
       in memory_of m = (repeated beams memory, repeated beams len))"
proof -
  let ?T = "model_init cls h None T"
  have out: "axes (en_outputs en) = Some (layout_of (nt_time_major ?T))"
  proof -
    have "keeps_layout (nt_encoder_emb_lookup_fn ?T)" by (simp add: lookup)
    then have "okE (encoder_of cls B ?T h) (encoded_layout ?T)"
      unfolding encoder_of_def by (intro okE_if gnmt_build_encoder_layout build_encoder_layout)
    from okE_D[OF this enc] show ?thesis by (simp add: encoded_layout_def)
  qed
  have "\<exists>memory len' es'. attention_inputs ?T h (en_outputs en) len (en_state en) = (memory, len', es')
    \<and> attention_mechanism_of ?T (hn_attention h) (hn_num_units h) memory len' = Inr m"
  proof (cases cls)
    case Model
    with dec m build_decoder_cell_no_mechanism[of B ?T h "Some (en_state en)" cell st] plain
    show ?thesis by (simp add: decoder_cell_of_def)
  next
    case AttentionModel
    with dec have "attention_decoder_cell B ?T h (en_outputs en) (en_state en) len = Inr (cell, st)"
      by (simp add: decoder_cell_of_def)
    from attention_decoder_cell_mechanism[OF this m] plain show ?thesis by simp
  next
    case GNMTModel
    with dec have "gnmt_decoder_cell B ?T h (en_outputs en) (en_state en) len = Inr (cell, st)"
      by (simp add: decoder_cell_of_def)
    from gnmt_decoder_cell_mechanism[OF this m] plain show ?thesis by simp
  qed
  then obtain memory len' es' where inp: "attention_inputs ?T h (en_outputs en) len (en_state en) = (memory, len', es')"
      and "attention_mechanism_of ?T (hn_attention h) (hn_num_units h) memory len' = Inr m" by blast
  note mm = mechanism_created[OF this(2) plain(2)] and lay = attention_inputs_layout[OF inp out]
  have "axes (fst (memory_of m)) = Some BatchMajor" unfolding mm fst_conv by (rule lay[THEN conjunct1])
  moreover have "is_beam_search ?T h \<longleftrightarrow> nt_mode T = INFER \<and> hn_infer_mode h = u ''beam_search''"
    by (simp add: is_beam_search_def)
  ultimately show ?thesis using mm lay[THEN conjunct2] by (simp only: Let_def model_init_simps simp_thms)
qed


lemma attention_decoder_cell_attends:
  "attention_decoder_cell B T h out es len = Inr (cell, st) \<Longrightarrow> nt_has_attention T \<Longrightarrow> \<exists>m. mechanism_of cell = Some m"
  by (auto simp: attention_decoder_cell_def bindE_Inr_iff Let_def split: if_splits prod.splits)

definition sample_standard :: net_hparams where
  "sample_standard = sample_hp\<lparr>hn_encoder_type := u ''bi'', hn_attention_architecture := u ''standard''\<rparr>"

theorem attention_memory_batch_major_witness:
  "\<exists>en cell st m. encoder_of AttentionModel sample_states (model_init AttentionModel sample_standard None sample_net) sample_standard = Inr en
    \<and> decoder_cell_of AttentionModel sample_states (model_init AttentionModel sample_standard None sample_net) sample_standard
        (Some (en_outputs en, en_state en)) source_sequence_length = Inr (cell, st)
    \<and> mechanism_of cell = Some m \<and> axes (fst (memory_of m)) = Some BatchMajor
    \<and> memory_of m = (TileBatch (Transpose (en_outputs en) [1, 0, 2]) 10, TileBatch source_sequence_length 10)"
proof -
  let ?T = "model_init AttentionModel sample_standard None sample_net"
  have units: "plain_units ?T sample_standard"
    by (simp add: plain_units_def sample_net_def sample_hp_def sample_standard_def known_unit_def)
  have n: "nt_num_encoder_layers ?T = int 4" "nt_num_decoder_layers ?T = int 4" by (simp_all add: sample_net_def)
  obtain en where en: "encoder_of AttentionModel sample_states ?T sample_standard = Inr en"
      "shape (en_state en) = stacked 4 (unit_state sample_states sample_standard)"
    using encoder_of_fits[OF units n(1), of AttentionModel sample_states]
    by (auto simp: sample_lookup sample_standard_def)
  have has: "nt_has_attention ?T" "nt_attention_mechanism_fn ?T = Some create_attention_mechanism"
    by (simp_all add: model_init_def attention_init_def sample_standard_def sample_hp_def u_def)
  have std: "hn_attention_architecture sample_standard = u ''standard''" "known_attention (hn_attention sample_standard)"
    by (simp_all add: sample_standard_def sample_hp_def known_attention_def)
  obtain cell st where "attention_decoder_cell sample_states ?T sample_standard (en_outputs en) (en_state en)
      source_sequence_length = Inr (cell, st)"
    using attention_decoder_cell_fits[OF units n(2) zero_less_numeral has(1) std(1) has(2) std(2) en(2),
        of "en_outputs en" source_sequence_length] by blast
  note cell = this attention_decoder_cell_attends[OF this has(1)]
  then have dec: "decoder_cell_of AttentionModel sample_states ?T sample_standard (Some (en_outputs en, en_state en))
      source_sequence_length = Inr (cell, st)" by (simp add: decoder_cell_of_def)
  obtain m where m: "mechanism_of cell = Some m" using cell(2) by blast
  have "nt_single_cell_fn sample_net = None" "nt_attention_mechanism_fn sample_net = None"
      "keeps_layout (nt_encoder_emb_lookup_fn sample_net)"
    by (simp_all add: sample_net_def keeps_layout_lookup)
  note memory = attention_memory_batch_major[OF en(1) dec m this]
  have "nt_mode sample_net = INFER" "nt_time_major sample_net" "hn_infer_mode sample_standard = u ''beam_search''"
      "hn_beam_width sample_standard = 10"
    by (simp_all add: sample_net_def sample_standard_def sample_hp_def)
  with memory have "memory_of m = (TileBatch (Transpose (en_outputs en) [1, 0, 2]) 10, TileBatch source_sequence_length 10)"
    by (simp add: repeated_def)
  with memory en(1) dec m show ?thesis by blast
qed

text \<open>
  C17. Whatever the settings, an encoder that is built computes on tensors whose axes are where
  TensorFlow is told they are: its embedded input, its outputs and all states it keeps have time
  first exactly when \<open>time_major\<close> is set, and the stacked encoder states for extraction have the
  batch first in either case. A custom embedding lookup has to keep the axes of the ids.
\<close>

theorem encoder_layouts:
  assumes "gnmt_build_encoder B T h = Inr en" and "keeps_layout (nt_encoder_emb_lookup_fn T)"
  shows "axes (en_emb_inp en) = Some (layout_of (nt_time_major T))
    \<and> axes (en_outputs en) = Some (layout_of (nt_time_major T))
    \<and> en_state_list en \<noteq> []
    \<and> set (map axes (en_state_list en)) = {Some (layout_of (nt_time_major T))}
    \<and> (\<forall>stack embeddings. build_encoder_states T en embeddings = Inr stack \<longrightarrow> axes stack = Some BatchMajor)"
proof -
  let ?l = "Some (layout_of (nt_time_major T))"
  have good: "encoded_layout T en" using okE_D[OF gnmt_build_encoder_layout[OF assms(2)] assms(1)] .
  have "axes stack = Some BatchMajor" if "build_encoder_states T en embeddings = Inr stack" for stack embeddings
  proof -
    have "common (map axes (en_state_list en)) = ?l" "common (?l # map axes (en_state_list en)) = ?l"
      using good by (auto simp: encoded_layout_def intro!: common_all)
    with that good show ?thesis
      by (cases "nt_time_major T")
        (auto simp: encoded_layout_def build_encoder_states_def layout_of_def bindE_Inr_iff split: if_splits)
  qed
  with good show ?thesis by (cases "en_state_list en") (auto simp: encoded_layout_def)
qed

theorem encoder_layouts_witness:
  "\<exists>en. gnmt_build_encoder sample_states sample_net sample_hp = Inr en
    \<and> axes (en_emb_inp en) = Some (layout_of (nt_time_major sample_net))
    \<and> axes (en_outputs en) = Some (layout_of (nt_time_major sample_net))
    \<and> en_state_list en \<noteq> []
    \<and> set (map axes (en_state_list en)) = {Some (layout_of (nt_time_major sample_net))}
    \<and> (\<forall>stack embeddings. build_encoder_states sample_net en embeddings = Inr stack \<longrightarrow> axes stack = Some BatchMajor)"
proof -
  have units: "plain_units sample_net sample_hp"
    by (simp add: plain_units_def sample_net_def sample_hp_def known_unit_def)
  have "nt_num_encoder_layers sample_net = int 4" by (simp add: sample_net_def)
  from encoder_of_fits[OF units this, of GNMTModel sample_states]
  obtain en where en: "gnmt_build_encoder sample_states sample_net sample_hp = Inr en"
    by (auto simp: encoder_of_def sample_lookup sample_hp_def)
  have "keeps_layout (nt_encoder_emb_lookup_fn sample_net)" by (simp add: sample_net_def keeps_layout_lookup)
  from encoder_layouts[OF en this] en show ?thesis by blast
qed

section \<open>Settings that do not work\<close>

text \<open>
  C38. Two settings that the checks of \<open>extend_hparams\<close> let through fail while the GNMT decoder is
  built. Without an attention option a GNMT architecture raises \<open>AttributeError\<close>: the attribute
  for the mechanism is only set when there is an option. And with one layer on both sides (which
  is refused for \<open>gnmt\<close>, but not for \<open>gnmt_v2\<close>) and a unit whose state is a pair of tensors, an
  LSTM, a \<open>uni\<close> encoder is built, but its state is taken apart as if it were a tuple of layers,
  and the attention cell refuses to start with the first tensor of it: \<open>ValueError\<close>.
\<close>

theorem gnmt_misconfigured:
  assumes arch: "is_gnmt_architecture h" and fresh: "nt_attention_mechanism_fn T = None"
    and lookup: "\<And>x. \<exists>e. nt_encoder_emb_lookup_fn T x = Inr e"
  shows "(hn_attention h = [] \<longrightarrow>
       decoder_cell_of GNMTModel B (model_init GNMTModel h None T) h (Some (out, es)) len = Inl AttributeError)
    \<and> (known_attention (hn_attention h) \<and> plain_units T h \<and> unit_state B h = Tuple [Leaf (), Leaf ()]
         \<and> nt_num_encoder_layers T = 1 \<and> nt_num_decoder_layers T = 1 \<and> hn_encoder_type h = u ''uni''
         \<and> hn_pass_hidden_state h \<longrightarrow>
       (\<exists>en. encoder_of GNMTModel B (model_init GNMTModel h None T) h = Inr en
         \<and> decoder_cell_of GNMTModel B (model_init GNMTModel h None T) h (Some (en_outputs en, en_state en)) len
             = Inl ValueError))"
proof (intro conjI impI)
  let ?T = "model_init GNMTModel h None T"
  have gnmt: "nt_is_gnmt_attention ?T"
    using arch by (auto simp: model_init_def gnmt_init_def attention_init_def is_gnmt_architecture_def Let_def)
  show "decoder_cell_of GNMTModel B ?T h (Some (out, es)) len = Inl AttributeError" if "hn_attention h = []"
  proof -
    have "nt_attention_mechanism_fn ?T = None"
      using that fresh by (simp add: model_init_def gnmt_init_def attention_init_def Let_def)
    with gnmt show ?thesis
      by (simp add: decoder_cell_of_def gnmt_decoder_cell_def attention_mechanism_of_def split: prod.splits)
  qed
  assume s: "known_attention (hn_attention h) \<and> plain_units T h \<and> unit_state B h = Tuple [Leaf (), Leaf ()]
    \<and> nt_num_encoder_layers T = 1 \<and> nt_num_decoder_layers T = 1 \<and> hn_encoder_type h = u ''uni'' \<and> hn_pass_hidden_state h"
  have fn: "nt_attention_mechanism_fn ?T = Some create_attention_mechanism"
    using arch known_attention_nonempty[of "hn_attention h"] s
    by (auto simp: model_init_def gnmt_init_def attention_init_def is_gnmt_architecture_def u_def Let_def)
  have "plain_units ?T h" "nt_num_encoder_layers ?T = int 1" using s by simp_all
  from encoder_of_fits[OF this zero_less_one, of GNMTModel B] lookup s obtain en where
    en: "encoder_of GNMTModel B ?T h = Inr en" "shape (en_state en) = Tuple [Leaf (), Leaf ()]"
    by (auto simp: stacked_def)
  let ?C = "decoder_cell_config ?T h (hn_num_units h) 0 (Some GnmtResidualFn)"
  have C: "cc_single_cell_fn ?C = None" "known_unit (cc_unit_type ?C)"
    using s by (simp_all add: decoder_cell_config_def plain_units_def)
  obtain c where c: "cell_list ?C = Inr [c]" "state_size B c = Tuple [Leaf (), Leaf ()]"
    using cell_list_states[OF C, of B] s
    by (auto simp: decoder_cell_config_def unit_state_def length_Suc_conv)
  from s have att: "known_attention (hn_attention h)" "hn_pass_hidden_state h" by simp_all
  from gnmt_decoder_cell_run[OF gnmt arch att(2) fn att(1) c(1), of "en_state en" B "en_outputs en" len]
  obtain cell m images v2 es' where cell: "cell = GNMTAttentionMultiCell (AttentionWrapper c m None images False) [] v2"
    and es': "shape es' = shape (en_state en)"
    and run: "gnmt_decoder_cell B ?T h (en_outputs en) (en_state en) len = bindE (nest_items (zero_state B cell)) (\<lambda>zss.
        bindE (nest_items es') (\<lambda>ess. bindE (mapE (\<lambda>(zs, es). pass_state zs es) (zip zss ess)) (\<lambda>states. Inr (cell, Tuple states))))"
    by blast
  obtain e1 e2 where e: "es' = Tuple [e1, e2]" "shape e1 = Leaf ()"
    using shape_Tuple[of es'] en(2) es' by (auto simp: map_eq_Cons_conv)
  have "shape (zero_state B cell) = Tuple [AttentionState (Tuple [Leaf (), Leaf ()])]" by (simp add: cell c)
  then obtain z where z: "zero_state B cell = Tuple [AttentionState z]" "shape z = Tuple [Leaf (), Leaf ()]"
    by (auto simp: zero_state_def cell c)
  have "decoder_cell_of GNMTModel B ?T h (Some (en_outputs en, en_state en)) len = Inl ValueError"
    by (simp add: decoder_cell_of_def run z e pass_state_def)
  with en(1) show "\<exists>en. encoder_of GNMTModel B ?T h = Inr en
    \<and> decoder_cell_of GNMTModel B ?T h (Some (en_outputs en, en_state en)) len = Inl ValueError" by blast
qed

definition no_attention :: net_hparams where
  "no_attention = sample_hp\<lparr>hn_attention := []\<rparr>"

definition one_layer :: net_hparams where
  "one_layer = sample_hp\<lparr>hn_encoder_type := u ''uni'', hn_num_encoder_layers := 1, hn_num_decoder_layers := 1\<rparr>"

definition one_layer_net :: "int net" where
  "one_layer_net = sample_net\<lparr>nt_num_encoder_layers := 1, nt_num_decoder_layers := 1\<rparr>"

theorem gnmt_misconfigured_witness:
  "decoder_cell_of GNMTModel sample_states (model_init GNMTModel no_attention None sample_net) no_attention
      (Some (source, Leaf (ZeroOf (NASCell 1) []))) source_sequence_length = Inl AttributeError
    \<and> (\<exists>en. encoder_of GNMTModel sample_states (model_init GNMTModel one_layer None one_layer_net) one_layer = Inr en
         \<and> decoder_cell_of GNMTModel sample_states (model_init GNMTModel one_layer None one_layer_net) one_layer
             (Some (en_outputs en, en_state en)) source_sequence_length = Inl ValueError)"
proof -
  have "is_gnmt_architecture no_attention" "is_gnmt_architecture one_layer"
      "nt_attention_mechanism_fn sample_net = None" "nt_attention_mechanism_fn one_layer_net = None"
      "\<And>x. \<exists>e. nt_encoder_emb_lookup_fn sample_net x = Inr e" "\<And>x. \<exists>e. nt_encoder_emb_lookup_fn one_layer_net x = Inr e"
    by (simp_all add: is_gnmt_architecture_def no_attention_def one_layer_def one_layer_net_def sample_hp_def
        sample_net_def embedding_lookup_def)
  note bad = gnmt_misconfigured[OF this(1,3,5), of sample_states] gnmt_misconfigured[OF this(2,4,6), of sample_states]
  have "known_attention (hn_attention one_layer)" "plain_units one_layer_net one_layer"
      "unit_state sample_states one_layer = Tuple [Leaf (), Leaf ()]" "nt_num_encoder_layers one_layer_net = 1"
      "nt_num_decoder_layers one_layer_net = 1" "hn_encoder_type one_layer = u ''uni''" "hn_pass_hidden_state one_layer"
    by (simp_all add: known_attention_def one_layer_def one_layer_net_def sample_hp_def sample_net_def plain_units_def
        known_unit_def unit_state_def layer_state_def sample_states_def numeral_2_eq_2)
  with bad show ?thesis by (simp add: no_attention_def)
qed

end
