(* ===== verification/Losses.thy ===== *)
theory Losses
  imports Decoders Iterators NmtUtils
begin

text \<open>
  The loss and the decoded words of \<open>BaseModel\<close> in \<open>nmt/model.py\<close>. Both are computed on matrices
  and cubes, lists of rows; the cross entropy of a position is the
  parameter \<open>xent\<close>, and the sampled loss, which TensorFlow computes on the flattened positions,
  the parameter \<open>sampled\<close>. \<open>tf.reshape\<close> of the flat losses and \<open>tf.sequence_mask\<close> are
  parameters as well, \<open>loss_laws\<close> being what their documentation says.
\<close>

section \<open>The loss\<close>

definition get_max_time :: "bool \<Rightarrow> 'x list list \<Rightarrow> nat" where
  "get_max_time time_major tensor =
     (if time_major then length tensor else case tensor of [] \<Rightarrow> 0 | row # _ \<Rightarrow> length row)"

record ('l, 'c) loss_ops =
  xent :: "'l \<Rightarrow> int \<Rightarrow> real"
  sampled :: "'c list \<Rightarrow> int list \<Rightarrow> real list"
  reshape :: "int \<Rightarrow> int \<Rightarrow> real list \<Rightarrow> real list list"
  sequence_mask :: "int list \<Rightarrow> nat \<Rightarrow> real list list"

text \<open>
  The outputs of the decoder cell have three axes, so \<open>is_sequence\<close> holds whenever the sampled
  loss is used.
\<close>

definition softmax_cross_entropy_loss ::
    "('l, 'c) loss_ops \<Rightarrow> bool \<Rightarrow> int \<Rightarrow> nat \<Rightarrow> 'l list list \<Rightarrow> 'c list list \<Rightarrow> int list list \<Rightarrow> real list list" where
  "softmax_cross_entropy_loss L time_major num_sampled_softmax batch_size logits decoder_cell_outputs labels =
     (if num_sampled_softmax > 0
      then let labels = concat labels;
               inputs = concat decoder_cell_outputs;
               crossent = sampled L inputs labels
           in if time_major then reshape L (- 1) (int batch_size) crossent
              else reshape L (int batch_size) (- 1) crossent
      else map2 (map2 (xent L)) logits labels)"

definition compute_loss ::
    "('l, 'c) loss_ops \<Rightarrow> bool \<Rightarrow> int \<Rightarrow> batch \<Rightarrow> 'l list list \<Rightarrow> 'c list list \<Rightarrow> real" where
  "compute_loss L time_major num_sampled_softmax iterator logits decoder_cell_outputs =
     (let target_output = (if time_major then transpose (ba_target_output iterator) else ba_target_output iterator);
          max_time = get_max_time time_major target_output;
          batch_size = length (ba_source_length iterator);
          crossent = softmax_cross_entropy_loss L time_major num_sampled_softmax batch_size
                       logits decoder_cell_outputs target_output;
          target_weights = sequence_mask L (ba_target_length iterator) max_time;
          target_weights = (if time_major then transpose target_weights else target_weights)
      in sum_list (concat (map2 (map2 (*)) crossent target_weights)) / real batch_size)"

section \<open>Rectangular matrices\<close>

definition rect :: "nat \<Rightarrow> nat \<Rightarrow> 'x list list \<Rightarrow> bool" where
  "rect n w M \<longleftrightarrow> length M = n \<and> (\<forall>r \<in> set M. length r = w)"

text \<open>
  A side of the shape that is \<open>-1\<close> is computed from the number of entries, and the entries keep
  their order; the mask of a length has ones before that position.
\<close>

definition length_mask :: "int list \<Rightarrow> nat \<Rightarrow> real list list" where
  "length_mask lengths max_time = map (\<lambda>n. map (\<lambda>t. if int t < n then 1 else 0) [0..<max_time]) lengths"

definition loss_laws :: "('l, 'c) loss_ops \<Rightarrow> bool" where
  "loss_laws L \<longleftrightarrow>
     (\<forall>n w M. 0 < n \<and> 0 < w \<and> rect n w M \<longrightarrow>
        reshape L (- 1) (int w) (concat M) = M \<and> reshape L (int n) (- 1) (concat M) = M) \<and>
     (\<forall>lengths max_time. sequence_mask L lengths max_time = length_mask lengths max_time)"

lemma loss_lawsD:
  "loss_laws L \<Longrightarrow> 0 < n \<Longrightarrow> 0 < w \<Longrightarrow> rect n w M \<Longrightarrow>
     reshape L (- 1) (int w) (concat M) = M \<and> reshape L (int n) (- 1) (concat M) = M"
  "loss_laws L \<Longrightarrow> sequence_mask L = length_mask"
  by (auto simp: loss_laws_def fun_eq_iff)

lemma rect_nth: "rect n w M \<Longrightarrow> i < n \<Longrightarrow> length (M ! i) = w"
  by (simp add: rect_def)

lemma longest_rect: "(\<forall>r \<in> set M. length r = w) \<Longrightarrow> M \<noteq> [] \<Longrightarrow> foldr (\<lambda>xs. max (length xs)) M 0 = w"
proof (induction M)
  case (Cons r M)
  then show ?case by (cases M) auto
qed simp

lemma transpose_rect:
  assumes "rect n w M" "0 < n"
  shows "transpose M = map (\<lambda>j. map (\<lambda>r. r ! j) M) [0..<w]"
proof (rule nth_equalityI)
  have M: "M \<noteq> []" "\<forall>r \<in> set M. length r = w" using assms by (auto simp: rect_def)
  then have len: "length (transpose M) = w" by (simp add: length_transpose longest_rect)
  then show "length (transpose M) = length (map (\<lambda>j. map (\<lambda>r. r ! j) M) [0..<w])" by simp
  fix j assume "j < length (transpose M)"
  then have "j < w" and "filter (\<lambda>r. j < length r) M = M" using len M(2) by (auto simp: filter_id_conv)
  then show "transpose M ! j = map (\<lambda>j. map (\<lambda>r. r ! j) M) [0..<w] ! j"
    using len by (simp add: nth_transpose)
qed

lemma rect_transpose: "rect n w M \<Longrightarrow> 0 < n \<Longrightarrow> rect w n (transpose M)"
  by (simp add: transpose_rect) (auto simp: rect_def)

lemma nth_transpose_rect: "rect n w M \<Longrightarrow> 0 < n \<Longrightarrow> i < n \<Longrightarrow> j < w \<Longrightarrow> transpose M ! j ! i = M ! i ! j"
  by (simp add: transpose_rect) (simp add: rect_def)

lemma rect_map2: "rect n w A \<Longrightarrow> rect n w B \<Longrightarrow> rect n w (map2 (map2 f) A B)"
  by (auto simp: rect_def set_zip)

lemma nth_map2_rect:
  "rect n w A \<Longrightarrow> rect n w B \<Longrightarrow> i < n \<Longrightarrow> j < w \<Longrightarrow> map2 (map2 f) A B ! i ! j = f (A ! i ! j) (B ! i ! j)"
  using rect_nth[of n w A i] rect_nth[of n w B i] by (simp add: rect_def)

lemma rect_eqI:
  assumes "rect n w A" "rect n w B" "\<And>i j. i < n \<Longrightarrow> j < w \<Longrightarrow> A ! i ! j = B ! i ! j"
  shows "A = B"
proof (rule nth_equalityI)
  show "length A = length B" using assms(1,2) by (simp add: rect_def)
  fix i assume "i < length A"
  then have "i < n" using assms(1) by (simp add: rect_def)
  with assms show "A ! i = B ! i" by (intro nth_equalityI) (simp_all add: rect_nth)
qed

lemma map2_transpose:
  assumes "rect n w A" "rect n w B" "0 < n"
  shows "map2 (map2 f) (transpose A) (transpose B) = transpose (map2 (map2 f) A B)"
  using assms by (intro rect_eqI[of w n] rect_map2 rect_transpose)
    (simp_all add: nth_map2_rect[of w n] nth_map2_rect[of n w] rect_transpose nth_transpose_rect[of n w] rect_map2)

lemma sum_rect: "rect n w A \<Longrightarrow> sum_list (concat A) = (\<Sum>i<n. \<Sum>j<w. A ! i ! j)" for A :: "real list list"
proof -
  assume A: "rect n w A"
  have "sum_list (concat A) = (\<Sum>r\<leftarrow>A. sum_list r)" by (induction A) auto
  also have "\<dots> = (\<Sum>i<n. sum_list (A ! i))" using A by (simp add: sum_list_sum_nth rect_def atLeast0LessThan)
  also have "\<dots> = (\<Sum>i<n. \<Sum>j<w. A ! i ! j)"
    by (rule sum.cong) (use rect_nth[OF A] in \<open>auto simp: sum_list_sum_nth atLeast0LessThan\<close>)
  finally show ?thesis .
qed

lemma sum_transpose:
  fixes A :: "real list list"
  assumes "rect n w A" "0 < n"
  shows "sum_list (concat (transpose A)) = sum_list (concat A)"
proof -
  have "sum_list (concat (transpose A)) = (\<Sum>j<w. \<Sum>i<n. A ! i ! j)"
    using assms by (simp add: sum_rect[OF rect_transpose] nth_transpose_rect)
  also have "\<dots> = sum_list (concat A)" by (subst sum.swap) (simp add: sum_rect[OF assms(1)])
  finally show ?thesis .
qed

lemma rows_of_concat: "0 < w \<Longrightarrow> \<forall>r \<in> set M. length r = w \<Longrightarrow> chunks w (concat M) = M"
proof (induction M)
  case Nil
  then show ?case by (cases w) auto
next
  case (Cons r M)
  then obtain k x xs where "w = Suc k" "r = x # xs" by (cases w; cases r) auto
  with Cons show ?case by simp
qed

lemma length_concat_rect:
  assumes "rect n w M"
  shows "length (concat M) = n * w"
proof -
  have "\<forall>r \<in> set M. length r = w \<Longrightarrow> length (concat M) = length M * w" by (induction M) auto
  with assms show ?thesis by (simp add: rect_def)
qed

lemma map2_concat:
  "length A = length B \<Longrightarrow> \<forall>(a, b) \<in> set (zip A B). length a = length b
     \<Longrightarrow> map2 f (concat A) (concat B) = concat (map2 (map2 f) A B)"
  by (induction A B rule: list_induct2) auto


section \<open>The loss of a batch\<close>

text \<open>A matrix in the layout of the model.\<close>

definition laid_out :: "bool \<Rightarrow> 'x list list \<Rightarrow> 'x list list" where
  "laid_out time_major M = (if time_major then transpose M else M)"

lemma rect_laid_out:
  "rect n w M \<Longrightarrow> 0 < n \<Longrightarrow> rect (if tm then w else n) (if tm then n else w) (laid_out tm M)"
  by (simp add: laid_out_def rect_transpose)

definition cross_entropies ::
    "('l, 'c) loss_ops \<Rightarrow> ('c \<Rightarrow> int \<Rightarrow> real) \<Rightarrow> int \<Rightarrow> 'l list list \<Rightarrow> 'c list list \<Rightarrow> int list list \<Rightarrow> real list list" where
  "cross_entropies L s num_sampled logits cells labels =
     (if num_sampled > 0 then map2 (map2 s) cells labels else map2 (map2 (xent L)) logits labels)"

lemma rect_cross_entropies:
  "rect n w X \<Longrightarrow> rect n w C \<Longrightarrow> rect n w Y \<Longrightarrow> rect n w (cross_entropies L s k X C Y)"
  by (simp add: cross_entropies_def rect_map2)

lemma crossent_laid_out:
  fixes L :: "('l, 'c) loss_ops"
  assumes X: "rect n w X" and C: "rect n w C" and Y: "rect n w Y" and pos: "0 < n" "0 < w"
    and laws: "loss_laws L" and s: "\<And>is ys. length is = length ys \<Longrightarrow> sampled L is ys = map2 s is ys"
  shows "softmax_cross_entropy_loss L tm k n (laid_out tm X) (laid_out tm C) (laid_out tm Y)
    = laid_out tm (cross_entropies L s k X C Y)"
proof (cases "k > 0")
  case False
  then show ?thesis
    by (simp add: softmax_cross_entropy_loss_def cross_entropies_def laid_out_def map2_transpose[OF X Y pos(1)])
next
  case True
  let ?C = "laid_out tm C" and ?Y = "laid_out tm Y" and ?a = "if tm then w else n" and ?b = "if tm then n else w"
  note rC = rect_laid_out[OF C pos(1), of tm] and rY = rect_laid_out[OF Y pos(1), of tm]
  have len: "length ?C = length ?Y" using rC rY by (simp add: rect_def)
  have rows: "length a = length b" if "(a, b) \<in> set (zip ?C ?Y)" for a b
    using rC rY set_zip_leftD[OF that] set_zip_rightD[OF that] by (simp add: rect_def)
  then have len: "length ?C = length ?Y" "\<forall>(a, b) \<in> set (zip ?C ?Y). length a = length b"
    using len by auto
  have flat: "length (concat ?C) = length (concat ?Y)"
    using length_concat_rect[OF rC] length_concat_rect[OF rY] by (rule trans[OF _ sym])
  have run: "sampled L (concat ?C) (concat ?Y) = concat (map2 (map2 s) ?C ?Y)"
    by (simp add: s[OF flat] map2_concat[OF len])
  have M: "rect ?a ?b (map2 (map2 s) ?C ?Y)" by (rule rect_map2[OF rC rY])
  have "0 < ?a" "0 < ?b" using pos by simp_all
  note rows_back = loss_lawsD(1)[OF laws this M]
  have "map2 (map2 s) ?C ?Y = laid_out tm (map2 (map2 s) C Y)"
    by (simp add: laid_out_def map2_transpose[OF C Y pos(1)])
  with True run rows_back show ?thesis
    by (cases tm) (simp_all add: softmax_cross_entropy_loss_def cross_entropies_def Let_def)
qed

lemma rect_length_mask: "rect (length ls) w (length_mask ls w)"
  by (simp add: rect_def length_mask_def)

lemma nth_length_mask:
  "i < length ls \<Longrightarrow> t < w \<Longrightarrow> length_mask ls w ! i ! t = (if int t < ls ! i then 1 else 0)"
  by (simp add: length_mask_def)

lemma masked_sum:
  fixes e :: "nat \<Rightarrow> real"
  assumes "0 \<le> l" "l \<le> int w"
  shows "(\<Sum>t<w. e t * (if int t < l then 1 else 0)) = (\<Sum>t<nat l. e t)"
proof -
  have "(\<Sum>t<w. e t * (if int t < l then 1 else 0)) = (\<Sum>t\<in>{..<w}. if t < nat l then e t else 0)"
    by (rule sum.cong) (use assms in auto)
  also have "\<dots> = (\<Sum>t\<in>{t \<in> {..<w}. t < nat l}. e t)" by (rule sum.inter_filter[symmetric]) simp
  also have "{t \<in> {..<w}. t < nat l} = {..<nat l}" using assms by auto
  finally show ?thesis .
qed

text \<open>
  C6. The loss does not depend on the layout, and padding does not count. For logits and cell
  outputs of one entry for every sentence and position, the loss of a batch in either layout, with
  the full or the sampled softmax, is the cross entropy summed over the true positions of every
  sentence, those below its recorded target length, and divided by the number of sentences.
\<close>

theorem compute_loss_value:
  fixes L :: "('l, 'c) loss_ops"
  assumes X: "rect n w logits" and C: "rect n w cells" and Y: "rect n w (ba_target_output b)" and pos: "0 < n" "0 < w"
    and batch: "length (ba_source_length b) = n" "length (ba_target_length b) = n"
    and lengths: "\<forall>l \<in> set (ba_target_length b). 0 \<le> l \<and> l \<le> int w"
    and laws: "loss_laws L"
    and s: "\<And>is ys. length is = length ys \<Longrightarrow> sampled L is ys = map2 s is ys"
  shows "compute_loss L time_major k b (laid_out time_major logits) (laid_out time_major cells)
    = (\<Sum>i<n. \<Sum>t<nat (ba_target_length b ! i).
         if k > 0 then s (cells ! i ! t) (ba_target_output b ! i ! t)
         else xent L (logits ! i ! t) (ba_target_output b ! i ! t)) / real n"
proof -
  let ?E = "cross_entropies L s k logits cells (ba_target_output b)" and ?ls = "ba_target_length b"
  let ?W = "length_mask ?ls w" and ?e = "\<lambda>i t. if k > 0 then s (cells ! i ! t) (ba_target_output b ! i ! t)
         else xent L (logits ! i ! t) (ba_target_output b ! i ! t)"
  have E: "rect n w ?E" by (rule rect_cross_entropies[OF X C Y])
  have W: "rect n w ?W" using rect_length_mask[of ?ls w] batch(2) by simp
  have time: "get_max_time time_major (laid_out time_major (ba_target_output b)) = w"
    using rect_laid_out[OF Y pos(1), of time_major] pos
    by (cases time_major; cases "ba_target_output b") (auto simp: get_max_time_def laid_out_def rect_def)
  have "map2 (map2 (*)) (laid_out time_major ?E) (laid_out time_major ?W) = laid_out time_major (map2 (map2 (*)) ?E ?W)"
    by (simp add: laid_out_def map2_transpose[OF E W pos(1)])
  then have "compute_loss L time_major k b (laid_out time_major logits) (laid_out time_major cells)
      = sum_list (concat (laid_out time_major (map2 (map2 (*)) ?E ?W))) / real n"
    using crossent_laid_out[OF X C Y pos laws s, of time_major k] time batch(1)
    by (simp add: compute_loss_def Let_def loss_lawsD(2)[OF laws] flip: laid_out_def)
  also have "sum_list (concat (laid_out time_major (map2 (map2 (*)) ?E ?W))) = sum_list (concat (map2 (map2 (*)) ?E ?W))"
    by (simp add: laid_out_def sum_transpose[OF rect_map2[OF E W] pos(1)])
  also have "\<dots> = (\<Sum>i<n. \<Sum>t<w. ?E ! i ! t * ?W ! i ! t)"
    by (simp add: sum_rect[OF rect_map2[OF E W]] nth_map2_rect[OF E W])
  also have "\<dots> = (\<Sum>i<n. \<Sum>t<w. ?e i t * (if int t < ?ls ! i then 1 else 0))"
    using batch(2) by (intro sum.cong refl)
      (simp add: nth_length_mask cross_entropies_def nth_map2_rect[OF X Y] nth_map2_rect[OF C Y])
  also have "\<dots> = (\<Sum>i<n. \<Sum>t<nat (?ls ! i). ?e i t)"
    by (rule sum.cong) (use lengths batch(2) in \<open>auto intro!: masked_sum\<close>)
  finally show ?thesis .
qed


definition sample_loss :: "(real, real) loss_ops" where
  "sample_loss = \<lparr>xent = (\<lambda>l y. l - real_of_int y), sampled = map2 (\<lambda>c y. c * real_of_int y),
     reshape = (\<lambda>a b xs. chunks (if a = - 1 then nat b else length xs div nat a) xs), sequence_mask = length_mask\<rparr>"

lemma sample_loss_laws: "loss_laws sample_loss"
proof -
  have "chunks w (concat M) = M \<and> chunks (length (concat M) div n) (concat M) = M"
    if "0 < n" "0 < w" "rect n w M" for n w and M :: "real list list"
    using that rows_of_concat[of w M] length_concat_rect[of n w M] by (auto simp: rect_def)
  then show ?thesis unfolding loss_laws_def by (simp add: sample_loss_def) blast
qed

definition sample_batch :: batch where
  "sample_batch = \<lparr>ba_source = [[3, 4], [5, 2]], ba_target_input = [[1, 6], [1, 2]],
     ba_target_output = [[6, 2], [2, 2]], ba_source_length = [2, 1], ba_target_length = [2, 1]\<rparr>"

theorem compute_loss_value_witness:
  "compute_loss sample_loss True 0 sample_batch (laid_out True [[7, 8], [9, 10]]) (laid_out True [[1, 1], [1, 1]])
    = (\<Sum>i<2. \<Sum>t<nat (ba_target_length sample_batch ! i).
         if (0::int) > 0 then (\<lambda>c y. c * real_of_int y) ([[1, 1], [1, 1]] ! i ! t) (ba_target_output sample_batch ! i ! t)
         else xent sample_loss ([[7, 8], [9, 10]] ! i ! t) (ba_target_output sample_batch ! i ! t)) / real 2"
  by (rule compute_loss_value[where w = 2, OF _ _ _ _ _ _ _ _ sample_loss_laws])
    (simp_all add: rect_def sample_batch_def sample_loss_def)

section \<open>Decoded words\<close>

text \<open>
  The array of words a session returns: two axes, or three in beam search. \<open>transpose()\<close> of
  numpy reverses the axes, \<open>transpose([2, 0, 1])\<close> moves the last axis to the front.
\<close>

datatype 'w word_array = Matrix "'w list list" | Cube "'w list list list"

definition cube_shape :: "'w list list list \<Rightarrow> nat \<times> nat \<times> nat" where
  "cube_shape c =
     (length c, case c of [] \<Rightarrow> 0 | m # _ \<Rightarrow> length m,
      case c of [] \<Rightarrow> 0 | m # _ \<Rightarrow> (case m of [] \<Rightarrow> 0 | r # _ \<Rightarrow> length r))"

definition reverse_axes :: "'w list list list \<Rightarrow> 'w list list list" where
  "reverse_axes c =
     (let (a, b, d) = cube_shape c
      in map (\<lambda>k. map (\<lambda>j. map (\<lambda>i. c ! i ! j ! k) [0..<a]) [0..<b]) [0..<d])"

definition last_axis_first :: "'w list list list \<Rightarrow> 'w list list list" where
  "last_axis_first c =
     (let (a, b, d) = cube_shape c
      in map (\<lambda>k. map (\<lambda>i. map (\<lambda>j. c ! i ! j ! k) [0..<b]) [0..<a]) [0..<d])"

fun numpy_transpose :: "'w word_array \<Rightarrow> 'w word_array" where
  "numpy_transpose (Matrix m) = Matrix (transpose m)"
| "numpy_transpose (Cube c) = Cube (reverse_axes c)"

definition decoded_words :: "bool \<Rightarrow> 'w word_array \<Rightarrow> 'w word_array" where
  "decoded_words time_major sample_words =
     (if time_major then numpy_transpose sample_words
      else case sample_words of Cube c \<Rightarrow> Cube (last_axis_first c) | Matrix m \<Rightarrow> Matrix m)"

text \<open>A session runs the inference graph of a model built for it.\<close>

definition decode :: "mode \<Rightarrow> bool \<Rightarrow> ('s \<Rightarrow> ('w word_array \<times> 'a) \<times> 's) \<Rightarrow> 's \<Rightarrow> (('w word_array \<times> 'a) \<times> 's) res" where
  "decode mode time_major infer sess =
     bindE (assertE (mode = INFER)) (\<lambda>_.
     let ((sample_words, infer_summary), sess) = infer sess
     in Inr ((decoded_words time_major sample_words, infer_summary), sess))"

text \<open>A cube by its entries, first axis first.\<close>

definition cube :: "nat \<Rightarrow> nat \<Rightarrow> nat \<Rightarrow> (nat \<Rightarrow> nat \<Rightarrow> nat \<Rightarrow> 'w) \<Rightarrow> 'w list list list" where
  "cube a b d f = map (\<lambda>i. map (\<lambda>j. map (f i j) [0..<d]) [0..<b]) [0..<a]"

definition matrix :: "nat \<Rightarrow> nat \<Rightarrow> (nat \<Rightarrow> nat \<Rightarrow> 'w) \<Rightarrow> 'w list list" where
  "matrix a b f = map (\<lambda>i. map (f i) [0..<b]) [0..<a]"

lemma hd_upt_map: "0 < n \<Longrightarrow> (case map f [0..<n] of [] \<Rightarrow> z | x # _ \<Rightarrow> g x) = g (f 0)"
  by (simp add: upt_conv_Cons)

lemma cube_shape_cube:
  assumes "0 < a" "0 < b"
  shows "cube_shape (cube a b d f) = (a, b, d)"
  unfolding cube_shape_def cube_def using assms by (simp add: hd_upt_map)

lemma rect_matrix: "rect a b (matrix a b f)"
  by (auto simp: rect_def matrix_def)

text \<open>
  C19. What the decoding loop receives does not depend on the layout of the graph. For every table
  of words, the arrays the two layouts produce come out as the same array: sentences by positions
  outside beam search, and beams by sentences by positions in beam search.
\<close>

theorem decode_layouts:
  assumes "0 < beams" "0 < n" "0 < w"
  shows "decoded_words True (Matrix (matrix w n (\<lambda>t i. f i t))) = Matrix (matrix n w f)
    \<and> decoded_words False (Matrix (matrix n w f)) = Matrix (matrix n w f)
    \<and> decoded_words True (Cube (cube w n beams (\<lambda>t i k. g k i t))) = Cube (cube beams n w g)
    \<and> decoded_words False (Cube (cube n w beams (\<lambda>i t k. g k i t))) = Cube (cube beams n w g)"
proof (intro conjI)
  have "transpose (matrix w n (\<lambda>t i. f i t)) = matrix n w f"
    using assms by (simp add: transpose_rect[OF rect_matrix]) (simp add: matrix_def o_def)
  then show "decoded_words True (Matrix (matrix w n (\<lambda>t i. f i t))) = Matrix (matrix n w f)"
    by (simp add: decoded_words_def)
  have "reverse_axes (cube w n beams (\<lambda>t i k. g k i t)) = cube beams n w g"
    unfolding reverse_axes_def cube_shape_cube[OF assms(3,2)] by (auto simp: cube_def)
  then show "decoded_words True (Cube (cube w n beams (\<lambda>t i k. g k i t))) = Cube (cube beams n w g)"
    by (simp add: decoded_words_def)
  have "last_axis_first (cube n w beams (\<lambda>i t k. g k i t)) = cube beams n w g"
    unfolding last_axis_first_def cube_shape_cube[OF assms(2,3)] by (auto simp: cube_def)
  then show "decoded_words False (Cube (cube n w beams (\<lambda>i t k. g k i t))) = Cube (cube beams n w g)"
    by (simp add: decoded_words_def)
qed (simp add: decoded_words_def)

theorem decode_layouts_witness:
  "decoded_words True (Matrix (matrix 3 2 (\<lambda>t i. (i, t)))) = Matrix (matrix 2 3 (\<lambda>i t. (i, t)))
    \<and> decoded_words False (Matrix (matrix 2 3 (\<lambda>i t. (i, t)))) = Matrix (matrix 2 3 (\<lambda>i t. (i, t)))
    \<and> decoded_words True (Cube (cube 3 2 2 (\<lambda>t i k. (k, i, t)))) = Cube (cube 2 2 3 (\<lambda>k i t. (k, i, t)))
    \<and> decoded_words False (Cube (cube 2 3 2 (\<lambda>i t k. (k, i, t)))) = Cube (cube 2 2 3 (\<lambda>k i t. (k, i, t)))"
  by (rule decode_layouts) simp_all

end
