(* ===== verification/Graphs.thy ===== *)
theory Graphs
  imports Losses Schedule
begin

text \<open>
  The graph of a model: the decoder that is run in each mode, the loss and the update of a
  training step (\<open>nmt/model.py\<close>), the summary of the attention (\<open>nmt/attention_model.py\<close>,
  \<open>nmt/gnmt_model.py\<close>), and the three graphs \<open>nmt/model_helper.py\<close> puts models into.
\<close>

section \<open>The decoder\<close>

datatype decode_helper =
    TrainingHelper tensor tensor bool
  | SampleEmbeddingHelper int int real "int option"
  | GreedyEmbeddingHelper int int

datatype seq_decoder =
    BasicDecoder "attention cell" decode_helper "leaf nest" bool
  | BeamSearchDecoder "attention cell" int int "leaf nest" int real real

datatype logits_kind = NoLogits | Projected pystr | StepOutputs
datatype sample_kind = SampleIds | PredictedIds

record decoder_graph =
  dg_decoder :: seq_decoder
  dg_maximum_iterations :: "int option"
  dg_time_major :: bool
  dg_logits :: logits_kind
  dg_cell_outputs :: bool
  dg_sample :: sample_kind

text \<open>The lengths are those of the sentences of the batch that is decoded.\<close>

definition get_infer_maximum_iterations :: "net_hparams \<Rightarrow> int list \<Rightarrow> int" where
  "get_infer_maximum_iterations h lengths =
     (case hn_tgt_max_len_infer h of
        Some n \<Rightarrow> if n \<noteq> 0 then n else round (real_of_int (foldr max lengths 0) * 2)
      | None \<Rightarrow> round (real_of_int (foldr max lengths 0) * 2))"

definition training_decoder :: "'f net \<Rightarrow> attention cell \<Rightarrow> leaf nest \<Rightarrow> decoder_graph" where
  "training_decoder T cell decoder_initial_state =
     (let ids = (if nt_time_major T then transpose_matrix target_input else target_input);
          decoder_emb_inp = EmbeddingLookup Decoder ids;
          helper = TrainingHelper decoder_emb_inp target_sequence_length (nt_time_major T);
          num_layers = nt_num_decoder_layers T;
          num_gpus = nt_num_gpus T;
          device_id = (if num_layers < num_gpus then num_layers else num_layers - 1)
      in \<lparr>dg_decoder = BasicDecoder cell helper decoder_initial_state False,
          dg_maximum_iterations = None, dg_time_major = nt_time_major T,
          dg_logits = (if nt_num_sampled_softmax T > 0 then NoLogits
                       else Projected (get_device_str device_id num_gpus)),
          dg_cell_outputs = (nt_num_sampled_softmax T > 0), dg_sample = SampleIds\<rparr>)"

definition inference_decoder ::
    "'f net \<Rightarrow> net_hparams \<Rightarrow> (pystr \<Rightarrow> int) \<Rightarrow> int list \<Rightarrow> attention cell \<Rightarrow> leaf nest \<Rightarrow> decoder_graph res" where
  "inference_decoder T h tgt_vocab_table lengths cell decoder_initial_state =
     (let start_token = to_int32 (tgt_vocab_table (hn_sos h));
          end_token = to_int32 (tgt_vocab_table (hn_eos h));
          infer_mode = hn_infer_mode h
      in bindE (if infer_mode = u ''beam_search''
                then Inr (BeamSearchDecoder cell start_token end_token decoder_initial_state (hn_beam_width h)
                            (hn_length_penalty_weight h) (hn_coverage_penalty_weight h))
                else if infer_mode = u ''sample''
                then bindE (assertE (hn_sampling_temperature h > 0)) (\<lambda>_.
                     Inr (BasicDecoder cell
                            (SampleEmbeddingHelper start_token end_token (hn_sampling_temperature h) (nt_random_seed T))
                            decoder_initial_state True))
                else if infer_mode = u ''greedy''
                then Inr (BasicDecoder cell (GreedyEmbeddingHelper start_token end_token) decoder_initial_state True)
                else Inl ValueError) (\<lambda>my_decoder.
         Inr \<lparr>dg_decoder = my_decoder,
              dg_maximum_iterations = Some (get_infer_maximum_iterations h lengths),
              dg_time_major = nt_time_major T,
              dg_logits = (if infer_mode = u ''beam_search'' then NoLogits else StepOutputs),
              dg_cell_outputs = False,
              dg_sample = (if infer_mode = u ''beam_search'' then PredictedIds else SampleIds)\<rparr>))"

definition build_decoder ::
    "model_class \<Rightarrow> unit_states \<Rightarrow> 'f net \<Rightarrow> net_hparams \<Rightarrow> (pystr \<Rightarrow> int) \<Rightarrow> int list
     \<Rightarrow> (tensor \<times> leaf nest) option \<Rightarrow> decoder_graph res" where
  "build_decoder cls B T h tgt_vocab_table lengths encoded =
     bindE (decoder_cell_of cls B T h encoded source_sequence_length) (\<lambda>(cell, decoder_initial_state).
     if nt_mode T \<noteq> INFER then Inr (training_decoder T cell decoder_initial_state)
     else inference_decoder T h tgt_vocab_table lengths cell decoder_initial_state)"

section \<open>The graph\<close>

record graph =
  gr_encoded :: "encoded option"
  gr_decoder :: decoder_graph
  gr_loss_device :: "pystr option"

text \<open>
  \<open>None\<close> is a graph for extracting encoder layers, which has no decoder; the loss is the
  constant 0 in inference.
\<close>

definition build_graph ::
    "model_class \<Rightarrow> unit_states \<Rightarrow> 'f net \<Rightarrow> net_hparams \<Rightarrow> (pystr \<Rightarrow> int) \<Rightarrow> int list \<Rightarrow> graph option res" where
  "build_graph cls B T h tgt_vocab_table lengths =
     bindE (if hn_language_model h then Inr None
            else bindE (encoder_of cls B T h) (\<lambda>en. Inr (Some en))) (\<lambda>encoded.
     if hn_extract_encoder_layers h then Inr None
     else bindE (build_decoder cls B T h tgt_vocab_table lengths
                   (map_option (\<lambda>en. (en_outputs en, en_state en)) encoded)) (\<lambda>decoder.
          Inr (Some \<lparr>gr_encoded = encoded, gr_decoder = decoder,
                     gr_loss_device =
                       (if nt_mode T \<noteq> INFER
                        then Some (get_device_str (nt_num_encoder_layers T - 1) (nt_num_gpus T)) else None)\<rparr>)))"

section \<open>The training step\<close>

datatype optimizer = GradientDescentOptimizer real | AdamOptimizer real

record 'g train_update =
  tu_optimizer :: optimizer
  tu_gradients :: "'g list"
  tu_grad_norm :: real
  tu_summary :: "(pystr \<times> real) list"

definition word_count :: "batch \<Rightarrow> int" where
  "word_count iterator = sum_list (ba_source_length iterator) + sum_list (ba_target_length iterator)"

definition predict_count_of :: "mode \<Rightarrow> batch \<Rightarrow> int option" where
  "predict_count_of mode iterator = (if mode \<noteq> INFER then Some (sum_list (ba_target_length iterator)) else None)"

definition make_optimizer :: "pystr \<Rightarrow> real \<Rightarrow> optimizer res" where
  "make_optimizer name rate =
     (if name = u ''sgd'' then Inr (GradientDescentOptimizer rate)
      else if name = u ''adam'' then Inr (AdamOptimizer rate)
      else Inl ValueError)"

definition get_train_summary :: "real \<Rightarrow> real \<Rightarrow> (pystr \<times> real) list \<Rightarrow> (pystr \<times> real) list" where
  "get_train_summary rate train_loss grad_norm_summary =
     [(u ''lr'', rate), (u ''train_loss'', train_loss)] @ grad_norm_summary"

text \<open>
  What the update does at a global step, given the loss and its gradients there.
\<close>

definition train_update_at ::
    "float_ops \<Rightarrow> 'g clip_ops \<Rightarrow> net_hparams \<Rightarrow> lr_hparams \<Rightarrow> int \<Rightarrow> real \<Rightarrow> 'g list \<Rightarrow> 'g train_update res" where
  "train_update_at F C h lr global_step train_loss gradients =
     bindE (rate_at F lr global_step) (\<lambda>rate.
     bindE (make_optimizer (hn_optimizer h) rate) (\<lambda>opt.
     let (clipped_grads, grad_norm_summary, grad_norm) = gradient_clip C gradients (hn_max_gradient_norm h)
     in Inr \<lparr>tu_optimizer = opt, tu_gradients = clipped_grads, tu_grad_norm = grad_norm,
             tu_summary = get_train_summary rate train_loss grad_norm_summary\<rparr>))"

section \<open>The summary of inference\<close>

text \<open>Which part of the final state the attention images are read from, if there are any.\<close>

datatype infer_summary_kind = NoSummary | AlignmentsOf "nat option"

definition attention_infer_summary :: "'f net \<Rightarrow> net_hparams \<Rightarrow> infer_summary_kind" where
  "attention_infer_summary T h =
     (if \<not> nt_has_attention T \<or> hn_infer_mode h = u ''beam_search'' then NoSummary else AlignmentsOf None)"

definition get_infer_summary :: "model_class \<Rightarrow> 'f net \<Rightarrow> net_hparams \<Rightarrow> infer_summary_kind" where
  "get_infer_summary cls T h =
     (case cls of
        Model \<Rightarrow> NoSummary
      | AttentionModel \<Rightarrow> attention_infer_summary T h
      | GNMTModel \<Rightarrow>
          if hn_infer_mode h = u ''beam_search'' then NoSummary
          else if nt_is_gnmt_attention T then AlignmentsOf (Some 0)
          else attention_infer_summary T h)"

text \<open>
  The images from the alignment history, whose axes are target position, sentence and source
  position: an image per sentence, scaled to bytes.
\<close>

definition create_attention_images :: "real list list list \<Rightarrow> real list list list" where
  "create_attention_images history =
     (let (t, b, s) = cube_shape history
      in map (\<lambda>j. map (\<lambda>k. map (\<lambda>i. history ! i ! j ! k * 255) [0..<t]) [0..<s]) [0..<b])"


section \<open>A model\<close>

text \<open>
  What \<open>_set_train_or_infer\<close> raises does not depend on the step: the update is built once, for
  every step. The result is the summary of inference.
\<close>

definition set_train_or_infer ::
    "float_ops \<Rightarrow> model_class \<Rightarrow> 'f net \<Rightarrow> net_hparams \<Rightarrow> lr_hparams \<Rightarrow> infer_summary_kind option res" where
  "set_train_or_infer F cls T h lr =
     (case nt_mode T of
        TRAIN \<Rightarrow> bindE (rate_at F lr 0) (\<lambda>rate.
                 bindE (make_optimizer (hn_optimizer h) rate) (\<lambda>_. Inr None))
      | EVAL \<Rightarrow> Inr None
      | INFER \<Rightarrow> Inr (Some (get_infer_summary cls T h)))"

record 'f built_model =
  bm_net :: "'f net"
  bm_graph :: "graph option"
  bm_infer_summary :: "infer_summary_kind option"
  bm_max_to_keep :: int

text \<open>The constructor of the classes, with the table of target words and the lengths of a batch.\<close>

definition new_model ::
    "('w, 'f) emb_env \<Rightarrow> float_ops \<Rightarrow> unit_states \<Rightarrow> model_class \<Rightarrow> net_hparams \<Rightarrow> lr_hparams \<Rightarrow> mode
     \<Rightarrow> pystr option \<Rightarrow> extra_args option \<Rightarrow> (pystr \<Rightarrow> int) \<Rightarrow> int list \<Rightarrow> 'f built_model res" where
  "new_model E F B cls h lr mode scope extra_args tgt_vocab_table lengths =
     bindE (set_params_initializer E h mode scope extra_args) (\<lambda>T.
     let T = model_init cls h extra_args T
     in bindE (build_graph cls B T h tgt_vocab_table lengths) (\<lambda>g.
        bindE (if \<not> hn_extract_encoder_layers h then set_train_or_infer F cls T h lr else Inr None) (\<lambda>summary.
        Inr \<lparr>bm_net = T, bm_graph = g, bm_infer_summary = summary, bm_max_to_keep = hn_num_keep_ckpts h\<rparr>)))"

section \<open>What a graph reads\<close>

fun decoder_cell_in :: "seq_decoder \<Rightarrow> attention cell" where
  "decoder_cell_in (BasicDecoder c helper st out) = c"
| "decoder_cell_in (BeamSearchDecoder c start stop st width lp cp) = c"

text \<open>Does the attention wrapper of the decoder keep the history of its alignments?\<close>

fun records_alignments :: "attention cell \<Rightarrow> bool" where
  "records_alignments (DeviceWrapper c d) = records_alignments c"
| "records_alignments (AttentionWrapper c m n history a) = history"
| "records_alignments (GNMTAttentionMultiCell c cs b) = records_alignments c"
| "records_alignments _ = False"

fun is_gnmt_cell :: "attention cell \<Rightarrow> bool" where
  "is_gnmt_cell (GNMTAttentionMultiCell c cs b) = True"
| "is_gnmt_cell _ = False"

lemma attention_decoder_records:
  "attention_decoder_cell B T h out es len = Inr (cell, st) \<Longrightarrow> nt_has_attention T \<Longrightarrow>
     records_alignments cell = (nt_mode T = INFER \<and> hn_infer_mode h \<noteq> u ''beam_search'') \<and> \<not> is_gnmt_cell cell"
  by (auto simp: attention_decoder_cell_def bindE_Inr_iff Let_def split: if_splits prod.splits)

lemma gnmt_decoder_records:
  "gnmt_decoder_cell B T h out es len = Inr (cell, st) \<Longrightarrow> nt_is_gnmt_attention T \<Longrightarrow>
     records_alignments cell = (nt_mode T = INFER \<and> hn_infer_mode h \<noteq> u ''beam_search'') \<and> is_gnmt_cell cell"
  by (auto simp: gnmt_decoder_cell_def bindE_Inr_iff Let_def split: if_splits prod.splits list.splits)

lemma inference_decoder_cell:
  "inference_decoder T h tbl ls cell st = Inr d \<Longrightarrow> decoder_cell_in (dg_decoder d) = cell"
  by (auto simp: inference_decoder_def bindE_Inr_iff Let_def split: if_splits)

lemma build_decoder_cell_in:
  assumes "build_decoder cls B T h tbl ls enc = Inr d"
  shows "\<exists>st. decoder_cell_of cls B T h enc source_sequence_length = Inr (decoder_cell_in (dg_decoder d), st)"
  using assms inference_decoder_cell[of T h tbl ls _ _ d]
  by (fastforce simp: build_decoder_def bindE_Inr_iff training_decoder_def Let_def split: if_splits)

text \<open>
  C37. In inference, whenever the images of the attention are to be drawn, the decoder's cell is
  one whose state has them: the attention wrapper keeps the history of its alignments, and the
  wrapper's state is where it is looked for, the first component of the state of a GNMT cell and
  the state itself otherwise. A graph in another mode, or for beam search, keeps no history.
\<close>

theorem summary_reads_recorded_alignments:
  assumes "build_decoder cls B T h tgt_vocab_table lengths (Some encoded) = Inr d"
    and "get_infer_summary cls T h = AlignmentsOf path" and "nt_mode T = INFER"
  shows "records_alignments (decoder_cell_in (dg_decoder d))
    \<and> (path = Some 0 \<longleftrightarrow> is_gnmt_cell (decoder_cell_in (dg_decoder d)))
    \<and> (path = None \<longleftrightarrow> \<not> is_gnmt_cell (decoder_cell_in (dg_decoder d)))
    \<and> \<not> is_beam_search T h"
proof -
  obtain out es where enc: "encoded = (out, es)" by fastforce
  obtain st where cell: "decoder_cell_of cls B T h (Some encoded) source_sequence_length
      = Inr (decoder_cell_in (dg_decoder d), st)"
    using build_decoder_cell_in[OF assms(1)] by blast
  have nobeam: "\<not> is_beam_search T h"
    using assms(2) by (auto simp: is_beam_search_def get_infer_summary_def attention_infer_summary_def
      split: model_class.splits if_splits)
  show ?thesis
  proof (cases "cls = GNMTModel \<and> nt_is_gnmt_attention T")
    case True
    with cell enc have "gnmt_decoder_cell B T h out es source_sequence_length = Inr (decoder_cell_in (dg_decoder d), st)"
      by (simp add: decoder_cell_of_def)
    from gnmt_decoder_records[OF this] True assms(2,3) nobeam show ?thesis
      by (auto simp: get_infer_summary_def is_beam_search_def split: if_splits)
  next
    case False
    with assms(2) have att: "attention_infer_summary T h = AlignmentsOf path" "cls \<noteq> Model"
      by (auto simp: get_infer_summary_def split: model_class.splits if_splits)
    then have has: "nt_has_attention T" "path = None" by (auto simp: attention_infer_summary_def split: if_splits)
    from False cell enc att(2) have "attention_decoder_cell B T h out es source_sequence_length
        = Inr (decoder_cell_in (dg_decoder d), st)"
      by (cases cls) (auto simp: decoder_cell_of_def gnmt_decoder_cell_def)
    from attention_decoder_records[OF this has(1)] has(2) assms(3) nobeam show ?thesis
      by (auto simp: is_beam_search_def)
  qed
qed


definition sample_greedy :: net_hparams where
  "sample_greedy = sample_hp\<lparr>hn_infer_mode := u ''greedy''\<rparr>"

definition sample_ids :: "pystr \<Rightarrow> int" where
  "sample_ids w = (if w = u ''<s>'' then 1 else 2)"

lemma sample_greedy_supported: "supported GNMTModel sample_net sample_greedy 4"
  using sample_supported by (simp add: supported_def plain_units_def supported_attention_def is_gnmt_architecture_def
      sample_greedy_def)

theorem summary_reads_recorded_alignments_witness:
  "\<exists>en d. build_decoder GNMTModel sample_states (model_init GNMTModel sample_greedy None sample_net) sample_greedy
        sample_ids [3, 5] (Some en) = Inr d
    \<and> get_infer_summary GNMTModel (model_init GNMTModel sample_greedy None sample_net) sample_greedy = AlignmentsOf (Some 0)
    \<and> records_alignments (decoder_cell_in (dg_decoder d)) \<and> is_gnmt_cell (decoder_cell_in (dg_decoder d))"
proof -
  let ?T = "model_init GNMTModel sample_greedy None sample_net"
  have "\<exists>e. nt_encoder_emb_lookup_fn sample_net x = Inr e" for x by (simp add: sample_lookup)
  from decoder_cell_of_fits[OF sample_greedy_supported this, of sample_states]
  obtain en :: encoded and cell st where cell: "decoder_cell_of GNMTModel sample_states ?T sample_greedy
      (Some (en_outputs en, en_state en)) source_sequence_length = Inr (cell, st)"
    by blast
  have mode: "nt_mode ?T = INFER" by (simp add: sample_net_def)
  have "\<exists>d. inference_decoder ?T sample_greedy sample_ids [3, 5] cell st = Inr d"
    by (simp add: inference_decoder_def sample_greedy_def u_def)
  then obtain d where d: "build_decoder GNMTModel sample_states ?T sample_greedy sample_ids [3, 5]
      (Some (en_outputs en, en_state en)) = Inr d"
    using cell mode by (auto simp: build_decoder_def)
  have s: "get_infer_summary GNMTModel ?T sample_greedy = AlignmentsOf (Some 0)"
    by (simp add: get_infer_summary_def model_init_def gnmt_init_def attention_init_def sample_greedy_def sample_hp_def u_def)
  from summary_reads_recorded_alignments[OF d s mode] d s show ?thesis by auto
qed

section \<open>Settings that build\<close>

fun initial_state_in :: "seq_decoder \<Rightarrow> leaf nest" where
  "initial_state_in (BasicDecoder c helper st out) = st"
| "initial_state_in (BeamSearchDecoder c start stop st width lp cp) = st"

text \<open>A helper that is fed with embedded words has them in the layout it is told.\<close>

fun helper_layout :: "seq_decoder \<Rightarrow> bool \<Rightarrow> bool" where
  "helper_layout (BasicDecoder c (TrainingHelper emb len time_major) st out) output_time_major \<longleftrightarrow>
     axes emb = Some (layout_of time_major) \<and> time_major = output_time_major"
| "helper_layout _ output_time_major \<longleftrightarrow> True"

text \<open>
  The decoder that belongs to a mode: outside inference one that is fed with the embedded target
  input, and in inference the one of the inference mode, between the symbols of the vocabulary.
\<close>

fun decodes_in :: "mode \<Rightarrow> net_hparams \<Rightarrow> (pystr \<Rightarrow> int) \<Rightarrow> seq_decoder \<Rightarrow> bool" where
  "decodes_in mode h table (BasicDecoder c (TrainingHelper emb len time_major) st out) \<longleftrightarrow>
     mode \<noteq> INFER \<and> len = target_sequence_length \<and> time_major = hn_time_major h
     \<and> emb = EmbeddingLookup Decoder (if hn_time_major h then Transpose target_input [1, 0] else target_input)"
| "decodes_in mode h table (BasicDecoder c (SampleEmbeddingHelper start stop temperature seed) st out) \<longleftrightarrow>
     mode = INFER \<and> hn_infer_mode h = u ''sample'' \<and> temperature = hn_sampling_temperature h
     \<and> start = to_int32 (table (hn_sos h)) \<and> stop = to_int32 (table (hn_eos h))"
| "decodes_in mode h table (BasicDecoder c (GreedyEmbeddingHelper start stop) st out) \<longleftrightarrow>
     mode = INFER \<and> hn_infer_mode h = u ''greedy''
     \<and> start = to_int32 (table (hn_sos h)) \<and> stop = to_int32 (table (hn_eos h))"
| "decodes_in mode h table (BeamSearchDecoder c start stop st width length_penalty coverage_penalty) \<longleftrightarrow>
     mode = INFER \<and> hn_infer_mode h = u ''beam_search'' \<and> width = hn_beam_width h
     \<and> start = to_int32 (table (hn_sos h)) \<and> stop = to_int32 (table (hn_eos h))"

lemma inference_decoder_state:
  "inference_decoder T h tbl ls cell st = Inr d \<Longrightarrow> initial_state_in (dg_decoder d) = st"
  by (auto simp: inference_decoder_def bindE_Inr_iff Let_def split: if_splits)

lemma training_decoder_layout:
  "helper_layout (dg_decoder (training_decoder T cell st)) (dg_time_major (training_decoder T cell st))"
  by (simp add: training_decoder_def target_input_def transpose_matrix_def layout_of_def Let_def)

lemma inference_decoder_layout:
  "inference_decoder T h tbl ls cell st = Inr d \<Longrightarrow> helper_layout (dg_decoder d) (dg_time_major d)"
  by (auto simp: inference_decoder_def bindE_Inr_iff Let_def split: if_splits)

lemma training_decoder_decodes:
  "mode \<noteq> INFER \<Longrightarrow> nt_time_major T = hn_time_major h \<Longrightarrow> decodes_in mode h tbl (dg_decoder (training_decoder T cell st))"
  by (simp add: training_decoder_def transpose_matrix_def Let_def)

lemma inference_decoder_decodes:
  "inference_decoder T h tbl ls cell st = Inr d \<Longrightarrow>
     decodes_in INFER h tbl (dg_decoder d) \<and> dg_maximum_iterations d = Some (get_infer_maximum_iterations h ls)"
  by (auto simp: inference_decoder_def bindE_Inr_iff Let_def split: if_splits)

definition known_infer_mode :: "net_hparams \<Rightarrow> bool" where
  "known_infer_mode h \<longleftrightarrow> hn_infer_mode h = u ''beam_search'' \<or> hn_infer_mode h = u ''greedy''
     \<or> hn_infer_mode h = u ''sample'' \<and> 0 < hn_sampling_temperature h"

lemma inference_decoder_total: "known_infer_mode h \<Longrightarrow> \<exists>d. inference_decoder T h tbl ls cell st = Inr d"
  by (auto simp: known_infer_mode_def inference_decoder_def Let_def)

lemma set_params_net:
  assumes "set_params_initializer E h mode scope None = Inr T"
  shows "nt_mode T = mode" "nt_encoder_emb_lookup_fn T = embedding_lookup Encoder (nt_embedding_encoder T)"
    "nt_time_major T = hn_time_major h"
  using assms by (auto simp: set_params_initializer_def bindE_Inr_iff Let_def split: if_splits option.splits)

text \<open>
  C10. Settings that fit together always give a model. If the parameters of the base class can be
  set, the settings are supported with n layers, there is an encoder matrix, and the optimizer,
  schedule and inference mode are known, then the constructor succeeds in every mode, and the model
  has an encoder and a decoder whose initial state is a state of its cell. Outside inference the
  decoder is fed with the embedded target words in the layout it is told, and there is a loss; in
  inference it is the one the inference mode asks for, from the first symbol to the last symbol of
  the target vocabulary, with a bound on its steps and without a loss.
\<close>

theorem new_model_builds:
  assumes params: "set_params_initializer E h mode scope None = Inr T" and ok: "supported cls T h n"
    and matrix: "nt_embedding_encoder T \<noteq> None"
    and train: "mode = TRAIN \<longrightarrow> (\<exists>rate. rate_at F lr 0 = Inr rate) \<and> hn_optimizer h \<in> {u ''sgd'', u ''adam''}"
    and infer: "mode = INFER \<longrightarrow> known_infer_mode h"
  shows "\<exists>m g en. new_model E F B cls h lr mode scope None tgt_vocab_table lengths = Inr m
    \<and> bm_graph m = Some g \<and> gr_encoded g = Some en
    \<and> shape (initial_state_in (dg_decoder (gr_decoder g))) = state_size B (decoder_cell_in (dg_decoder (gr_decoder g)))
    \<and> helper_layout (dg_decoder (gr_decoder g)) (dg_time_major (gr_decoder g))
    \<and> decodes_in mode h tgt_vocab_table (dg_decoder (gr_decoder g))
    \<and> dg_maximum_iterations (gr_decoder g)
        = (if mode = INFER then Some (get_infer_maximum_iterations h lengths) else None)
    \<and> (gr_loss_device g = None \<longleftrightarrow> mode = INFER)"
proof -
  let ?T = "model_init cls h None T"
  have plain: "\<not> hn_language_model h" "\<not> hn_extract_encoder_layers h" using ok by (auto simp: supported_def)
  have mode: "nt_mode ?T = mode" using set_params_net(1)[OF params] by simp
  have "\<exists>e. nt_encoder_emb_lookup_fn T x = Inr e" for x
    using set_params_net(2)[OF params] matrix by (simp add: embedding_lookup_def)
  from decoder_cell_of_fits[OF ok this] obtain en cell st where
      en: "encoder_of cls B ?T h = Inr en"
      and cell: "decoder_cell_of cls B ?T h (Some (en_outputs en, en_state en)) source_sequence_length = Inr (cell, st)"
      and fits: "shape st = state_size B cell"
    by blast
  obtain d where d: "build_decoder cls B ?T h tgt_vocab_table lengths (Some (en_outputs en, en_state en)) = Inr d"
      and parts: "decoder_cell_in (dg_decoder d) = cell" "initial_state_in (dg_decoder d) = st"
        "helper_layout (dg_decoder d) (dg_time_major d)" "decodes_in mode h tgt_vocab_table (dg_decoder d)"
        "dg_maximum_iterations d = (if mode = INFER then Some (get_infer_maximum_iterations h lengths) else None)"
  proof (cases "mode = INFER")
    case True
    obtain d where "inference_decoder ?T h tgt_vocab_table lengths cell st = Inr d"
      using infer True inference_decoder_total by blast
    with True cell mode inference_decoder_cell[OF this] inference_decoder_state[OF this] inference_decoder_layout[OF this]
      inference_decoder_decodes[OF this]
    show ?thesis by (intro that[of d]) (simp_all add: build_decoder_def)
  next
    case False
    have "nt_time_major ?T = hn_time_major h" using set_params_net(3)[OF params] by simp
    with False cell mode show ?thesis
      by (intro that[of "training_decoder ?T cell st"] training_decoder_layout training_decoder_decodes)
        (simp_all add: build_decoder_def training_decoder_def Let_def)
  qed
  let ?g = "\<lparr>gr_encoded = Some en, gr_decoder = d, gr_loss_device =
      (if mode \<noteq> INFER then Some (get_device_str (nt_num_encoder_layers T - 1) (nt_num_gpus ?T)) else None)\<rparr>"
  have g: "build_graph cls B ?T h tgt_vocab_table lengths = Inr (Some ?g)"
    using mode by (simp add: build_graph_def plain en d)
  obtain s where s: "set_train_or_infer F cls ?T h lr = Inr s"
    using train mode by (cases mode) (auto simp: set_train_or_infer_def make_optimizer_def)
  have "new_model E F B cls h lr mode scope None tgt_vocab_table lengths
      = Inr \<lparr>bm_net = ?T, bm_graph = Some ?g, bm_infer_summary = s, bm_max_to_keep = hn_num_keep_ckpts h\<rparr>"
    by (simp add: new_model_def params plain g s Let_def)
  with parts fits show ?thesis by simp
qed


definition sample_variable :: "pystr \<Rightarrow> pystr \<Rightarrow> int \<Rightarrow> int embedding" where
  "sample_variable part name rows = NewVariable
     \<lparr>ev_scopes = [u ''embeddings'', part], ev_name = name, ev_rows = rows, ev_cols = 32,
      ev_device = u ''/gpu:0'', ev_partitions = [None, None]\<rparr>"

lemma sample_init_embeddings:
  "init_embeddings sample_embed_env sample_greedy None
    = Inr (Some (sample_variable (u ''encoder'') (u ''embedding_encoder'') 5),
           sample_variable (u ''decoder'') (u ''embedding_decoder'') 6)"
  by (simp add: init_embeddings_def create_emb_for_encoder_and_decoder_def sample_greedy_def sample_hp_def
      truthy_def fixed_size_partitioner_def create_or_load_embed_def sample_variable_def
      get_embed_device_def VOCAB_SIZE_THRESHOLD_CPU_def Let_def)

lemma sample_params:
  "\<exists>T. set_params_initializer sample_embed_env sample_greedy mode None None = Inr T
    \<and> supported GNMTModel T sample_greedy 4 \<and> nt_embedding_encoder T \<noteq> None"
proof -
  let ?h = sample_greedy
  have h: "hn_use_char_encode ?h = False" "hn_num_encoder_layers ?h = 4" "hn_num_decoder_layers ?h = 4"
      "hn_num_residual_layers ?h = None" "hn_init_op ?h = u ''uniform''" "hn_init_weight ?h = Some (1 / 10)"
    by (simp_all add: sample_greedy_def sample_hp_def)
  obtain i where i: "get_initializer (u ''uniform'') (hn_random_seed ?h) (Some (1 / 10)) = Inr i"
    by (simp add: get_initializer_def)
  have run: "\<exists>T. set_params_initializer sample_embed_env ?h mode None None = Inr T \<and> nt_single_cell_fn T = None
      \<and> nt_num_units T = hn_num_units ?h \<and> nt_num_encoder_layers T = 4 \<and> nt_num_decoder_layers T = 4
      \<and> nt_embedding_encoder T \<noteq> None"
    by (simp add: set_params_initializer_def i sample_init_embeddings h)
  have known: "known_unit (hn_unit_type ?h)" "hn_pass_hidden_state ?h" "\<not> hn_language_model ?h"
      "\<not> hn_extract_encoder_layers ?h" "hn_encoder_type ?h = u ''gnmt''" "supported_attention GNMTModel ?h 4"
    using sample_greedy_supported by (auto simp: supported_def plain_units_def sample_greedy_def sample_hp_def)
  show ?thesis using run known by (auto simp: supported_def plain_units_def)
qed

theorem new_model_builds_witness:
  "\<forall>mode. \<exists>m g en. new_model sample_embed_env real_ops sample_states GNMTModel sample_greedy sample_lr mode None None sample_ids []
      = Inr m
    \<and> bm_graph m = Some g \<and> gr_encoded g = Some en
    \<and> shape (initial_state_in (dg_decoder (gr_decoder g)))
        = state_size sample_states (decoder_cell_in (dg_decoder (gr_decoder g)))
    \<and> helper_layout (dg_decoder (gr_decoder g)) (dg_time_major (gr_decoder g))
    \<and> decodes_in mode sample_greedy sample_ids (dg_decoder (gr_decoder g))
    \<and> dg_maximum_iterations (gr_decoder g)
        = (if mode = INFER then Some (get_infer_maximum_iterations sample_greedy []) else None)
    \<and> (gr_loss_device g = None \<longleftrightarrow> mode = INFER)"
proof
  fix mode
  from sample_params obtain T where T: "set_params_initializer sample_embed_env sample_greedy mode None None = Inr T"
      "supported GNMTModel T sample_greedy 4" "nt_embedding_encoder T \<noteq> None" by blast
  have "\<exists>rate. rate_at real_ops sample_lr 0 = Inr rate"
    by (simp add: rate_at_def get_learning_rate_warmup_def get_learning_rate_decay_def get_decay_info_def sample_lr_def)
  moreover have "hn_optimizer sample_greedy = u ''sgd''" "known_infer_mode sample_greedy"
    by (simp_all add: known_infer_mode_def sample_greedy_def sample_hp_def)
  ultimately show "\<exists>m g en. new_model sample_embed_env real_ops sample_states GNMTModel sample_greedy sample_lr mode None None
        sample_ids [] = Inr m
      \<and> bm_graph m = Some g \<and> gr_encoded g = Some en
      \<and> shape (initial_state_in (dg_decoder (gr_decoder g)))
          = state_size sample_states (decoder_cell_in (dg_decoder (gr_decoder g)))
      \<and> helper_layout (dg_decoder (gr_decoder g)) (dg_time_major (gr_decoder g))
      \<and> decodes_in mode sample_greedy sample_ids (dg_decoder (gr_decoder g))
      \<and> dg_maximum_iterations (gr_decoder g)
          = (if mode = INFER then Some (get_infer_maximum_iterations sample_greedy []) else None)
      \<and> (gr_loss_device g = None \<longleftrightarrow> mode = INFER)"
    by (intro new_model_builds[OF T]) auto
qed

end
