(* ===== verification/MultiCell.thy ===== *)
theory MultiCell
  imports Prelude
begin

text \<open>
  One step of the decoder cell of GNMT, \<open>GNMTAttentionMultiCell.__call__\<close> and
  \<open>gnmt_residual_fn\<close> in \<open>nmt/gnmt_model.py\<close>, on the vectors of one sentence. The cells are
  functions from an input and a state to an output and a new state; the part of the state of the
  attention wrapper that holds its attention vector is the parameter \<open>attention\<close>.
\<close>

section \<open>The step\<close>

type_synonym ('x, 's) cell_fn = "'x list \<Rightarrow> 's \<Rightarrow> ('x list \<times> 's) res"

datatype 's cell_state = StateTuple "'s list" | SingleState 's

text \<open>
  The cells above the first get the output below and an attention vector, the one of the state
  before the step or, with the new attention, the one of the state after it.
\<close>

definition layer_step ::
    "('x, 's) cell_fn list \<Rightarrow> 's list \<Rightarrow> 'x list \<Rightarrow> 'x list \<times> 's list \<Rightarrow> nat \<Rightarrow> ('x list \<times> 's list) res" where
  "layer_step cells state attention_vector = (\<lambda>(cur_inp, new_states) i.
     bindE (list_get cells (int i)) (\<lambda>cell.
     bindE (list_get state (int i)) (\<lambda>cur_state.
     let cur_inp = cur_inp @ attention_vector
     in bindE (cell cur_inp cur_state) (\<lambda>(cur_inp, new_state).
        Inr (cur_inp, new_states @ [new_state])))))"

definition gnmt_call ::
    "('s \<Rightarrow> 'x list) \<Rightarrow> ('x, 's) cell_fn list \<Rightarrow> bool \<Rightarrow> 'x list \<Rightarrow> 's cell_state \<Rightarrow> ('x list \<times> 's list) res" where
  "gnmt_call attention cells use_new_attention inputs state =
     (case state of
        SingleState _ \<Rightarrow> Inl ValueError
      | StateTuple state \<Rightarrow>
          bindE (list_get cells 0) (\<lambda>attention_cell.
          bindE (list_get state 0) (\<lambda>attention_state.
          bindE (attention_cell inputs attention_state) (\<lambda>(cur_inp, new_attention_state).
          foldE (layer_step cells state
                   (if use_new_attention then attention new_attention_state else attention attention_state))
            (cur_inp, [new_attention_state]) [1..<length cells]))))"

text \<open>
  The residual of a layer whose input has the attention behind the actual input. Splitting
  needs at least as many inputs as outputs.
\<close>

definition gnmt_residual_fn :: "real list \<Rightarrow> real list \<Rightarrow> real list res" where
  "gnmt_residual_fn inputs outputs =
     (let out_dim = length outputs;
          inp_dim = length inputs
      in bindE (raise_if (inp_dim < out_dim) ValueError) (\<lambda>_.
         let actual_inputs = take out_dim inputs
         in bindE (raise_if (length actual_inputs \<noteq> length outputs) ValueError) (\<lambda>_.
            Inr (map2 (+) actual_inputs outputs))))"

text \<open>A layer under TensorFlow's \<open>ResidualWrapper\<close> with this function, or without.\<close>

definition residual_layer :: "bool \<Rightarrow> (real, 's) cell_fn \<Rightarrow> (real, 's) cell_fn" where
  "residual_layer residual cell = (\<lambda>inputs state.
     if residual
     then bindE (cell inputs state) (\<lambda>(outputs, new_state).
          bindE (gnmt_residual_fn inputs outputs) (\<lambda>res_outputs. Inr (res_outputs, new_state)))
     else cell inputs state)"

section \<open>The layers one by one\<close>

text \<open>
  What the step computes above the attention cell: every layer reads the output below with the
  same attention vector behind it, and a residual layer adds the output below, without it.
\<close>

fun layers ::
    "real list \<Rightarrow> (bool \<times> (real list \<Rightarrow> 's \<Rightarrow> real list \<times> 's)) list \<Rightarrow> 's list \<Rightarrow> real list \<Rightarrow> real list \<times> 's list" where
  "layers att ((residual, f) # cs) (s # ss) x =
     (let (y, s') = f (x @ att) s;
          (z, ss') = layers att cs ss (if residual then map2 (+) x y else y)
      in (z, s' # ss'))"
| "layers att cs ss x = (x, [])"

definition total_cell :: "('x list \<Rightarrow> 's \<Rightarrow> 'x list \<times> 's) \<Rightarrow> ('x, 's) cell_fn" where
  "total_cell f = (\<lambda>x s. Inr (f x s))"

lemma gnmt_residual_fn_prefix:
  "length x = length y \<Longrightarrow> gnmt_residual_fn (x @ att) y = Inr (map2 (+) x y)"
  by (simp add: gnmt_residual_fn_def)

lemma list_get_nth: "i < length xs \<Longrightarrow> list_get xs (int i) = Inr (xs ! i)"
  by (simp add: list_get_def)

lemma foldE_shift: "foldE f s [Suc i..<Suc n] = foldE (\<lambda>s j. f s (Suc j)) s [i..<n]"
proof -
  have "foldE f s (map Suc xs) = foldE (\<lambda>s j. f s (Suc j)) s xs" for xs
    by (induction xs arbitrary: s) (auto simp: bindE_def split: sum.splits)
  from this[of "[i..<n]"] show ?thesis by (simp add: map_Suc_upt)
qed

lemma list_get_Cons: "list_get (x # xs) (int (Suc i)) = list_get xs (int i)"
  by (simp add: list_get_def del: of_nat_Suc)

lemma layer_step_Cons:
  "layer_step (c # cells) (s # state) att acc (Suc i) = layer_step cells state att acc i"
  by (cases acc) (simp add: layer_step_def list_get_Cons del: of_nat_Suc)

lemma fold_layers:
  assumes "length cs \<le> length ss" "length x = w"
    and "\<And>r f x s. (r, f) \<in> set cs \<Longrightarrow> length (fst (f x s)) = w"
  shows "foldE (layer_step (map (\<lambda>(r, f). residual_layer r (total_cell f)) cs) ss att) (x, acc) [0..<length cs]
    = Inr (fst (layers att cs ss x), acc @ snd (layers att cs ss x))"
  using assms
proof (induction cs arbitrary: ss x acc)
  case (Cons c cs)
  obtain r f where c: "c = (r, f)" by fastforce
  obtain s ss' where ss: "ss = s # ss'" using Cons.prems(1) by (cases ss) auto
  obtain y s' where y: "f (x @ att) s = (y, s')" by fastforce
  have w: "length y = w" using Cons.prems(3)[of r f "x @ att" s] c y by simp
  let ?z = "if r then map2 (+) x y else y"
  let ?cells = "map (\<lambda>(r, f). residual_layer r (total_cell f)) (c # cs)"
  have first: "layer_step ?cells ss att (x, acc) 0 = Inr (?z, acc @ [s'])"
    using w Cons.prems(2)
    by (simp add: layer_step_def list_get_def c ss residual_layer_def total_cell_def y gnmt_residual_fn_prefix)
  have "[0..<length (c # cs)] = 0 # [Suc 0..<Suc (length cs)]" by (simp add: upt_conv_Cons del: upt_Suc)
  then have "foldE (layer_step ?cells ss att) (x, acc) [0..<length (c # cs)]
      = foldE (layer_step ?cells ss att) (?z, acc @ [s']) [Suc 0..<Suc (length cs)]"
    by (simp only: foldE.simps first bindE_simps)
  also have "\<dots> = foldE (layer_step (map (\<lambda>(r, f). residual_layer r (total_cell f)) cs) ss' att) (?z, acc @ [s']) [0..<length cs]"
    unfolding foldE_shift by (simp only: list.map ss layer_step_Cons)
  also have "\<dots> = Inr (fst (layers att cs ss' ?z), (acc @ [s']) @ snd (layers att cs ss' ?z))"
    by (rule Cons.IH) (use Cons.prems w ss in auto)
  finally show ?case by (simp add: c ss y split: prod.splits)
qed simp

lemma fold_layers_missing:
  assumes "length ss < length cs" "length x = w"
    and "\<And>r f x s. (r, f) \<in> set cs \<Longrightarrow> length (fst (f x s)) = w"
  shows "foldE (layer_step (map (\<lambda>(r, f). residual_layer r (total_cell f)) cs) ss att) (x, acc) [0..<length cs]
    = Inl IndexError"
  using assms
proof (induction cs arbitrary: ss x acc)
  case (Cons c cs)
  obtain r f where c: "c = (r, f)" by fastforce
  let ?cells = "map (\<lambda>(r, f). residual_layer r (total_cell f)) (c # cs)"
  have upt: "[0..<length (c # cs)] = 0 # [Suc 0..<Suc (length cs)]" by (simp add: upt_conv_Cons del: upt_Suc)
  show ?case
  proof (cases ss)
    case Nil
    then have "layer_step ?cells ss att (x, acc) 0 = Inl IndexError" by (simp add: layer_step_def list_get_def)
    then show ?thesis unfolding upt by (simp only: foldE.simps bindE_simps)
  next
    case (Cons s ss')
    obtain y s' where y: "f (x @ att) s = (y, s')" by fastforce
    have w: "length y = w" using Cons.prems(3)[of r f "x @ att" s] c y by simp
    let ?z = "if r then map2 (+) x y else y"
    have first: "layer_step ?cells ss att (x, acc) 0 = Inr (?z, acc @ [s'])"
      using w Cons.prems(2)
      by (simp add: layer_step_def list_get_def c Cons residual_layer_def total_cell_def y gnmt_residual_fn_prefix)
    have "foldE (layer_step ?cells ss att) (x, acc) [0..<length (c # cs)]
        = foldE (layer_step (map (\<lambda>(r, f). residual_layer r (total_cell f)) cs) ss' att) (?z, acc @ [s']) [0..<length cs]"
      unfolding upt foldE.simps first bindE_simps foldE_shift by (simp only: list.map Cons layer_step_Cons)
    also have "\<dots> = Inl IndexError" by (rule Cons.IH) (use Cons.prems w Cons in auto)
    finally show ?thesis .
  qed
qed simp

text \<open>
  C7. A step of the GNMT cell, for layers that keep a width and at least as many states as cells:
  it succeeds, runs the attention cell once, and then layer by layer, every layer reading the
  output below beside one and the same attention vector, that of the state before the step or,
  for \<open>gnmt_v2\<close>, of the state after it. A residual layer adds exactly the output of the layer
  below, never the attention. Every cell has one new state, in order. Too few states raise
  \<open>IndexError\<close>, a state that is no tuple \<open>ValueError\<close>.
\<close>

theorem gnmt_call_layers:
  assumes states: "length cs \<le> length ss" and few: "k \<le> length cs" and width: "length (fst (f0 inputs s)) = w"
    and keep: "\<And>r f x s. (r, f) \<in> set cs \<Longrightarrow> length (fst (f x s)) = w"
  shows "gnmt_call attention (total_cell f0 # map (\<lambda>(r, f). residual_layer r (total_cell f)) cs) use_new inputs (StateTuple (s # ss))
      = (let (x, s') = f0 inputs s;
             (y, ss') = layers (attention (if use_new then s' else s)) cs ss x
         in Inr (y, s' # ss'))
    \<and> length (snd (layers att cs ss x)) = length cs
    \<and> gnmt_call attention (total_cell f0 # map (\<lambda>(r, f). residual_layer r (total_cell f)) cs) use_new inputs
        (StateTuple (take k (s # ss))) = Inl IndexError
    \<and> gnmt_call attention (total_cell f0 # map (\<lambda>(r, f). residual_layer r (total_cell f)) cs) use_new inputs (SingleState s)
      = Inl ValueError"
proof -
  obtain x s' where x: "f0 inputs s = (x, s')" by fastforce
  let ?cells = "map (\<lambda>(r, f). residual_layer r (total_cell f)) cs"
  let ?att = "attention (if use_new then s' else s)"
  have "foldE (layer_step (total_cell f0 # ?cells) (s # ss) ?att) (x, [s']) [1..<length (total_cell f0 # ?cells)]
      = foldE (layer_step ?cells ss ?att) (x, [s']) [0..<length cs]"
    by (simp add: foldE_shift layer_step_Cons del: upt_Suc)
  also have "\<dots> = Inr (fst (layers ?att cs ss x), [s'] @ snd (layers ?att cs ss x))"
    by (rule fold_layers) (use states width keep x in auto)
  finally have run: "gnmt_call attention (total_cell f0 # ?cells) use_new inputs (StateTuple (s # ss))
      = Inr (fst (layers ?att cs ss x), s' # snd (layers ?att cs ss x))"
    by (cases use_new) (simp_all add: gnmt_call_def list_get_def total_cell_def x del: upt_Suc)
  have missing: "gnmt_call attention (total_cell f0 # ?cells) use_new inputs (StateTuple (take k (s # ss))) = Inl IndexError"
  proof (cases k)
    case 0
    then show ?thesis by (simp add: gnmt_call_def list_get_def)
  next
    case (Suc k')
    have "foldE (layer_step (total_cell f0 # ?cells) (s # take k' ss) ?att) (x, [s']) [1..<length (total_cell f0 # ?cells)]
        = foldE (layer_step ?cells (take k' ss) ?att) (x, [s']) [0..<length cs]"
      by (simp add: foldE_shift layer_step_Cons del: upt_Suc)
    also have "\<dots> = Inl IndexError"
      by (rule fold_layers_missing) (use few Suc states width keep x in auto)
    finally show ?thesis
      by (cases use_new) (simp_all add: Suc gnmt_call_def list_get_def total_cell_def x del: upt_Suc)
  qed
  have "length (snd (layers att cs ss x)) = length cs" for x
    using states by (induction cs arbitrary: ss x) (auto simp: Suc_le_length_iff Let_def case_prod_unfold)
  with run x missing show ?thesis by (simp add: gnmt_call_def split: prod.splits)
qed

definition sum_cell :: "real list \<Rightarrow> real \<Rightarrow> real list \<times> real" where
  "sum_cell x s = ([sum_list x + s], s + 1)"

definition upper_cells :: "(bool \<times> (real list \<Rightarrow> real \<Rightarrow> real list \<times> real)) list" where
  "upper_cells = [(False, sum_cell), (True, sum_cell)]"

theorem gnmt_call_layers_witness:
  "gnmt_call (\<lambda>s. [s]) (total_cell sum_cell # map (\<lambda>(r, f). residual_layer r (total_cell f)) upper_cells) True [1, 2]
      (StateTuple (10 # [20, 30]))
      = (let (x, s') = sum_cell [1, 2] 10;
             (y, ss') = layers [if True then s' else 10] upper_cells [20, 30] x
         in Inr (y, s' # ss'))
    \<and> length (snd (layers [0] upper_cells [20, 30] [13])) = length upper_cells
    \<and> gnmt_call (\<lambda>s. [s]) (total_cell sum_cell # map (\<lambda>(r, f). residual_layer r (total_cell f)) upper_cells) True [1, 2]
        (StateTuple (take 2 (10 # [20, 30]))) = Inl IndexError
    \<and> gnmt_call (\<lambda>s. [s]) (total_cell sum_cell # map (\<lambda>(r, f). residual_layer r (total_cell f)) upper_cells) True [1, 2]
        (SingleState 10) = Inl ValueError"
proof (rule gnmt_call_layers[where w = 1])
  show "length (fst (f x s)) = 1" if "(r, f) \<in> set upper_cells" for r f x s
    using that by (auto simp: upper_cells_def sum_cell_def)
qed (simp_all add: upper_cells_def sum_cell_def)

end
