(* ===== verification/Models.thy ===== *)
theory Models
  imports Graphs
begin

text \<open>
  The graphs of the three modes, \<open>create_train_model\<close>, \<open>create_eval_model\<close> and
  \<open>create_infer_model\<close> in \<open>nmt/model_helper.py\<close>: the tables of the vocabularies, the input
  pipeline of the mode and the model on top of it. A placeholder that is fed when the pipeline
  is started (the pairs to skip, the names of the evaluation files, the lines to translate) is an
  argument of the batches. TensorFlow's files and tables are parameters.
\<close>

section \<open>Parameters\<close>

text \<open>
  \<open>ge_glob\<close> are the files that match a name, \<open>ge_lines\<close> a file as \<open>TextLineDataset\<close> reads it,
  \<open>ge_index_table\<close> and \<open>ge_string_table\<close> the lookup tables of a vocabulary file with the value
  for what it does not have.
\<close>

record 't graph_env =
  ge_glob :: "pystr \<Rightarrow> pystr list"
  ge_lines :: "pystr \<Rightarrow> bytes list res"
  ge_index_table :: "pystr \<Rightarrow> int \<Rightarrow> bytes \<Rightarrow> int"
  ge_string_table :: "pystr \<Rightarrow> pystr \<Rightarrow> int \<Rightarrow> bytes"
  ge_data :: "'t data_env"

text \<open>The hyper-parameters that only the pipelines read.\<close>

record pipeline_hparams =
  ph_train_prefix :: pystr
  ph_src :: pystr
  ph_tgt :: pystr
  ph_batch_size :: nat
  ph_num_buckets :: int
  ph_src_max_len :: "int option"
  ph_tgt_max_len :: "int option"
  ph_src_max_len_infer :: "int option"

text \<open>The lines of several files, one file after the other.\<close>

definition text_lines :: "'t graph_env \<Rightarrow> pystr list \<Rightarrow> bytes list res" where
  "text_lines G files = bindE (mapE (ge_lines G) files) (\<lambda>texts. Inr (concat texts))"

type_synonym 'm model_creator =
  "net_hparams \<Rightarrow> mode \<Rightarrow> (bytes \<Rightarrow> int) \<Rightarrow> (bytes \<Rightarrow> int) \<Rightarrow> (int \<Rightarrow> bytes) option
   \<Rightarrow> pystr option \<Rightarrow> extra_args option \<Rightarrow> 'm res"

definition iterator_settings ::
    "pipeline_hparams \<Rightarrow> net_hparams \<Rightarrow> int option \<Rightarrow> int option \<Rightarrow> iterator_args" where
  "iterator_settings d h src_max_len tgt_max_len =
     \<lparr>ia_batch_size = ph_batch_size d, ia_sos = utf8_encode (hn_sos h), ia_eos = utf8_encode (hn_eos h),
      ia_random_seed = hn_random_seed h, ia_num_buckets = ph_num_buckets d,
      ia_src_max_len = src_max_len, ia_tgt_max_len = tgt_max_len, ia_output_buffer_size = None,
      ia_skip_count = None, ia_num_shards = 1, ia_shard_index = 0, ia_reshuffle = True,
      ia_use_char_encode = hn_use_char_encode h\<rparr>"

section \<open>Training\<close>

record 'm train_model =
  tm_model :: 'm
  tm_device :: "(pystr \<Rightarrow> pystr) option"
  tm_batches :: "nat \<Rightarrow> batch list res"

definition train_batches ::
    "'t graph_env \<Rightarrow> pipeline_hparams \<Rightarrow> net_hparams \<Rightarrow> (bytes \<Rightarrow> int) \<Rightarrow> (bytes \<Rightarrow> int) \<Rightarrow> int \<Rightarrow> int
     \<Rightarrow> nat \<Rightarrow> batch list res" where
  "train_batches G d h src_vocab_table tgt_vocab_table num_workers jobid skip_count =
     (let src_file = ph_train_prefix d @ u ''.'' @ ph_src d;
          tgt_file = ph_train_prefix d @ u ''.'' @ ph_tgt d
      in bindE (text_lines G (ge_glob G src_file)) (\<lambda>src_dataset.
         bindE (text_lines G (ge_glob G tgt_file)) (\<lambda>tgt_dataset.
         get_iterator (ge_data G)
           ((iterator_settings d h (ph_src_max_len d) (ph_tgt_max_len d))
              \<lparr>ia_skip_count := Some skip_count, ia_num_shards := num_workers, ia_shard_index := jobid\<rparr>)
           src_vocab_table tgt_vocab_table src_dataset tgt_dataset)))"

definition create_train_model ::
    "'t graph_env \<Rightarrow> 'm model_creator \<Rightarrow> pipeline_hparams \<Rightarrow> net_hparams \<Rightarrow> pystr option \<Rightarrow> int \<Rightarrow> int
     \<Rightarrow> extra_args option \<Rightarrow> 'm train_model res" where
  "create_train_model G model_creator d h scope num_workers jobid extra_args =
     (let (src_vocab_table, tgt_vocab_table) =
            create_vocab_tables (ge_index_table G) (hn_src_vocab_file h) (hn_tgt_vocab_file h) (hn_share_vocab h);
          iterator = train_batches G d h src_vocab_table tgt_vocab_table num_workers jobid;
          model_device_fn = (case extra_args of None \<Rightarrow> None | Some x \<Rightarrow> xa_model_device_fn x)
      in bindE (model_creator h TRAIN src_vocab_table tgt_vocab_table None scope extra_args) (\<lambda>model.
         Inr \<lparr>tm_model = model, tm_device = model_device_fn, tm_batches = iterator\<rparr>))"

section \<open>Evaluation\<close>

record 'm eval_model =
  em_model :: 'm
  em_batches :: "pystr \<Rightarrow> pystr \<Rightarrow> batch list res"

definition create_eval_model ::
    "'t graph_env \<Rightarrow> 'm model_creator \<Rightarrow> pipeline_hparams \<Rightarrow> net_hparams \<Rightarrow> pystr option
     \<Rightarrow> extra_args option \<Rightarrow> 'm eval_model res" where
  "create_eval_model G model_creator d h scope extra_args =
     (let (src_vocab_table, tgt_vocab_table) =
            create_vocab_tables (ge_index_table G) (hn_src_vocab_file h) (hn_tgt_vocab_file h) (hn_share_vocab h);
          reverse_tgt_vocab_table = ge_string_table G (hn_tgt_vocab_file h) UNK;
          iterator = (\<lambda>src_file tgt_file.
            bindE (ge_lines G src_file) (\<lambda>src_dataset.
            bindE (ge_lines G tgt_file) (\<lambda>tgt_dataset.
            get_iterator (ge_data G) (iterator_settings d h (ph_src_max_len_infer d) (hn_tgt_max_len_infer h))
              src_vocab_table tgt_vocab_table src_dataset tgt_dataset)))
      in bindE (model_creator h EVAL src_vocab_table tgt_vocab_table (Some reverse_tgt_vocab_table) scope extra_args)
           (\<lambda>model. Inr \<lparr>em_model = model, em_batches = iterator\<rparr>))"

section \<open>Inference\<close>

record 'm infer_model =
  im_model :: 'm
  im_batches :: "bytes list \<Rightarrow> nat \<Rightarrow> infer_batch list res"

definition create_infer_model ::
    "'t graph_env \<Rightarrow> 'm model_creator \<Rightarrow> pipeline_hparams \<Rightarrow> net_hparams \<Rightarrow> pystr option
     \<Rightarrow> extra_args option \<Rightarrow> 'm infer_model res" where
  "create_infer_model G model_creator d h scope extra_args =
     (let (src_vocab_table, tgt_vocab_table) =
            create_vocab_tables (ge_index_table G) (hn_src_vocab_file h) (hn_tgt_vocab_file h) (hn_share_vocab h);
          reverse_tgt_vocab_table = ge_string_table G (hn_tgt_vocab_file h) UNK;
          iterator = (\<lambda>src_dataset batch_size.
            get_infer_iterator (ge_data G) src_dataset src_vocab_table batch_size (utf8_encode (hn_eos h))
              (ph_src_max_len_infer d) (hn_use_char_encode h))
      in bindE (model_creator h INFER src_vocab_table tgt_vocab_table (Some reverse_tgt_vocab_table) scope extra_args)
           (\<lambda>model. Inr \<lparr>im_model = model, im_batches = iterator\<rparr>))"

section \<open>What the batches of a pipeline hold\<close>

definition word_pairs :: "'t data_env \<Rightarrow> bytes list \<Rightarrow> bytes list \<Rightarrow> (bytes list \<times> bytes list) list" where
  "word_pairs D src tgt =
     filter (\<lambda>(src, tgt). src \<noteq> [] \<and> tgt \<noteq> []) (map (\<lambda>(src, tgt). (de_split D src, de_split D tgt)) (zip src tgt))"

lemma mapE_map_Inr: "mapE f xs = Inr ys \<Longrightarrow> map f xs = map Inr ys"
  by (rule nth_equalityI) (simp_all add: mapE_length mapE_nth)

lemma mset_nonempty_pairs:
  "mset (nonempty_pairs D R src tgt)
    = filter_mset (\<lambda>(src, tgt). src \<noteq> [] \<and> tgt \<noteq> [])
        (image_mset (\<lambda>(src, tgt). (de_split D src, de_split D tgt)) (mset (line_pairs D R src tgt)))"
  by (simp add: nonempty_pairs_def)

lemma mset_word_pairs:
  "mset (word_pairs D src tgt)
    = filter_mset (\<lambda>(src, tgt). src \<noteq> [] \<and> tgt \<noteq> [])
        (image_mset (\<lambda>(src, tgt). (de_split D src, de_split D tgt)) (mset (zip src tgt)))"
  by (simp add: word_pairs_def)

lemma make_example_of_worker:
  "make_example D (R\<lparr>ia_skip_count := k, ia_num_shards := n, ia_shard_index := i\<rparr>) = make_example D R"
  by (simp add: make_example_def fun_eq_iff)

lemma image_mset_sum: "finite I \<Longrightarrow> image_mset f (\<Sum>i \<in> I. M i) = (\<Sum>i \<in> I. image_mset f (M i))"
  by (induction I rule: finite_induct) auto

lemma filter_mset_sum: "finite I \<Longrightarrow> filter_mset P (\<Sum>i \<in> I. M i) = (\<Sum>i \<in> I. filter_mset P (M i))"
  by (induction I rule: finite_induct) auto

lemma make_example_source:
  "make_example D R st tt p = Inr e
    \<Longrightarrow> source_ids D st (ia_use_char_encode R) (truncate_to (ia_src_max_len R) (fst p)) = Inr (ex_src e)"
  by (auto simp: make_example_def bindE_Inr_iff Let_def)

lemma image_mset_Inr_eq:
  "image_mset Inr A = image_mset f B \<Longrightarrow> (\<And>a b. f b = Inr a \<Longrightarrow> g b = h a) \<Longrightarrow> image_mset h A = image_mset g B"
proof (induction B arbitrary: A)
  case (add b B)
  have "f b \<in># image_mset Inr A" using add.prems(1) by simp
  then obtain a where a: "a \<in># A" "f b = Inr a" by auto
  then obtain A' where A': "A = add_mset a A'" by (meson multi_member_split)
  with add.prems(1) a have "image_mset Inr A' = image_mset f B" by simp
  from add.IH[OF this add.prems(2)] add.prems(2)[OF a(2)] A' show ?case by simp
qed simp

lemma word_pairs_sources:
  assumes "length src = length tgt" "\<forall>line \<in> set src \<union> set tgt. de_split D line \<noteq> []"
  shows "map fst (word_pairs D src tgt) = map (de_split D) src"
  using assms
proof (induction src tgt rule: list_induct2)
  case (Cons x xs y ys)
  then show ?case by (simp add: word_pairs_def)
qed (simp add: word_pairs_def)

section \<open>Pipelines that keep the laws\<close>

text \<open>
  What a client of the pipeline relies on: tensors that keep their entries, shards, windows,
  padded batches and shuffling as TensorFlow documents them.
\<close>

locale data_laws =
  fixes D :: "'t data_env"
  assumes tensors: "tensor_laws (de_tensors D) (de_entries D)"
    and shards: "shard_law D" and windows: "window_law D" and shuffle: "shuffle_law D"
    and batches: "batch_law D"
begin

lemma get_iterator_examples:
  assumes "0 < ia_batch_size R"
  shows "\<exists>bs. get_iterator D R st tt src tgt = Inr bs
    \<and> image_mset Inr (mset (concat (map (unbatch (ia_use_char_encode R)) bs)))
      = image_mset (make_example D R st tt) (mset (nonempty_pairs D R src tgt))"
proof -
  obtain exs bs where exs: "examples D R st tt src tgt = Inr exs" and "get_iterator D R st tt src tgt = Inr bs"
      and "mset (concat (map (unbatch (ia_use_char_encode R)) bs)) = mset exs"
    using get_iterator_reads_back[OF tensors windows batches assms] by blast
  moreover from exs have "map (make_example D R st tt) (nonempty_pairs D R src tgt) = map Inr exs"
    by (simp add: examples_nonempty_pairs mapE_map_Inr)
  then have "image_mset (make_example D R st tt) (mset (nonempty_pairs D R src tgt)) = image_mset Inr (mset exs)"
    by (metis mset_map)
  ultimately show ?thesis by auto
qed

lemma worker_pairs:
  assumes "0 < n"
  shows "(\<Sum>i \<in> {0..<int n}. mset (nonempty_pairs D
      (R\<lparr>ia_skip_count := Some 0, ia_num_shards := int n, ia_shard_index := i\<rparr>) src tgt)) = mset (word_pairs D src tgt)"
proof -
  have "mset (line_pairs D (R\<lparr>ia_skip_count := Some 0, ia_num_shards := int n, ia_shard_index := i\<rparr>) src tgt)
      = mset (shard (int n) i (zip src tgt))" if "i \<in> {0..<int n}" for i
    using shuffle that by (simp add: line_pairs_def shuffle_law_def shard_lawD[OF shards])
  then have "(\<Sum>i \<in> {0..<int n}. mset (line_pairs D
      (R\<lparr>ia_skip_count := Some 0, ia_num_shards := int n, ia_shard_index := i\<rparr>) src tgt)) = mset (zip src tgt)"
    by (simp add: mset_shards[OF assms, of "zip src tgt", symmetric])
  then show ?thesis
    by (simp only: mset_nonempty_pairs mset_word_pairs finite_atLeastLessThan_int flip: image_mset_sum filter_mset_sum)
qed

text \<open>The sources of an unsharded pass are those of the lines.\<close>

lemma unsharded_sources:
  assumes R: "0 < ia_batch_size R" "ia_num_shards R = 1" "ia_shard_index R = 0" "ia_skip_count R = None"
    and lines: "length src = length tgt" "\<forall>line \<in> set src \<union> set tgt. de_split D line \<noteq> []"
  shows "\<exists>bs. get_iterator D R st tt src tgt = Inr bs
    \<and> image_mset Inr (mset (map ex_src (concat (map (unbatch (ia_use_char_encode R)) bs))))
      = mset (map (\<lambda>line. source_ids D st (ia_use_char_encode R) (truncate_to (ia_src_max_len R) (de_split D line))) src)"
proof -
  let ?ids = "\<lambda>ws. source_ids D st (ia_use_char_encode R) (truncate_to (ia_src_max_len R) ws)"
  let ?un = "\<lambda>bs. concat (map (unbatch (ia_use_char_encode R)) bs)"
  obtain bs where bs: "get_iterator D R st tt src tgt = Inr bs"
      "image_mset Inr (mset (?un bs)) = image_mset (make_example D R st tt) (mset (nonempty_pairs D R src tgt))"
    using get_iterator_examples[OF R(1)] by blast
  have "de_shard D 1 0 xs = xs" for xs
    by (simp add: shard_lawD[OF shards] shard_def)
  then have "mset (line_pairs D R src tgt) = mset (zip src tgt)"
    using shuffle by (simp add: line_pairs_def R shuffle_law_def)
  then have pairs: "mset (nonempty_pairs D R src tgt) = mset (word_pairs D src tgt)"
    by (simp only: mset_nonempty_pairs mset_word_pairs)
  have "(?ids \<circ> fst) p = (Inr \<circ> ex_src) e" if "make_example D R st tt p = Inr e" for p e
    using make_example_source[OF that] by simp
  from image_mset_Inr_eq[OF bs(2)[unfolded pairs], of "?ids \<circ> fst" "Inr \<circ> ex_src", OF this]
  have "image_mset (Inr \<circ> ex_src) (mset (?un bs)) = image_mset (?ids \<circ> fst) (mset (word_pairs D src tgt))" .
  then have "image_mset Inr (mset (map ex_src (?un bs))) = mset (map (?ids \<circ> de_split D) src)"
    using word_pairs_sources[OF lines] by (simp add: multiset.map_comp flip: mset_map) (metis list.map_comp)
  with bs(1) show ?thesis by (auto simp: o_def)
qed

end

interpretation list_data: data_laws list_pipeline
  by unfold_locales (rule list_pipeline_tensors list_pipeline_shard list_pipeline_windows list_pipeline_shuffle list_pipeline_batches)+

section \<open>Training, scoring and translating on the same data\<close>

text \<open>
  C1. A first pass over the training data on any number of workers. If both files can be read,
  every worker's graph is created and its batches, read back with the recorded lengths, are over
  all workers exactly the examples of the aligned lines of the corpus with words on both sides:
  no pair is lost between the shards, the windows, the batches and the padding, and none is
  trained on twice.
\<close>

theorem training_covers_corpus:
  assumes data: "data_laws (ge_data G)"
    and pos: "0 < num_workers" "0 < ph_batch_size d"
    and src: "text_lines G (ge_glob G (ph_train_prefix d @ u ''.'' @ ph_src d)) = Inr src"
    and tgt: "text_lines G (ge_glob G (ph_train_prefix d @ u ''.'' @ ph_tgt d)) = Inr tgt"
    and tables: "create_vocab_tables (ge_index_table G) (hn_src_vocab_file h) (hn_tgt_vocab_file h)
      (hn_share_vocab h) = (st, tt)"
    and model: "model_creator h TRAIN st tt None scope extra_args = Inr m"
  shows "\<exists>models batches. (\<forall>i \<in> {0..<int num_workers}.
        create_train_model G model_creator d h scope (int num_workers) i extra_args = Inr (models i)
        \<and> tm_model (models i) = m \<and> tm_batches (models i) 0 = Inr (batches i))
    \<and> image_mset Inr (\<Sum>i \<in> {0..<int num_workers}. mset (concat (map (unbatch (hn_use_char_encode h)) (batches i))))
      = image_mset (make_example (ge_data G) (iterator_settings d h (ph_src_max_len d) (ph_tgt_max_len d)) st tt)
          (mset (word_pairs (ge_data G) src tgt))"
proof -
  let ?D = "ge_data G" and ?R = "iterator_settings d h (ph_src_max_len d) (ph_tgt_max_len d)"
  let ?W = "\<lambda>i. ?R\<lparr>ia_skip_count := Some 0, ia_num_shards := int num_workers, ia_shard_index := i\<rparr>"
  define device where "device = (case extra_args of None \<Rightarrow> None | Some x \<Rightarrow> xa_model_device_fn x)"
  let ?model = "\<lambda>i. \<lparr>tm_model = m, tm_device = device, tm_batches = train_batches G d h st tt (int num_workers) i\<rparr>"
  have created: "create_train_model G model_creator d h scope (int num_workers) i extra_args = Inr (?model i)" for i
    by (simp add: create_train_model_def tables model device_def)
  have "ia_batch_size (?W i) = ph_batch_size d" "ia_use_char_encode (?W i) = hn_use_char_encode h" for i
    by (simp_all add: iterator_settings_def)
  then have "\<exists>bs. get_iterator ?D (?W i) st tt src tgt = Inr bs
      \<and> image_mset Inr (mset (concat (map (unbatch (hn_use_char_encode h)) bs)))
        = image_mset (make_example ?D ?R st tt) (mset (nonempty_pairs ?D (?W i) src tgt))" for i
    using data_laws.get_iterator_examples[OF data, of "?W i" st tt src tgt] pos(2) by (simp only: make_example_of_worker)
  then obtain batches where batches: "\<And>i. get_iterator ?D (?W i) st tt src tgt = Inr (batches i)"
      "\<And>i. image_mset Inr (mset (concat (map (unbatch (hn_use_char_encode h)) (batches i))))
        = image_mset (make_example ?D ?R st tt) (mset (nonempty_pairs ?D (?W i) src tgt))"
    by metis
  have "tm_batches (?model i) 0 = Inr (batches i)" for i
    by (simp add: train_batches_def src tgt batches(1) Let_def)
  moreover have "image_mset Inr (\<Sum>i \<in> {0..<int num_workers}. mset (concat (map (unbatch (hn_use_char_encode h)) (batches i))))
      = image_mset (make_example ?D ?R st tt) (mset (word_pairs ?D src tgt))"
    by (simp only: image_mset_sum finite_atLeastLessThan_int batches(2)
        data_laws.worker_pairs[OF data pos(1), of ?R src tgt, symmetric])
  ultimately show ?thesis using created
    by (intro exI[of _ ?model] exI[of _ batches]) simp
qed

text \<open>
  C11. The graph that scores a test set and the graph that translates it read the same sentences.
  For a source file and a reference with as many lines, all with words, the batches of both
  graphs hold the same source ids, sentence by sentence up to the order of the shuffled
  evaluation, so that perplexities and translations are about the same input, cut at the same
  length.
\<close>

theorem eval_and_infer_read_alike:
  assumes data: "data_laws (ge_data G)"
    and pos: "0 < ph_batch_size d" "0 < batch_size"
    and em: "create_eval_model G eval_creator d h scope extra_args = Inr em"
    and im: "create_infer_model G infer_creator d h scope' extra_args' = Inr im"
    and src: "ge_lines G src_file = Inr src" and tgt: "ge_lines G tgt_file = Inr tgt"
    and lines: "length src = length tgt" "\<forall>line \<in> set src \<union> set tgt. de_split (ge_data G) line \<noteq> []"
  shows "\<exists>ebs ibs. em_batches em src_file tgt_file = Inr ebs \<and> im_batches im src batch_size = Inr ibs
    \<and> mset (map ex_src (concat (map (unbatch (hn_use_char_encode h)) ebs)))
      = mset (concat (map (infer_rows (hn_use_char_encode h)) ibs))"
proof -
  let ?D = "ge_data G" and ?uce = "hn_use_char_encode h"
  let ?R = "iterator_settings d h (ph_src_max_len_infer d) (hn_tgt_max_len_infer h)"
  obtain st tt where tables: "create_vocab_tables (ge_index_table G) (hn_src_vocab_file h) (hn_tgt_vocab_file h)
      (hn_share_vocab h) = (st, tt)" by fastforce
  let ?ids = "\<lambda>line. source_ids ?D st ?uce (truncate_to (ph_src_max_len_infer d) (de_split ?D line))"
  have R: "0 < ia_batch_size ?R" "ia_num_shards ?R = 1" "ia_shard_index ?R = 0" "ia_skip_count ?R = None"
      "ia_use_char_encode ?R = ?uce" "ia_src_max_len ?R = ph_src_max_len_infer d"
    using pos(1) by (simp_all add: iterator_settings_def)
  obtain ebs where ebs: "get_iterator ?D ?R st tt src tgt = Inr ebs"
      "image_mset Inr (mset (map ex_src (concat (map (unbatch ?uce) ebs)))) = mset (map ?ids src)"
    using data_laws.unsharded_sources[OF data R(1-4) lines, of st tt] unfolding R by blast
  obtain ibs rows where ibs: "get_infer_iterator ?D src st batch_size (utf8_encode (hn_eos h)) (ph_src_max_len_infer d) ?uce = Inr ibs"
      "mapE ?ids src = Inr rows" "concat (map (infer_rows ?uce) ibs) = rows"
    using infer_batches_in_order[OF data_laws.tensors[OF data] data_laws.batches[OF data] pos(2)] by blast
  have "image_mset (Inr :: _ \<Rightarrow> _ res) (mset (map ex_src (concat (map (unbatch ?uce) ebs)))) = image_mset Inr (mset rows)"
    using ebs(2) mapE_map_Inr[OF ibs(2)] by (metis mset_map)
  then have "mset (map ex_src (concat (map (unbatch ?uce) ebs))) = mset rows"
    by (rule injD[OF multiset.inj_map[OF inj_Inr], rotated])
  moreover have "em_batches em src_file tgt_file = Inr ebs"
    using em by (auto simp: create_eval_model_def tables src tgt ebs(1) bindE_Inr_iff)
  moreover have "im_batches im src batch_size = Inr ibs"
    using im by (auto simp: create_infer_model_def tables ibs(1) bindE_Inr_iff)
  ultimately show ?thesis by (intro exI[of _ ebs] exI[of _ ibs]) (simp add: ibs(3))
qed

section \<open>A small corpus\<close>

definition sample_graph_env :: "int list graph_env" where
  "sample_graph_env =
     \<lparr>ge_glob = (\<lambda>f. [f]),
      ge_lines = (\<lambda>f. if f = u ''train.en'' then Inr [''a cat'', ''b'', '''']
        else if f = u ''train.fr'' then Inr [''un chat'', ''c'', ''d''] else Inl NotFoundError),
      ge_index_table = (\<lambda>_ _. word_length), ge_string_table = (\<lambda>_ _ _. ''w''), ge_data = list_pipeline\<rparr>"

definition sample_pipeline :: pipeline_hparams where
  "sample_pipeline = \<lparr>ph_train_prefix = u ''train'', ph_src = u ''en'', ph_tgt = u ''fr'', ph_batch_size = 2,
     ph_num_buckets = 3, ph_src_max_len = Some 2, ph_tgt_max_len = None, ph_src_max_len_infer = Some 1\<rparr>"

definition mode_only :: "mode model_creator" where
  "mode_only = (\<lambda>h mode st tt rev scope extra_args. Inr mode)"

lemma sample_graph_laws: "data_laws (ge_data sample_graph_env)"
  using list_data.data_laws_axioms by (simp add: sample_graph_env_def)

theorem training_covers_corpus_witness:
  "\<exists>models batches. (\<forall>i \<in> {0..<int 2}.
        create_train_model sample_graph_env mode_only sample_pipeline sample_greedy None (int 2) i None = Inr (models i)
        \<and> tm_model (models i) = TRAIN \<and> tm_batches (models i) 0 = Inr (batches i))
    \<and> image_mset Inr (\<Sum>i \<in> {0..<int 2}. mset (concat (map (unbatch (hn_use_char_encode sample_greedy)) (batches i))))
      = image_mset (make_example (ge_data sample_graph_env)
            (iterator_settings sample_pipeline sample_greedy (ph_src_max_len sample_pipeline) (ph_tgt_max_len sample_pipeline))
            word_length word_length)
          (mset (word_pairs (ge_data sample_graph_env) [''a cat'', ''b'', ''''] [''un chat'', ''c'', ''d'']))"
  by (rule training_covers_corpus[OF sample_graph_laws])
    (simp_all add: sample_graph_env_def sample_pipeline_def create_vocab_tables_def text_lines_def mode_only_def u_def)

theorem eval_and_infer_read_alike_witness:
  "\<exists>em im ebs ibs. create_eval_model sample_graph_env mode_only sample_pipeline sample_greedy None None = Inr em
    \<and> create_infer_model sample_graph_env mode_only sample_pipeline sample_greedy None None = Inr im
    \<and> em_batches em (u ''train.fr'') (u ''train.fr'') = Inr ebs \<and> im_batches im [''un chat'', ''c'', ''d''] 2 = Inr ibs
    \<and> mset (map ex_src (concat (map (unbatch (hn_use_char_encode sample_greedy)) ebs)))
      = mset (concat (map (infer_rows (hn_use_char_encode sample_greedy)) ibs))"
proof -
  have lines: "ge_lines sample_graph_env (u ''train.fr'') = Inr [''un chat'', ''c'', ''d'']"
    by (simp add: sample_graph_env_def u_def)
  have words: "\<forall>line \<in> set [''un chat'', ''c'', ''d''] \<union> set [''un chat'', ''c'', ''d''].
      de_split (ge_data sample_graph_env) line \<noteq> []"
    by (simp add: sample_graph_env_def list_pipeline_def split_on_def)
  obtain em im where "create_eval_model sample_graph_env mode_only sample_pipeline sample_greedy None None = Inr em"
      "create_infer_model sample_graph_env mode_only sample_pipeline sample_greedy None None = Inr im"
    by (simp add: create_eval_model_def create_infer_model_def create_vocab_tables_def mode_only_def Let_def)
  moreover have "0 < ph_batch_size sample_pipeline" by (simp add: sample_pipeline_def)
  ultimately show ?thesis
    using eval_and_infer_read_alike[OF sample_graph_laws _ _ _ _ lines lines _ words, of sample_pipeline 2] by fastforce
qed

end
