(* ===== verification/Version.thy ===== *)
theory Version
  imports PyText "HOL-Library.List_Lexorder"
begin

text \<open>
  \<open>check_tensorflow_version\<close> of \<open>nmt/utils/misc_utils.py\<close>, which \<open>nmt.py\<close> runs first, with the
  \<open>LooseVersion\<close> of Python's standard library (\<open>distutils.version\<close>) that it compares with: a
  version is cut into numbers and words, and two versions are compared as Python lists, in which a
  number and a word have no order.
\<close>

section \<open>Loose versions\<close>

datatype version_part = VNum nat | VText pystr

text \<open>
  The regular expression of \<open>LooseVersion\<close> separates runs of digits, runs of lower case letters
  and single dots from what is between them; dots are then left out.
\<close>

definition char_kind :: "nat \<Rightarrow> nat" where
  "char_kind c = (if 48 \<le> c \<and> c < 58 then 0 else if 97 \<le> c \<and> c < 123 then 1 else if c = 46 then 2 else 3)"

fun runs :: "pystr \<Rightarrow> pystr list" where
  "runs [] = []"
| "runs (c # cs) =
     (case runs cs of
        [] \<Rightarrow> [[c]]
      | r # rs \<Rightarrow> if r \<noteq> [] \<and> char_kind (hd r) = char_kind c then (c # r) # rs else [c] # r # rs)"

definition version_part :: "pystr \<Rightarrow> version_part" where
  "version_part r = (if char_kind (hd r) = 0 then VNum (foldl (\<lambda>a d. 10 * a + (d - 48)) 0 r) else VText r)"

definition loose_version :: "pystr \<Rightarrow> version_part list" where
  "loose_version vstring = map version_part (filter (\<lambda>r. char_kind (hd r) \<noteq> 2) (runs vstring))"

text \<open>\<open><\<close> on Python lists of numbers and strings.\<close>

fun version_less :: "version_part list \<Rightarrow> version_part list \<Rightarrow> bool res" where
  "version_less xs [] = Inr False"
| "version_less [] (y # ys) = Inr True"
| "version_less (x # xs) (y # ys) =
     (if x = y then version_less xs ys
      else case (x, y) of
             (VNum m, VNum n) \<Rightarrow> Inr (m < n)
           | (VText s, VText t) \<Rightarrow> Inr (s < t)
           | _ \<Rightarrow> Inl TypeError)"

section \<open>The check\<close>

definition min_tf_version :: pystr where
  "min_tf_version = u ''1.12.0''"

definition check_tensorflow_version :: "pystr \<Rightarrow> unit res" where
  "check_tensorflow_version tf_version =
     bindE (version_less (loose_version tf_version) (loose_version min_tf_version)) (\<lambda>less.
     raise_if less EnvironmentError)"

section \<open>Which versions pass\<close>

lemma nat_str_kind: "c \<in> set (nat_str n) \<Longrightarrow> char_kind c = 0"
  using nat_str_digits by (simp add: char_kind_def)

lemma runs_digits:
  "\<forall>c \<in> set ds. char_kind c = 0 \<Longrightarrow> ds \<noteq> [] \<Longrightarrow> cs = [] \<or> char_kind (hd cs) \<noteq> 0 \<Longrightarrow> runs (ds @ cs) = ds # runs cs"
proof (induction ds)
  case (Cons d ds)
  have hd: "hd r = hd cs" if "runs cs = r # rs" "cs \<noteq> []" for r rs
    using that by (cases cs) (auto split: list.splits if_splits)
  show ?case
  proof (cases "ds = []")
    case True
    show ?thesis
    proof (cases "runs cs")
      case Nil
      then show ?thesis using True by simp
    next
      case (Cons r rs)
      moreover from this have "cs \<noteq> []" by auto
      ultimately show ?thesis using True hd[of r rs] Cons.prems by auto
    qed
  next
    case False
    with Cons have "runs (ds @ cs) = ds # runs cs" by simp
    with False Cons.prems show ?thesis by simp
  qed
qed simp

lemma runs_dot: "cs = [] \<or> char_kind (hd cs) \<noteq> 2 \<Longrightarrow> runs (46 # cs) = [46] # runs cs"
proof -
  have "hd r = hd cs" if "runs cs = r # rs" "cs \<noteq> []" for r rs
    using that by (cases cs) (auto split: list.splits if_splits)
  moreover assume "cs = [] \<or> char_kind (hd cs) \<noteq> 2"
  ultimately show ?thesis by (cases "cs = []") (auto simp: char_kind_def split: list.splits)
qed

lemma hd_nat_str_kind: "char_kind (hd (nat_str n)) = 0"
  by (rule nat_str_kind[OF hd_in_set]) simp

lemma version_part_nat_str: "version_part (nat_str n) = VNum n"
  by (simp add: version_part_def hd_nat_str_kind nat_str_value)

lemma loose_version_numbers: "loose_version (join [46] (map nat_str ns)) = map VNum ns"
proof (induction ns)
  case Nil
  show ?case by (simp add: loose_version_def)
next
  case (Cons n ns)
  show ?case
  proof (cases ns)
    case Nil
    have "runs (nat_str n @ []) = nat_str n # runs []" by (rule runs_digits) (use nat_str_kind in auto)
    with Nil show ?thesis by (simp add: loose_version_def version_part_nat_str hd_nat_str_kind)
  next
    case (Cons m ms)
    let ?rest = "join [46] (map nat_str ns)"
    have "hd ?rest = hd (nat_str m)" using Cons by (cases ms) simp_all
    then have "runs (46 # ?rest) = [46] # runs ?rest" using hd_nat_str_kind by (intro runs_dot) simp
    moreover have "runs (nat_str n @ 46 # ?rest) = nat_str n # runs (46 # ?rest)"
      by (rule runs_digits) (use nat_str_kind in \<open>auto simp: char_kind_def\<close>)
    ultimately show ?thesis
      using Cons Cons.IH
      by (simp add: join_Cons loose_version_def version_part_nat_str hd_nat_str_kind) (simp add: char_kind_def)
  qed
qed

lemma version_less_numbers: "version_less (map VNum ms) (map VNum ns) = Inr (ms < ns)"
proof (induction ms arbitrary: ns)
  case Nil
  show ?case by (cases ns) simp_all
next
  case (Cons m ms)
  then show ?case by (cases ns) auto
qed

lemma min_tf_version_numbers: "min_tf_version = join [46] (map nat_str [1, 12, 0])"
  by code_simp

text \<open>
  The version check compares numerically: of the versions written as numbers with dots
  between them it rejects exactly those whose list of numbers comes before 1, 12, 0, so that
  1.9 is rejected, and 1.12 too, and 1.13.1 passes. A word at the place of a number that matters has
  no order and raises \<open>TypeError\<close> instead.
\<close>

theorem check_tensorflow_version_numbers:
  "check_tensorflow_version (join [46] (map nat_str ns)) = raise_if (ns < [1, 12, 0]) EnvironmentError
    \<and> check_tensorflow_version (u ''1.rc1'') = Inl TypeError"
proof (intro conjI)
  show "check_tensorflow_version (join [46] (map nat_str ns)) = raise_if (ns < [1, 12, 0]) EnvironmentError"
    unfolding check_tensorflow_version_def min_tf_version_numbers loose_version_numbers version_less_numbers by simp
  show "check_tensorflow_version (u ''1.rc1'') = Inl TypeError" by code_simp
qed

end
