(* ===== verification/Launch.thy ===== *)
theory Launch
  imports TrainLoop Version
begin

text \<open>
  The program itself, \<open>run_main\<close> in \<open>nmt/nmt.py\<close>: seeding the random generators, finding the
  hyper-parameters, and training, or translating a file and scoring the translation. \<open>run_main\<close>
  gets the functions that train and translate; \<open>main\<close> passes the \<open>train\<close> of \<open>TrainLoop\<close> and the
  \<open>inference\<close> of \<open>Inference\<close>. What is printed is left out but for the scores.
\<close>

section \<open>Strings of the command line\<close>

text \<open>
  \<open>int(s)\<close>: white space around (but not the separators 28 to 31), a sign, and decimal digits with
  single underscores between them. The digits are those of every script: \<open>decimal_zeros\<close> lists the
  characters for 0 (of Unicode 14, the version of Python 3.11), each followed by those for 1 to 9.
\<close>

definition decimal_zeros :: "nat list" where
  "decimal_zeros =
    [48, 1632, 1776, 1984, 2406, 2534, 2662, 2790, 2918, 3046, 3174, 3302, 3430, 3558, 3664, 3792,
     3872, 4160, 4240, 6112, 6160, 6470, 6608, 6784, 6800, 6992, 7088, 7232, 7248, 42528, 43216, 43264,
     43472, 43504, 43600, 44016, 65296, 66720, 68912, 69734, 69872, 69942, 70096, 70384, 70736, 70864,
     71248, 71360, 71472, 71904, 72016, 72784, 73040, 73120, 92768, 92864, 93008, 120782, 120792,
     120802, 120812, 120822, 123200, 123632, 125264, 130032]"

definition digit_of :: "nat \<Rightarrow> nat option" where
  "digit_of c = map_option (\<lambda>z. c - z) (find (\<lambda>z. z \<le> c \<and> c < z + 10) decimal_zeros)"

fun digits_value :: "nat \<Rightarrow> pystr \<Rightarrow> nat option" where
  "digits_value n [] = Some n"
| "digits_value n (c # cs) =
     (case digit_of c of
        Some d \<Rightarrow> digits_value (10 * n + d) cs
      | None \<Rightarrow> if c = 95 \<and> cs \<noteq> [] \<and> digit_of (hd cs) \<noteq> None then digits_value n cs else None)"

definition int_space :: "nat \<Rightarrow> bool" where
  "int_space c \<longleftrightarrow> is_space c \<and> \<not> (28 \<le> c \<and> c \<le> 31)"

definition int_strip :: "pystr \<Rightarrow> pystr" where
  "int_strip s = rev (dropWhile int_space (rev (dropWhile int_space s)))"

definition nat_of_str :: "pystr \<Rightarrow> int res" where
  "nat_of_str s =
     (if s = [] \<or> digit_of (hd s) = None then Inl ValueError
      else case digits_value 0 s of None \<Rightarrow> Inl ValueError | Some n \<Rightarrow> Inr (int n))"

definition py_int :: "pystr \<Rightarrow> int res" where
  "py_int s =
     (let s = int_strip s
      in if s \<noteq> [] \<and> hd s = 45 then bindE (nat_of_str (tl s)) (\<lambda>n. Inr (- n))
         else if s \<noteq> [] \<and> hd s = 43 then nat_of_str (tl s)
         else nat_of_str s)"

section \<open>Running\<close>

text \<open>
  \<open>la_seed\<close> seeds both generators, \<open>la_latest\<close> is \<open>tf.train.latest_checkpoint\<close>, the last two
  are the functions that \<open>main\<close> passes.
\<close>

record ('h, 'w) launch_env =
  la_files :: "'w gfile"
  la_hparams :: "'h hparams_api"
  la_mean :: "real list \<Rightarrow> real"
  la_seed :: "int \<Rightarrow> 'w \<Rightarrow> 'w"
  la_latest :: "'w \<Rightarrow> pystr \<Rightarrow> pystr option"
  la_train :: "'h \<Rightarrow> 'w \<Rightarrow> 'w prog"
  la_inference :: "pystr option \<Rightarrow> pystr \<Rightarrow> pystr \<Rightarrow> 'h \<Rightarrow> int \<Rightarrow> int \<Rightarrow> 'w \<Rightarrow> 'w prog"

definition opt_flag :: "flags \<Rightarrow> string \<Rightarrow> pystr option res" where
  "opt_flag fl name = bindE (flag fl name) opt_str_value"

definition seed_generators :: "('h, 'w) launch_env \<Rightarrow> flags \<Rightarrow> int \<Rightarrow> 'w \<Rightarrow> 'w res" where
  "seed_generators E fl jobid w =
     bindE (flag fl ''random_seed'') (\<lambda>random_seed.
     if random_seed = PNone then Inr w
     else bindE (int_value random_seed) (\<lambda>random_seed.
          Inr (if random_seed > 0 then la_seed E (random_seed + jobid) w else w)))"

definition make_out_dir :: "('h, 'w) launch_env \<Rightarrow> pystr option \<Rightarrow> 'w \<Rightarrow> 'w res" where
  "make_out_dir E out_dir w =
     (if truthy out_dir \<and> \<not> gf_exists (la_files E) w (the out_dir)
      then gf_makedirs (la_files E) w (the out_dir) else Inr w)"

text \<open>The hyper-parameters, from beside the checkpoint if there are any, else from the output directory.\<close>

definition find_hparams ::
    "('h, 'w) launch_env \<Rightarrow> flags \<Rightarrow> 'h \<Rightarrow> pystr option \<Rightarrow> int \<Rightarrow> 'w \<Rightarrow> ('h \<times> 'w) res" where
  "find_hparams E fl default_hparams out_dir jobid w =
     (let G = la_files E; A = la_hparams E
      in bindE (opt_flag fl ''ckpt'') (\<lambda>ckpt.
         bindE (opt_flag fl ''hparams_path'') (\<lambda>hparams_path.
         if truthy ckpt
            \<and> (gf_exists G w (path_join (dirname (the ckpt)) (u ''hparams'')) \<or> truthy hparams_path)
         then create_or_load_hparams G A w (dirname (the ckpt)) default_hparams hparams_path False
         else bindE (assertE (truthy out_dir)) (\<lambda>_.
              create_or_load_hparams G A w (the out_dir) default_hparams hparams_path (jobid = 0)))))"

definition set_inference_indices :: "('h, 'w) launch_env \<Rightarrow> flags \<Rightarrow> 'h \<Rightarrow> 'h res" where
  "set_inference_indices E fl hparams =
     bindE (opt_flag fl ''inference_list'') (\<lambda>inference_list.
     let hparams = hp_set (la_hparams E) hparams (u ''inference_indices'') PNone
     in if truthy inference_list
        then bindE (mapE py_int (split_on 44 (the inference_list))) (\<lambda>indices.
             Inr (hp_set (la_hparams E) hparams (u ''inference_indices'') (PList (map PInt indices))))
        else Inr hparams)"

definition score_translation ::
    "('h, 'w) launch_env \<Rightarrow> flags \<Rightarrow> 'h \<Rightarrow> pystr \<Rightarrow> 'w \<Rightarrow> (pystr \<times> real) list res" where
  "score_translation E fl hparams trans_file w =
     bindE (opt_flag fl ''inference_ref_file'') (\<lambda>ref_file.
     if truthy ref_file \<and> gf_exists (la_files E) w trans_file
     then bindE (bindE (attr (la_hparams E) hparams (u ''metrics'')) str_list_value) (mapE (\<lambda>metric.
            bindE (bindE (attr (la_hparams E) hparams (u ''subword_option'')) opt_str_value) (\<lambda>subword_option.
            bindE (evaluate (la_files E) (la_mean E) w (the ref_file) trans_file metric subword_option) (\<lambda>score.
            Inr (metric, score)))))
     else Inr [])"

definition translate_file ::
    "('h, 'w) launch_env \<Rightarrow> flags \<Rightarrow> 'h \<Rightarrow> pystr option \<Rightarrow> pystr \<Rightarrow> int \<Rightarrow> int \<Rightarrow> 'w
     \<Rightarrow> ((pystr \<times> real) list \<times> 'w) prog" where
  "translate_file E fl hparams out_dir input_file num_workers jobid w =
     (let G = la_files E
      in bindP (Some (opt_flag fl ''inference_output_file'')) (\<lambda>trans_file.
         bindP (Some (assertE (truthy trans_file))) (\<lambda>_.
         let trans_file = the trans_file; trans_dir = dirname trans_file
         in bindP (Some (if \<not> gf_exists G w trans_dir then gf_makedirs G w trans_dir else Inr w)) (\<lambda>w.
            bindP (Some (set_inference_indices E fl hparams)) (\<lambda>hparams.
            bindP (Some (opt_flag fl ''ckpt'')) (\<lambda>ckpt.
            bindP (Some (if truthy ckpt then Inr ckpt
                   else case out_dir of None \<Rightarrow> Inl TypeError | Some d \<Rightarrow> Inr (la_latest E w d))) (\<lambda>ckpt.
            bindP (la_inference E ckpt input_file trans_file hparams num_workers jobid w) (\<lambda>w.
            bindP (Some (score_translation E fl hparams trans_file w)) (\<lambda>scores.
            Some (Inr (scores, w)))))))))))"

definition run_main ::
    "('h, 'w) launch_env \<Rightarrow> flags \<Rightarrow> 'h \<Rightarrow> 'w \<Rightarrow> ((pystr \<times> real) list \<times> 'w) prog" where
  "run_main E fl default_hparams w =
     bindP (Some (bindE (flag fl ''jobid'') int_value)) (\<lambda>jobid.
     bindP (Some (bindE (flag fl ''num_workers'') int_value)) (\<lambda>num_workers.
     bindP (Some (seed_generators E fl jobid w)) (\<lambda>w.
     bindP (Some (opt_flag fl ''out_dir'')) (\<lambda>out_dir.
     bindP (Some (make_out_dir E out_dir w)) (\<lambda>w.
     bindP (Some (find_hparams E fl default_hparams out_dir jobid w)) (\<lambda>(hparams, w).
     bindP (Some (opt_flag fl ''inference_input_file'')) (\<lambda>input_file.
     if truthy input_file
     then translate_file E fl hparams out_dir (the input_file) num_workers jobid w
     else bindP (la_train E hparams w) (\<lambda>w. Some (Inr ([], w))))))))))"

section \<open>What main passes\<close>

text \<open>
  \<open>train.train\<close> and \<open>inference.inference\<close> as \<open>main\<close> passes them. Restoring a model from no
  checkpoint at all, when \<open>latest_checkpoint\<close> finds none, raises \<open>ValueError\<close>.
\<close>

definition inference_fn ::
    "'w gfile \<Rightarrow> 'h hparams_api \<Rightarrow> ('w, 's) model_ops \<Rightarrow> ('h, 's, 'w) infer_env \<Rightarrow> pystr option \<Rightarrow> pystr \<Rightarrow> pystr
     \<Rightarrow> 'h \<Rightarrow> int \<Rightarrow> int \<Rightarrow> 'w \<Rightarrow> 'w prog" where
  "inference_fn G A M E ckpt input_file trans_file h num_workers jobid w =
     bindP (case ckpt of
              Some ckpt_path \<Rightarrow> inference G A M E w ckpt_path input_file trans_file h num_workers jobid
            | None \<Rightarrow> inference G A (M\<lparr>mo_restore := \<lambda>_ _ _. Inl ValueError\<rparr>) E w [] input_file trans_file h
                        num_workers jobid)
       (\<lambda>(w, _). Some (Inr w))"

definition nmt_env ::
    "('h, 's, 'w, 'a, 'd) train_env \<Rightarrow> ('h, 's, 'w) infer_env \<Rightarrow> (int \<Rightarrow> 'w \<Rightarrow> 'w) \<Rightarrow> ('h, 'w) launch_env" where
  "nmt_env TE IE seed =
     \<lparr>la_files = te_files TE, la_hparams = te_hparams TE, la_mean = te_mean TE, la_seed = seed,
      la_latest = mo_latest_checkpoint (te_models TE),
      la_train = (\<lambda>h w. bindP (train TE w h) (\<lambda>(_, _, st). Some (Inr (ts_files st)))),
      la_inference = inference_fn (te_files TE) (te_hparams TE) (te_models TE) IE\<rparr>"

definition main ::
    "('h, 's, 'w, 'a, 'd) train_env \<Rightarrow> ('h, 's, 'w) infer_env \<Rightarrow> (int \<Rightarrow> 'w \<Rightarrow> 'w) \<Rightarrow> flags \<Rightarrow> 'w
     \<Rightarrow> ((pystr \<times> real) list \<times> 'w) prog" where
  "main TE IE seed fl w =
     bindP (Some (create_hparams (te_hparams TE) fl)) (\<lambda>default_hparams.
     run_main (nmt_env TE IE seed) fl default_hparams w)"

text \<open>The module: the version check when it is loaded, then \<open>main\<close> with the parsed flags.\<close>

definition nmt_program ::
    "pystr \<Rightarrow> ('h, 's, 'w, 'a, 'd) train_env \<Rightarrow> ('h, 's, 'w) infer_env \<Rightarrow> (int \<Rightarrow> 'w \<Rightarrow> 'w) \<Rightarrow> flags \<Rightarrow> 'w
     \<Rightarrow> ((pystr \<times> real) list \<times> 'w) prog" where
  "nmt_program tf_version TE IE seed fl w =
     bindP (Some (check_tensorflow_version tf_version)) (\<lambda>_. main TE IE seed fl w)"

section \<open>The sentences to translate\<close>

abbreviation ascii_digit :: "nat \<Rightarrow> bool" where
  "ascii_digit c \<equiv> 48 \<le> c \<and> c < 58"

lemma digit_of_ascii: "ascii_digit c \<Longrightarrow> digit_of c = Some (c - 48)"
  by (simp add: digit_of_def decimal_zeros_def)

lemma digits_value_foldl:
  "\<forall>c \<in> set s. ascii_digit c \<Longrightarrow> digits_value n s = Some (foldl (\<lambda>a d. 10 * a + (d - 48)) n s)"
  by (induction s arbitrary: n) (auto simp: digit_of_ascii)

lemma nat_str_digit: "c \<in> set (nat_str n) \<Longrightarrow> ascii_digit c"
  using nat_str_digits by simp

lemma nat_of_str_nat_str: "nat_of_str (nat_str n) = Inr (int n)"
  using nat_str_digit[of "hd (nat_str n)" n] nat_str_digit
  by (simp add: nat_of_str_def digits_value_foldl nat_str_value digit_of_ascii)

lemma int_str_chars: "c \<in> set (int_str i) \<Longrightarrow> c = 45 \<or> ascii_digit c"
  using nat_str_digit by (auto simp: int_str_def split: if_splits)

lemma int_str_no_space: "c \<in> set (int_str i) \<Longrightarrow> \<not> int_space c"
  using int_str_chars[of c i] by (auto simp: is_space_def int_space_def)

lemma int_strip_id:
  assumes "\<forall>c \<in> set s. \<not> int_space c"
  shows "int_strip s = s"
proof -
  have none: "dropWhile int_space t = t" if "\<forall>c \<in> set t. \<not> int_space c" for t
    using that by (cases t) auto
  show ?thesis using assms by (simp add: int_strip_def none)
qed

lemma py_int_int_str: "py_int (int_str i) = Inr i"
proof -
  have strip: "int_strip (int_str i) = int_str i" using int_str_no_space[of _ i] by (intro int_strip_id) blast
  have digit: "ascii_digit (hd (nat_str n))" for n by (rule nat_str_digit[OF hd_in_set]) simp
  have "hd (nat_str n) \<noteq> 45" "hd (nat_str n) \<noteq> 43" for n using digit[of n] by auto
  then show ?thesis
    unfolding py_int_def strip Let_def by (auto simp: int_str_def nat_of_str_nat_str)
qed

lemma join_int_str: "split_on 44 (join [44] (map int_str ns)) = map int_str ns" if "ns \<noteq> []"
proof (rule split_on_join)
  show "\<forall>w \<in> set (map int_str ns). 44 \<notin> set w"
    using int_str_chars by fastforce
qed (use that in simp)

lemma mapE_py_int: "mapE py_int (map int_str ns) = Inr ns"
  by (induction ns) (simp_all add: py_int_int_str)

lemma mapE_int_value: "mapE int_value (map PInt ns) = Inr ns"
  by (induction ns) simp_all

lemma mapE_bad:
  assumes "\<And>y e'. f y = Inl e' \<Longrightarrow> e' = e"
  shows "x \<in> set xs \<Longrightarrow> f x = Inl e \<Longrightarrow> mapE f xs = Inl e"
proof (induction xs)
  case (Cons a xs)
  show ?case
  proof (cases "f a")
    case (Inl e')
    with assms show ?thesis by simp
  next
    case (Inr y)
    with Cons show ?thesis by auto
  qed
qed simp

lemma nat_of_str_error: "nat_of_str s = Inl e \<Longrightarrow> e = ValueError"
  by (auto simp: nat_of_str_def split: if_splits option.splits)

lemma py_int_error: "py_int s = Inl e \<Longrightarrow> e = ValueError"
  by (auto simp: py_int_def Let_def bindE_Inl_iff split: if_splits dest: nat_of_str_error)

text \<open>
  C26. The sentences chosen on the command line reach the translation as they are. A list of
  numbers printed with commas is read back as the same list, negative ones included, and nothing
  else in the hyper-parameters changes; without a list all sentences are translated; a list with
  anything that is no number raises \<open>ValueError\<close>.
\<close>

theorem inference_list_roundtrip:
  assumes laws: "hparams_laws (la_hparams E)"
  shows "(\<exists>h'. set_inference_indices E (fl(u ''inference_list'' \<mapsto> PStr (join [44] (map int_str (n # ns))))) h = Inr h'
      \<and> inference_indices (la_hparams E) h' = Inr (n # ns)
      \<and> (\<forall>k. k \<noteq> u ''inference_indices'' \<longrightarrow> hp_get (la_hparams E) h' k = hp_get (la_hparams E) h k))
    \<and> (\<exists>h'. set_inference_indices E (fl(u ''inference_list'' \<mapsto> PNone)) h = Inr h'
      \<and> inference_indices (la_hparams E) h' = Inr [])
    \<and> (\<forall>line token. token \<in> set (split_on 44 line) \<and> isOK (py_int token) = False \<and> line \<noteq> []
      \<longrightarrow> set_inference_indices E (fl(u ''inference_list'' \<mapsto> PStr line)) h = Inl ValueError)"
proof (intro conjI allI impI)
  let ?A = "la_hparams E" and ?k = "u ''inference_indices''" and ?text = "join [44] (map int_str (n # ns))"
  let ?h' = "hp_set ?A (hp_set ?A h ?k PNone) ?k (PList (map PInt (n # ns)))"
  note get = hparams_laws.get_set[OF laws]
  have "?text \<noteq> []" by (cases ns) simp_all
  then have "set_inference_indices E (fl(u ''inference_list'' \<mapsto> PStr ?text)) h = Inr ?h'"
    unfolding set_inference_indices_def opt_flag_def flag_def
    by (simp add: truthy_def join_int_str mapE_py_int Let_def del: list.map)
  moreover have "inference_indices ?A ?h' = Inr (n # ns)"
    by (simp add: inference_indices_def attr_def get mapE_int_value del: list.map)
  ultimately show "\<exists>h'. set_inference_indices E (fl(u ''inference_list'' \<mapsto> PStr ?text)) h = Inr h'
      \<and> inference_indices ?A h' = Inr (n # ns) \<and> (\<forall>k. k \<noteq> ?k \<longrightarrow> hp_get ?A h' k = hp_get ?A h k)"
    by (intro exI[of _ ?h']) (simp add: get)
  show "\<exists>h'. set_inference_indices E (fl(u ''inference_list'' \<mapsto> PNone)) h = Inr h' \<and> inference_indices ?A h' = Inr []"
    by (simp add: set_inference_indices_def opt_flag_def flag_def truthy_def inference_indices_def attr_def get)
next
  fix line token
  assume t: "token \<in> set (split_on 44 line) \<and> isOK (py_int token) = False \<and> line \<noteq> []"
  then obtain e where "py_int token = Inl e" by (cases "py_int token") auto
  with py_int_error have "py_int token = Inl ValueError" by blast
  with t have "mapE py_int (split_on 44 line) = Inl ValueError" by (intro mapE_bad[of py_int ValueError token] py_int_error) auto
  with t show "set_inference_indices E (fl(u ''inference_list'' \<mapsto> PStr line)) h = Inl ValueError"
    by (simp add: set_inference_indices_def opt_flag_def flag_def truthy_def)
qed

theorem inference_list_roundtrip_witness:
  "\<exists>h'. set_inference_indices (nmt_env sample_train_env sample_row_env (\<lambda>_ w. w))
        (default_flags(u ''inference_list'' \<mapsto> PStr (join [44] (map int_str (3 # [- 1]))))) sample_infer_hp = Inr h'
      \<and> inference_indices (te_hparams sample_train_env) h' = Inr (3 # [- 1])"
proof -
  have "hparams_laws (la_hparams (nmt_env sample_train_env sample_row_env (\<lambda>_ w. w)))"
    using sample_laws by (simp add: nmt_env_def)
  from inference_list_roundtrip[OF this, of default_flags 3 "[- 1]" sample_infer_hp]
  show ?thesis by (auto simp: nmt_env_def)
qed

section \<open>What a run depends on\<close>

definition sample_launch_flags :: flags where
  "sample_launch_flags = [u ''ckpt'' \<mapsto> PStr [99], u ''hparams_path'' \<mapsto> PStr [112]]"

definition sample_launch_env :: "(dict_hp, dict_fs) launch_env" where
  "sample_launch_env = \<lparr>la_files = dict_gfile, la_hparams = sample_store, la_mean = (\<lambda>_. 0), la_seed = (\<lambda>_ w. w),
     la_latest = (\<lambda>_ _. None), la_train = (\<lambda>_ w. Some (Inr w)), la_inference = (\<lambda>_ _ _ _ _ _ w. Some (Inr w))\<rparr>"

lemma sample_found:
  "\<exists>h. find_hparams sample_launch_env sample_launch_flags sample_hp None 0 sample_fs = Inr (h, sample_fs)
    \<and> (\<forall>k \<in> set sample_read_keys. hp_get sample_store h k = hp_get sample_store sample_hp k)"
proof -
  have files: "gf_exists dict_gfile sample_fs f \<longleftrightarrow> f \<in> {u ''i'', u ''v.e''}" for f
    by (auto simp: dict_gfile_text sample_fs_def u_def)
  from sample_extended obtain h where
    "extend_hparams dict_gfile sample_store sample_hp sample_fs = Inr (h, sample_fs)"
    and keys: "\<forall>k \<in> set sample_read_keys. hp_get sample_store h k = hp_get sample_store sample_hp k" by blast
  then have "find_hparams sample_launch_env sample_launch_flags sample_hp None 0 sample_fs = Inr (h, sample_fs)"
    by (simp add: find_hparams_def sample_launch_env_def sample_launch_flags_def opt_flag_def flag_def u_def truthy_def
        create_or_load_hparams_def load_hparams_def maybe_parse_standard_hparams_def files path_join_def dirname_def)
  with keys show ?thesis by blast
qed

text \<open>
  A run either trains or translates. With an input file the result does not depend on how
  training works, whatever happens; without one it depends on nothing but training: not on
  inference, not on checkpoints that lie around, not on the scoring.
\<close>

theorem run_main_trains_or_translates:
  assumes "opt_flag fl ''inference_input_file'' = Inr input"
  shows "run_main (if truthy input then E\<lparr>la_train := train'\<rparr>
      else E\<lparr>la_inference := inference', la_latest := latest', la_mean := mean'\<rparr>) fl default_hparams w
    = run_main E fl default_hparams w"
  using assms
  by (cases "truthy input") (simp_all add: run_main_def translate_file_def seed_generators_def make_out_dir_def find_hparams_def
      set_inference_indices_def score_translation_def Let_def cong: if_cong option.case_cong)

theorem run_main_trains_or_translates_witness:
  "run_main ((nmt_env sample_train_env sample_row_env (\<lambda>_ w. w))\<lparr>la_inference := \<lambda>_ _ _ _ _ _ _. None, la_latest := \<lambda>_ _. None,
      la_mean := \<lambda>_. 0\<rparr>) default_flags sample_infer_hp sample_fs
    = run_main (nmt_env sample_train_env sample_row_env (\<lambda>_ w. w)) default_flags sample_infer_hp sample_fs"
proof -
  have "opt_flag default_flags ''inference_input_file'' = Inr None"
    unfolding opt_flag_def flag_def default_flags_def by (simp add: add_arguments_defs u_def arg_def bool_arg_def str_arg_def)
  from run_main_trains_or_translates[OF this, where E = "nmt_env sample_train_env sample_row_env (\<lambda>_ w. w)"]
  show ?thesis by (simp add: truthy_def)
qed

section \<open>Translating a file from the command line\<close>

text \<open>
  C5. A run with an input file and one worker translates that file: once the hyper-parameters
  are found and a model is restored whose session translates line by line, the output file holds
  the translations of the lines of the input, in order, before anything is scored, and the run
  ends with the scores of that very file.
\<close>

theorem run_main_translates:
  assumes G: "gfile_total (la_files E)"
    and launch: "la_inference E = inference_fn (la_files E) (la_hparams E) M IE"
    and flags: "bindE (flag fl ''jobid'') int_value = Inr jobid" "bindE (flag fl ''num_workers'') int_value = Inr 1"
      "opt_flag fl ''out_dir'' = Inr out_dir" "opt_flag fl ''inference_input_file'' = Inr (Some input)" "input \<noteq> []"
      "opt_flag fl ''inference_output_file'' = Inr (Some out)" "out \<noteq> []"
      "opt_flag fl ''inference_list'' = Inr None" "opt_flag fl ''ckpt'' = Inr (Some ckpt)" "ckpt \<noteq> []"
    and start: "seed_generators E fl jobid w = Inr w_seeded" "make_out_dir E out_dir w_seeded = Inr w_dir"
      "find_hparams E fl default_hparams out_dir jobid w_dir = Inr (h, w_found)"
      "(if gf_exists (la_files E) w_found (dirname out) then Inr w_found else gf_makedirs (la_files E) w_found (dirname out)) = Inr w_ready"
    and settings: "h' = hp_set (la_hparams E) h (u ''inference_indices'') PNone" "reads_settings (la_hparams E) h' S"
    and model: "infer_model_creator (la_hparams E) h' = Inr c" "start_sess_and_load_model M IE h' w_ready c ckpt = Inr sess"
    and translates: "line_translator IE S tr (splitlines s)" "read_text (la_files E) w_found input = Inr s"
  shows "\<exists>w'. run_main E fl default_hparams w
      = Some (bindE (score_translation E fl h' out w') (\<lambda>scores. Inr (scores, w')))
    \<and> read_text (la_files E) w' out = Inr (output_text tr (splitlines s))"
proof -
  have laws: "gfile_laws (la_files E)" using G by (rule gfile_total.axioms)
  have "gf_read (la_files E) w_ready input = gf_read (la_files E) w_found input"
    using start(4) gfile_laws.read_makedirs[OF laws] by (auto split: if_splits)
  then have "read_text (la_files E) w_ready input = Inr s" using translates(2) by (simp add: read_text_def)
  from single_worker_run[OF G settings(2) translates(1) this refl, of sess out] obtain w' s' where
    run: "single_worker_inference (la_files E) (la_hparams E) IE h' w_ready sess input out = Some (Inr (w', s'))"
    and out: "read_text (la_files E) w' out = Inr (output_text tr (splitlines s))" by blast
  have "inference_indices (la_hparams E) h' = Inr []" using settings(2) by (simp add: reads_settings_def)
  then have "la_inference E (Some ckpt) input out h' 1 jobid w_ready = Some (Inr w')"
    using model run by (simp add: launch inference_fn_def inference_def)
  moreover have "set_inference_indices E fl h = Inr h'"
    using flags(8) settings(1) by (simp add: set_inference_indices_def truthy_def)
  ultimately have "run_main E fl default_hparams w
      = Some (bindE (score_translation E fl h' out w') (\<lambda>scores. Inr (scores, w')))"
    using start(4) by (cases "score_translation E fl h' out w'")
      (simp_all add: run_main_def translate_file_def flags start(1-3) truthy_def split: if_splits)
  with out show ?thesis by blast
qed

definition sample_run_flags :: flags where
  "sample_run_flags = sample_launch_flags(u ''jobid'' \<mapsto> PInt 0, u ''num_workers'' \<mapsto> PInt 1, u ''random_seed'' \<mapsto> PNone,
     u ''out_dir'' \<mapsto> PNone, u ''inference_input_file'' \<mapsto> PStr (u ''i''), u ''inference_output_file'' \<mapsto> PStr [111],
     u ''inference_list'' \<mapsto> PNone, u ''inference_ref_file'' \<mapsto> PNone)"

definition sample_models :: "(dict_fs, pystr list) model_ops" where
  "sample_models = \<lparr>mo_restore = (\<lambda>_ s _. Inr s), mo_print_variables = (\<lambda>_ _. Inr ()), mo_init_tables = Inr,
     mo_init_variables = Inr, mo_global_step = (\<lambda>_. Inr 0), mo_latest_checkpoint = (\<lambda>_ _. None)\<rparr>"

definition sample_run_env :: "(dict_hp, dict_fs) launch_env" where
  "sample_run_env = sample_launch_env\<lparr>la_inference := inference_fn dict_gfile sample_store sample_models sample_env\<rparr>"

definition sample_run_settings :: run_settings where
  "sample_run_settings = \<lparr>rs_metrics = [u ''bleu''], rs_subword = Some [], rs_beam_width = 0, rs_eos = Some (u ''</s>''),
     rs_translations = 1, rs_mode = u ''greedy'', rs_batch_size = 32\<rparr>"

lemma sample_found_settings:
  assumes keys: "\<forall>k \<in> set sample_read_keys. hp_get sample_store h k = hp_get sample_store sample_hp k"
    and h': "h' = hp_set sample_store h (u ''inference_indices'') PNone"
  shows "reads_settings sample_store h' sample_run_settings" and "infer_model_creator sample_store h' = Inr AttentionModel"
proof -
  have "hp_get sample_store h' (u ''inference_indices'') = Some PNone" by (simp add: h' dict_store.get_set)
  moreover have "hp_get sample_store h' k = hp_get sample_store sample_hp k" if "k \<in> set sample_read_keys" for k
    using that keys by (auto simp: h' dict_store.get_set sample_read_keys_def)
  then have "list_all (\<lambda>k. hp_get sample_store h' k = hp_get sample_store sample_hp k) sample_read_keys"
    by (simp add: list_all_iff)
  then have "hp_get sample_store h' (u ''encoder_type'') = Some (PStr (u ''bi''))"
    "hp_get sample_store h' (u ''attention_architecture'') = Some (PStr (u ''standard''))"
    "hp_get sample_store h' (u ''subword_option'') = Some (PStr [])"
    "hp_get sample_store h' (u ''metrics'') = Some (PList [PStr (u ''bleu'')])"
    "hp_get sample_store h' (u ''eos'') = Some (PStr (u ''</s>''))"
    "hp_get sample_store h' (u ''infer_mode'') = Some (PStr (u ''greedy''))"
    "hp_get sample_store h' (u ''beam_width'') = Some (PInt 0)"
    "hp_get sample_store h' (u ''num_translations_per_input'') = Some (PInt 1)"
    "hp_get sample_store h' (u ''infer_batch_size'') = Some (PInt 32)"
    by (simp_all add: sample_read_keys_def sample_hp_def dict_get_attr_def dict_hparams_def)
  ultimately show "reads_settings sample_store h' sample_run_settings" "infer_model_creator sample_store h' = Inr AttentionModel"
    by (simp_all add: reads_settings_def sample_run_settings_def attr_def attr_int_def attr_str_def opt_attr_def
        inference_indices_def infer_model_creator_def wants_gnmt_def)
qed

theorem run_main_translates_witness:
  "\<exists>w'. run_main sample_run_env sample_run_flags sample_hp sample_fs = Some (Inr ([], w'))
    \<and> read_text dict_gfile w' [111] = Inr (output_text sample_texts (splitlines [97, 10, 98, 10, 99]))"
proof -
  note env = sample_run_env_def sample_launch_env_def
  note flags = opt_flag_def flag_def sample_run_flags_def sample_launch_flags_def
  from sample_found obtain h where
    found: "find_hparams sample_launch_env sample_launch_flags sample_hp None 0 sample_fs = Inr (h, sample_fs)"
    and keys: "\<forall>k \<in> set sample_read_keys. hp_get sample_store h k = hp_get sample_store sample_hp k" by blast
  let ?h = "hp_set sample_store h (u ''inference_indices'') PNone"
  have "find_hparams sample_run_env sample_run_flags sample_hp None 0 sample_fs = Inr (h, sample_fs)"
    using found by (simp add: find_hparams_def env flags)
  moreover have "read_text dict_gfile sample_fs (u ''i'') = Inr [97, 10, 98, 10, 99]"
    by (rule dict_read_encoded) (simp_all add: sample_fs_def encodable_def scalar_def u_def)
  moreover have "line_translator sample_env sample_run_settings sample_texts (splitlines [97, 10, 98, 10, 99])"
  proof -
    have "splitlines [97, 10, 98, 10, 99] = sample_data" by (simp add: sample_data_def splitlines_def chomp_def is_eol_def)
    then show ?thesis using sample_translator[of sample_run_settings] by (simp add: sample_run_settings_def)
  qed
  moreover have "start_sess_and_load_model sample_models sample_env ?h sample_fs AttentionModel [99] = Inr []"
    by (simp add: start_sess_and_load_model_def load_model_def sample_models_def sample_env_def)
  ultimately have "\<exists>w'. run_main sample_run_env sample_run_flags sample_hp sample_fs
      = Some (bindE (score_translation sample_run_env sample_run_flags ?h [111] w') (\<lambda>scores. Inr (scores, w')))
    \<and> read_text dict_gfile w' [111] = Inr (output_text sample_texts (splitlines [97, 10, 98, 10, 99]))"
    using run_main_translates[where E = sample_run_env and M = sample_models and IE = sample_env and fl = sample_run_flags
        and jobid = 0 and out_dir = None and input = "u ''i''" and out = "[111]" and ckpt = "[99]" and w = sample_fs and w_seeded = sample_fs
        and w_dir = sample_fs and w_found = sample_fs and w_ready = sample_fs and h = h and h' = ?h
        and default_hparams = sample_hp and S = sample_run_settings and c = AttentionModel and sess = "[]"
        and tr = sample_texts and s = "[97, 10, 98, 10, 99]"]
      dict_files.gfile_total_axioms sample_found_settings[OF keys refl]
    by (simp add: env flags seed_generators_def make_out_dir_def truthy_def sample_makedirs)
  then show ?thesis by (simp add: score_translation_def flags truthy_def)
qed

end
