(* ===== verification/Console.thy ===== *)
theory Console
  imports Params Formatting "HOL-Library.List_Lexorder"
begin

text \<open>
  What \<open>nmt/utils/misc_utils.py\<close> prints: \<open>print_out\<close>, on standard output and into a log file, and
  \<open>print_hparams\<close> on top of it, both streams being the bytes written so far, and \<open>print_time\<close>;
  \<open>print_variables_in_ckpt\<close> of \<open>nmt/model_helper.py\<close>; and the session settings of
  \<open>get_config_proto\<close>.
\<close>

section \<open>Printing\<close>

datatype printable = Str pystr | Bytes bytes

definition print_out :: "printable \<Rightarrow> bytes option \<Rightarrow> bool \<Rightarrow> bytes \<Rightarrow> (bytes \<times> bytes option) res" where
  "print_out s f new_line stdout =
     bindE (case s of Str s \<Rightarrow> Inr s | Bytes b \<Rightarrow> utf8_decode b) (\<lambda>s.
     bindE (raise_if (\<not> encodable s) UnicodeEncodeError) (\<lambda>_.
     let s = utf8_encode s @ (if new_line then utf8_encode [10] else [])
     in Inr (stdout @ s, map_option (\<lambda>f. f @ s) f)))"

text \<open>\<open>"%s=%s"\<close> of a setting; \<open>str\<close> of a value is the parameter \<open>shows\<close>.\<close>

definition hparams_line :: "(py_value \<Rightarrow> pystr) \<Rightarrow> pystr \<Rightarrow> py_value \<Rightarrow> pystr" where
  "hparams_line shows key v = u ''  '' @ key @ u ''='' @ shows v"

definition print_hparams ::
    "'h hparams_api \<Rightarrow> (py_value \<Rightarrow> pystr) \<Rightarrow> 'h \<Rightarrow> pystr list \<Rightarrow> pystr option \<Rightarrow> bytes \<Rightarrow> bytes res" where
  "print_hparams A shows hparams skip_patterns header stdout =
     bindE (if truthy header then bindE (print_out (Str (the header)) None True stdout) (\<lambda>(stdout, _). Inr stdout)
            else Inr stdout) (\<lambda>stdout.
     bindE (values_of A hparams) (\<lambda>values.
     foldE (\<lambda>stdout key.
         if \<forall>p \<in> set skip_patterns. \<not> sublist p key
         then bindE (dict_get (map_of values) key) (\<lambda>v.
              bindE (print_out (Str (hparams_line shows key v)) None True stdout) (\<lambda>(stdout, _). Inr stdout))
         else Inr stdout)
       stdout (sort (map fst values))))"

text \<open>
  \<open>now\<close>, \<open>ctime\<close> and \<open>later\<close> are what the three calls of \<open>time\<close> return; \<open>%d\<close> cuts the
  fraction off.
\<close>

definition print_time :: "pystr \<Rightarrow> real \<Rightarrow> real \<Rightarrow> pystr \<Rightarrow> real \<Rightarrow> bytes \<Rightarrow> (real \<times> bytes) res" where
  "print_time s start_time now ctime later stdout =
     (let elapsed = now - start_time; seconds = (if elapsed < 0 then - \<lfloor>- elapsed\<rfloor> else \<lfloor>elapsed\<rfloor>)
      in bindE (print_out (Str (s @ u '', time '' @ int_str seconds @ u ''s, '' @ ctime @ u ''.'')) None True stdout)
           (\<lambda>(stdout, _). Inr (later, stdout)))"

text \<open>The variables of a checkpoint with their shapes, a shape given as its printed form.\<close>

definition print_variables_in_ckpt :: "pystr \<Rightarrow> (pystr \<times> pystr) list \<Rightarrow> bytes \<Rightarrow> bytes res" where
  "print_variables_in_ckpt ckpt_path variable_map stdout =
     bindE (print_out (Str (u ''# Variables in ckpt '' @ ckpt_path)) None True stdout) (\<lambda>(stdout, _).
     foldE (\<lambda>stdout key.
         bindE (dict_get (map_of variable_map) key) (\<lambda>shape.
         bindE (print_out (Str (u ''  '' @ key @ u '': '' @ shape)) None True stdout) (\<lambda>(stdout, _). Inr stdout)))
       stdout (sort (map fst variable_map)))"

section \<open>Session settings\<close>

record config_proto =
  cp_log_device_placement :: bool
  cp_allow_soft_placement :: bool
  cp_allow_growth :: bool
  cp_intra_op_threads :: "int option"
  cp_inter_op_threads :: "int option"

definition get_config_proto :: "bool \<Rightarrow> bool \<Rightarrow> int \<Rightarrow> int \<Rightarrow> config_proto" where
  "get_config_proto log_device_placement allow_soft_placement num_intra_threads num_inter_threads =
     \<lparr>cp_log_device_placement = log_device_placement, cp_allow_soft_placement = allow_soft_placement,
      cp_allow_growth = True,
      cp_intra_op_threads = (if num_intra_threads \<noteq> 0 then Some num_intra_threads else None),
      cp_inter_op_threads = (if num_inter_threads \<noteq> 0 then Some num_inter_threads else None)\<rparr>"

section \<open>The settings printed\<close>

lemma utf8_encode_append: "utf8_encode (s @ t) = utf8_encode s @ utf8_encode t"
  by (simp add: utf8_encode_def)

lemma print_out_line:
  "encodable s \<Longrightarrow> print_out (Str s) f True out
    = Inr (out @ utf8_encode (s @ [10]), map_option (\<lambda>f. f @ utf8_encode (s @ [10])) f)"
  by (simp add: print_out_def utf8_encode_append Let_def)

text \<open>
  The settings are printed in the order of their names, one line for each that no skip
  pattern occurs in and none for the others, behind what the stream already holds.
\<close>

theorem print_hparams_lines:
  assumes laws: "hparams_laws A"
    and enc: "\<And>k v. hp_get A h k = Some v \<Longrightarrow> encodable (hparams_line shows k v)"
  shows "print_hparams A shows h skip_patterns None out
    = Inr (out @ utf8_encode (concat (map (\<lambda>k. hparams_line shows k (the (hp_get A h k)) @ [10])
        (filter (\<lambda>k. \<forall>p \<in> set skip_patterns. \<not> sublist p k) (sort (hp_names A h))))))"
proof -
  obtain kvs where kvs: "values_of A h = Inr kvs" "map fst kvs = hp_names A h" "\<forall>(k, v) \<in> set kvs. hp_get A h k = Some v"
    using hparams_laws.values_of_total[OF laws] by blast
  have get: "map_of kvs k = hp_get A h k" if k: "k \<in> set (hp_names A h)" for k
  proof -
    from k kvs(2) have "k \<in> fst ` set kvs" by (metis list.set_map)
    then obtain v where "map_of kvs k = Some v" by (metis map_of_eq_None_iff not_None_eq)
    with kvs(3) show ?thesis by (fastforce dest: map_of_SomeD)
  qed
  let ?step = "\<lambda>stdout key.
     if \<forall>p \<in> set skip_patterns. \<not> sublist p key
     then bindE (dict_get (map_of kvs) key) (\<lambda>v.
          bindE (print_out (Str (hparams_line shows key v)) None True stdout) (\<lambda>(stdout, _). Inr stdout))
     else Inr stdout"
  let ?line = "\<lambda>k. hparams_line shows k (the (hp_get A h k)) @ [10]"
  have "foldE ?step out ks = Inr (out @ utf8_encode (concat (map ?line
      (filter (\<lambda>k. \<forall>p \<in> set skip_patterns. \<not> sublist p k) ks))))"
    if "set ks \<subseteq> set (hp_names A h)" for ks
    using that
  proof (induction ks arbitrary: out)
    case (Cons k ks)
    then have "hp_get A h k \<noteq> None" using hparams_laws.names_get[OF laws] by simp
    then obtain v where v: "hp_get A h k = Some v" by blast
    with Cons get[of k] have "map_of kvs k = Some v" by simp
    then show ?case using Cons v enc[OF v] by (simp add: print_out_line dict_get_Some flip: utf8_encode_append)
  qed (simp add: utf8_encode_def)
  from this[of "sort (hp_names A h)"] show ?thesis
    by (simp add: print_hparams_def truthy_def kvs(1,2))
qed

theorem print_hparams_lines_witness:
  "print_hparams (dict_hparams (\<lambda>s. Inl ValueError) (\<lambda>kvs. [])) (\<lambda>v. if v = PInt 1 then u ''1'' else u ''2'')
      ([(u ''eos'', PInt 1), (u ''beam'', PInt 2), (u ''src_eos'', PInt 2)], Map.empty) [u ''src''] None ''#''
    = Inr (''#'' @ utf8_encode (u ''  beam=2'' @ [10] @ u ''  eos=1'' @ [10]))"
  (is "print_hparams ?A ?s ?h _ _ _ = _")
proof -
  have "encodable (hparams_line ?s k v)" if "hp_get ?A ?h k = Some v" for k v
    using that by (auto simp: dict_hparams_def dict_get_attr_def hparams_line_def encodable_def scalar_def u_def split: if_splits)
  then have "print_hparams ?A ?s ?h [u ''src''] None ''#''
    = Inr (''#'' @ utf8_encode (concat (map (\<lambda>k. hparams_line ?s k (the (hp_get ?A ?h k)) @ [10])
        (filter (\<lambda>k. \<forall>p \<in> set [u ''src'']. \<not> sublist p k) (sort (hp_names ?A ?h))))))"
    by (rule print_hparams_lines[OF dict_store.hparams_laws_axioms])
  moreover have "sort (hp_names ?A ?h) = [u ''beam'', u ''eos'', u ''src_eos'']"
    by (simp add: dict_hparams_def u_def)
  ultimately show ?thesis
    by (simp add: dict_hparams_def dict_get_attr_def hparams_line_def u_def sublist_code)
qed

end
