(* ===== verification/MosesBleu.thy ===== *)
theory MosesBleu
  imports PyText
begin

text \<open>
  \<open>_moses_bleu\<close> in \<open>nmt/utils/evaluation_utils.py\<close>, which runs the script \<open>multi-bleu.perl\<close> and
  reads the score from its output. The shell is a parameter; the search in the output is
  Python's \<open>re.search\<close> with the one pattern the function uses.
\<close>

section \<open>The shell\<close>

text \<open>
  \<open>sh_call\<close> is \<open>subprocess.call\<close> with \<open>shell=True\<close>, whose exit status is not looked at;
  \<open>sh_program\<close> is \<open>subprocess.call\<close> of a string without it, which runs the program of that
  name; \<open>sh_output\<close> is \<open>subprocess.check_output\<close>.
\<close>

record 'w shell =
  sh_exists :: "'w \<Rightarrow> pystr \<Rightarrow> bool"
  sh_call :: "'w \<Rightarrow> pystr \<Rightarrow> 'w"
  sh_program :: "'w \<Rightarrow> pystr \<Rightarrow> 'w res"
  sh_output :: "'w \<Rightarrow> pystr \<Rightarrow> (bytes \<times> 'w) res"
  sh_float :: "pystr \<Rightarrow> real res"

section \<open>The score in the output\<close>

text \<open>
  \<open>re.search("BLEU = (.+?),", s)\<close>: the group is the shortest run of characters other than
  newlines between \<open>BLEU = \<close> and a comma, at least one character long, at the first place
  where there is one. A pattern that is a string does not search in bytes.
\<close>

fun lazy_group :: "pystr \<Rightarrow> pystr \<Rightarrow> pystr option" where
  "lazy_group got [] = None"
| "lazy_group got (c # cs) =
     (if c = 44 \<and> got \<noteq> [] then Some (rev got) else if c = 10 then None else lazy_group (c # got) cs)"

fun search_bleu :: "pystr \<Rightarrow> pystr option" where
  "search_bleu [] = None"
| "search_bleu (c # cs) =
     (if take 7 (c # cs) = u ''BLEU = '' \<and> lazy_group [] (drop 7 (c # cs)) \<noteq> None
      then lazy_group [] (drop 7 (c # cs)) else search_bleu cs)"

datatype subject = Text pystr | Raw bytes

fun re_search :: "subject \<Rightarrow> pystr option res" where
  "re_search (Text s) = Inr (search_bleu s)"
| "re_search (Raw _) = Inl TypeError"

section \<open>The function\<close>

definition strip_bpe :: "'w shell \<Rightarrow> 'w \<Rightarrow> pystr \<Rightarrow> pystr \<times> 'w" where
  "strip_bpe S w tgt_test =
     (let debpe_tgt_test = tgt_test @ u ''.debpe'';
          w = (if \<not> sh_exists S w debpe_tgt_test
               then let w = sh_call S w (u ''cp '' @ tgt_test @ u '' '' @ debpe_tgt_test)
                    in sh_call S w (u ''sed s/@@ //g '' @ debpe_tgt_test)
               else w)
      in (debpe_tgt_test, w))"

definition strip_spm :: "'w shell \<Rightarrow> 'w \<Rightarrow> pystr \<Rightarrow> (pystr \<times> 'w) res" where
  "strip_spm S w tgt_test =
     (let despm_tgt_test = tgt_test @ u ''.despm''
      in bindE (if \<not> sh_exists S w despm_tgt_test
                then bindE (sh_program S w (u ''cp '' @ tgt_test @ u '' '' @ despm_tgt_test)) (\<lambda>w.
                     bindE (sh_program S w (u ''sed s/ //g '' @ despm_tgt_test)) (\<lambda>w.
                     bindE (sh_program S w (u ''sed s/^'' @ [9601] @ u ''/g '' @ despm_tgt_test)) (\<lambda>w.
                     sh_program S w (u ''sed s/'' @ [9601] @ u ''/ /g '' @ despm_tgt_test))))
                else Inr w) (\<lambda>w.
         Inr (despm_tgt_test, w)))"

definition moses_bleu ::
    "'w shell \<Rightarrow> 'w \<Rightarrow> pystr \<Rightarrow> pystr \<Rightarrow> pystr \<Rightarrow> pystr option \<Rightarrow> (real \<times> 'w) res" where
  "moses_bleu S w multi_bleu_script tgt_test trans_file subword_option =
     bindE (if subword_option = Some (u ''bpe'') then Inr (strip_bpe S w tgt_test)
            else if subword_option = Some (u ''spm'') then strip_spm S w tgt_test
            else Inr (tgt_test, w)) (\<lambda>(tgt_test, w).
     let cmd = multi_bleu_script @ u '' '' @ tgt_test @ u '' < '' @ trans_file
     in bindE (sh_output S w cmd) (\<lambda>(bleu_output, w).
        bindE (re_search (Raw bleu_output)) (\<lambda>m.
        bindE (case m of None \<Rightarrow> Inl AttributeError | Some g \<Rightarrow> Inr g) (\<lambda>group.
        bindE (sh_float S group) (\<lambda>bleu_score.
        Inr (bleu_score, w))))))"

section \<open>It never scores\<close>

text \<open>
  In Python 3 the function never returns a score: the output of the script is bytes, which
  the pattern, a string, cannot search. A script that runs gives \<open>TypeError\<close>, whatever it
  prints, although the pattern does find the score in the same output as text.
\<close>

theorem moses_bleu_never_scores:
  assumes "sh_output S w (multi_bleu_script @ u '' '' @ tgt_test @ u '' < '' @ trans_file) = Inr (out, w')"
  shows "moses_bleu S w multi_bleu_script tgt_test trans_file None = Inl TypeError
    \<and> (\<forall>subword_option r. moses_bleu S w multi_bleu_script tgt_test trans_file subword_option \<noteq> Inr r)
    \<and> re_search (Text (u ''BLEU = 12.5, 40.1/15.0'')) = Inr (Some (u ''12.5''))"
proof (intro conjI allI)
  fix subword_option r
  show "moses_bleu S w multi_bleu_script tgt_test trans_file subword_option \<noteq> Inr r"
    by (auto simp: moses_bleu_def bindE_Inr_iff)
  show "re_search (Text (u ''BLEU = 12.5, 40.1/15.0'')) = Inr (Some (u ''12.5''))" by code_simp
qed (use assms in \<open>simp add: moses_bleu_def\<close>)

definition sample_shell :: "unit shell" where
  "sample_shell = \<lparr>sh_exists = (\<lambda>_ _. False), sh_call = (\<lambda>w _. w), sh_program = (\<lambda>_ _. Inl NotFoundError),
     sh_output = (\<lambda>w _. Inr (''BLEU = 12.5, 40.1'', w)), sh_float = (\<lambda>_. Inr 0)\<rparr>"

theorem moses_bleu_never_scores_witness:
  "moses_bleu sample_shell () [115] [114] [116] None = Inl TypeError
    \<and> (\<forall>subword_option r. moses_bleu sample_shell () [115] [114] [116] subword_option \<noteq> Inr r)
    \<and> re_search (Text (u ''BLEU = 12.5, 40.1/15.0'')) = Inr (Some (u ''12.5''))"
  by (rule moses_bleu_never_scores[where out = "''BLEU = 12.5, 40.1''" and w' = "()"]) (simp add: sample_shell_def)

end
