(* ===== verification/UnitTests.thy ===== *)
theory UnitTests
  imports HParams Iterators EvaluationUtils Cells
begin

text \<open>
  The helpers of the repository's unit tests, \<open>nmt/utils/common_test_utils.py\<close>, and what the tests
  of the utilities (\<open>nmt/utils/*_test.py\<close>) expect, evaluated on the model: the same inputs give
  the same outputs.
\<close>

section \<open>Test settings and test data\<close>

definition create_test_hparams ::
    "'h hparams_api \<Rightarrow> pystr \<Rightarrow> pystr \<Rightarrow> int \<Rightarrow> py_value \<Rightarrow> py_value \<Rightarrow> bool \<Rightarrow> py_value \<Rightarrow> int \<Rightarrow> int \<Rightarrow> pystr
     \<Rightarrow> 'h res" where
  "create_test_hparams A unit_type encoder_type num_layers attention attention_architecture use_residual
       inference_indices num_translations_per_input beam_width init_op =
     (let num_residual_layers = if use_residual then 2 else 0
      in bindE (create_standard_hparams A) (\<lambda>standard_hparams.
         Inr (foldl (\<lambda>h (k, v). hp_set A h (u k) v) standard_hparams
           [(''num_units'', PInt 5), (''num_encoder_layers'', PInt num_layers), (''num_decoder_layers'', PInt num_layers),
            (''dropout'', PFloat (1 / 2)), (''unit_type'', PStr unit_type), (''encoder_type'', PStr encoder_type),
            (''residual'', PBool use_residual), (''num_residual_layers'', PInt num_residual_layers),
            (''attention'', attention), (''attention_architecture'', attention_architecture),
            (''init_op'', PStr init_op), (''num_train_steps'', PInt 1), (''decay_scheme'', PStr []),
            (''tgt_max_len_infer'', PInt 100), (''beam_width'', PInt beam_width),
            (''num_translations_per_input'', PInt num_translations_per_input),
            (''forget_bias'', PFloat 0), (''random_seed'', PInt 3), (''language_model'', PBool False),
            (''src_vocab_size'', PInt 5), (''tgt_vocab_size'', PInt 5), (''eos'', PStr (u ''</s>'')), (''sos'', PStr (u ''<s>'')),
            (''src_vocab_file'', PStr []), (''tgt_vocab_file'', PStr []), (''src_embed_file'', PStr []), (''tgt_embed_file'', PStr []),
            (''subword_option'', PStr (u ''bpe'')), (''src'', PStr (u ''src'')), (''tgt'', PStr (u ''tgt'')),
            (''src_max_len'', PInt 400), (''tgt_eos_id'', PInt 0), (''inference_indices'', inference_indices)])))"

text \<open>
  \<open>index_table_from_tensor\<close>: the position of a word, \<open>-1\<close> for a word that is not there. It is
  TensorFlow's, and so are the parts of the pipeline in \<open>D\<close>.
\<close>

fun index_table_from_tensor :: "bytes list \<Rightarrow> bytes \<Rightarrow> int" where
  "index_table_from_tensor [] w = - 1"
| "index_table_from_tensor (v # vs) w =
     (if v = w then 0 else let i = index_table_from_tensor vs w in if i = - 1 then - 1 else i + 1)"

definition test_iterator_args :: "nat \<Rightarrow> bytes \<Rightarrow> bytes \<Rightarrow> int option \<Rightarrow> int \<Rightarrow> iterator_args" where
  "test_iterator_args batch_size sos eos random_seed num_buckets =
     \<lparr>ia_batch_size = batch_size, ia_sos = sos, ia_eos = eos, ia_random_seed = random_seed,
      ia_num_buckets = num_buckets, ia_src_max_len = None, ia_tgt_max_len = None, ia_output_buffer_size = None,
      ia_skip_count = None, ia_num_shards = 1, ia_shard_index = 0, ia_reshuffle = True, ia_use_char_encode = False\<rparr>"

text \<open>\<open>index_to_string_table_from_tensor\<close>, with TensorFlow's default value.\<close>

definition string_table_from_tensor :: "bytes list \<Rightarrow> int \<Rightarrow> bytes" where
  "string_table_from_tensor vs i = (if 0 \<le> i \<and> i < int (length vs) then vs ! nat i else ''UNK'')"

text \<open>
  The iterator for training and evaluation, or the one for inference with the table of the
  target words; both with the tables of the words.
\<close>

definition create_test_iterator ::
    "'t data_env \<Rightarrow> bytes \<Rightarrow> bytes \<Rightarrow> nat \<Rightarrow> int option \<Rightarrow> int \<Rightarrow> mode
     \<Rightarrow> ((batch list + infer_batch list \<times> (int \<Rightarrow> bytes)) \<times> (bytes \<Rightarrow> int) \<times> (bytes \<Rightarrow> int)) res" where
  "create_test_iterator D sos eos batch_size random_seed num_buckets mode =
     (let src_vocab_table = index_table_from_tensor [eos, ''a'', ''b'', ''c'', ''d''];
          tgt_vocab_mapping = [sos, eos, ''a'', ''b'', ''c''];
          tgt_vocab_table = index_table_from_tensor tgt_vocab_mapping;
          src_dataset = [''a a b b c'', ''a b b'']
      in if mode \<noteq> INFER
         then let tgt_dataset = [''a b c b c'', ''a b c b'']
              in bindE (get_iterator D (test_iterator_args batch_size sos eos random_seed num_buckets)
                          src_vocab_table tgt_vocab_table src_dataset tgt_dataset) (\<lambda>b.
                 Inr (Inl b, src_vocab_table, tgt_vocab_table))
         else bindE (get_infer_iterator D src_dataset src_vocab_table batch_size eos None False) (\<lambda>b.
              Inr (Inr (b, string_table_from_tensor tgt_vocab_mapping), src_vocab_table, tgt_vocab_table)))"

section \<open>Expectations of the tests\<close>

definition test_table :: "bytes \<Rightarrow> int" where
  "test_table = index_table_from_tensor [''a'', ''b'', ''c'', ''eos'', ''sos'']"

text \<open>The shuffling with the seed of the tests is not modelled; the order it yields is an argument.\<close>

definition seeded_pipeline :: "nat list \<Rightarrow> int list data_env" where
  "seeded_pipeline order = list_pipeline\<lparr>de_shuffle := \<lambda>_ _ _ xs. map (nth xs) order\<rparr>"

definition test_args :: iterator_args where
  "test_args = (test_iterator_args 2 ''sos'' ''eos'' (Some 3) 5)\<lparr>ia_src_max_len := Some 3, ia_reshuffle := False\<rparr>"

lemma test_infer_iterator:
  "get_infer_iterator list_pipeline [''c c a'', ''c a'', ''d'', ''f e a g''] test_table 2 ''eos'' (Some 3) False
    = Inr [\<lparr>ib_source = [[2, 2, 0], [2, 0, 3]], ib_source_length = [3, 2]\<rparr>,
           \<lparr>ib_source = [[- 1, 3, 3], [- 1, - 1, 0]], ib_source_length = [1, 3]\<rparr>]"
  by code_simp

definition first_batch :: batch where
  "first_batch = \<lparr>ba_source = [[2, 0, 3], [- 1, - 1, 0]], ba_target_input = [[4, 1, 2], [4, 2, 2]],
     ba_target_output = [[1, 2, 3], [2, 2, 3]], ba_source_length = [2, 3], ba_target_length = [3, 3]\<rparr>"

lemma test_iterator:
  "get_iterator (seeded_pipeline [3, 0, 1, 2]) test_args
      test_table test_table [''f e a g'', ''c c a'', ''d'', ''c a''] [''c c'', ''a b'', '''', ''b c'']
    = Inr [first_batch,
           \<lparr>ba_source = [[2, 2, 0]], ba_target_input = [[4, 0, 1]], ba_target_output = [[0, 1, 3]],
            ba_source_length = [3], ba_target_length = [3]\<rparr>]"
  by code_simp

lemma test_iterator_with_shard:
  "get_iterator (seeded_pipeline [1, 0]) (test_args\<lparr>ia_num_shards := 2, ia_shard_index := 1\<rparr>)
      test_table test_table [''c c a'', ''f e a g'', ''d'', ''c a''] [''a b'', ''c c'', '''', ''b c'']
    = Inr [first_batch]"
  by code_simp

lemma test_iterator_with_skip_count:
  "get_iterator (seeded_pipeline [0]) (test_args\<lparr>ia_skip_count := Some 3\<rparr>)
      test_table test_table [''c a'', ''c c a'', ''d'', ''f e a g''] [''b c'', ''a b'', '''', ''c c'']
    = Inr [\<lparr>ba_source = [[- 1, - 1, 0]], ba_target_input = [[4, 2, 2]], ba_target_output = [[2, 2, 3]],
            ba_source_length = [3], ba_target_length = [3]\<rparr>]"
  by code_simp

lemma test_format_bpe_text:
  "format_bpe_text [''En@@'', ''ough'', ''to'', ''make'', ''already'', ''reluc@@'', ''tant'', ''men'', ''hesitate'', ''to'',
      ''take'', ''screening'', ''tests'', ''.''] ''@@''
    = ''Enough to make already reluctant men hesitate to take screening tests .''"
  by code_simp

text \<open>The files \<open>testdata/pred_output\<close> and \<open>testdata/label_ref\<close>.\<close>

definition positive :: pystr where "positive = u ''positive''"
definition negative :: pystr where "negative = u ''negative''"

definition test_files :: dict_fs where
  "test_files = [u ''pred'' \<mapsto> utf8_encode (join [10] [positive, positive, negative, negative, positive]),
     u ''label'' \<mapsto> utf8_encode (join [10] [positive, positive, positive, negative, negative])]"

lemma test_lines:
  "read_lines dict_gfile test_files (u ''label'')
    = Inr [positive @ [10], positive @ [10], positive @ [10], negative @ [10], negative]"
  "read_lines dict_gfile test_files (u ''pred'')
    = Inr [positive @ [10], positive @ [10], negative @ [10], negative @ [10], positive]"
  by (simp_all add: read_lines_def test_files_def dict_read_encoded positive_def negative_def encodable_def scalar_def
      is_eol_def u_def)

lemma test_accuracy: "evaluate dict_gfile list_mean test_files (u ''label'') (u ''pred'') (u ''accuracy'') None = Inr 60"
proof -
  have strip: "strip (s @ [10]) = s" "strip s = s" if "s = positive \<or> s = negative" for s
    using that by (elim disjE; simp add: positive_def negative_def u_def strip_def lstrip_def rstrip_def is_space_def)+
  have "positive \<noteq> negative" by (simp add: positive_def negative_def u_def)
  moreover have "line_up [positive @ [10], positive @ [10], positive @ [10], negative @ [10], negative]
      [positive @ [10], positive @ [10], negative @ [10], negative @ [10], positive]
    = [(positive @ [10], positive @ [10]), (positive @ [10], positive @ [10]), (positive @ [10], negative @ [10]),
       (negative @ [10], negative @ [10]), (negative, positive)]"
    by (simp add: line_up_simps readline_def)
  ultimately have "accuracy_metric dict_gfile test_files (u ''label'') (u ''pred'') = Inr 60"
    using accuracy_counts_matching_lines[OF test_lines] by (simp add: strip)
  then show ?thesis by (simp add: evaluate_def lower_def u_def)
qed

end
